(* ===== verification/Pica_Base.thy ===== *)
theory Pica_Base
  imports Main "HOL-Library.Word" "HOL-Library.Monad_Syntax" "HOL-Library.List_Lexorder"
begin

text \<open>
  Shared vocabulary of the development: bytes and machine words, the reads and writes of
  C memory that every component uses (\<open>memcpy\<close>, \<open>memmove\<close>, \<open>memcmp\<close>, little-endian
  integers), the environment a C program cannot control (allocation results, random
  bytes, the clock), and the generic lemmas on lists and options that carry the
  component proofs.

  A function whose result type is an \<open>option\<close> returns \<open>None\<close> where the C code has no
  defined result: it dereferences \<open>NULL\<close> or freed memory, reads outside a buffer, calls
  \<open>exit\<close>, or never returns. Error codes of the C code are ordinary values.
\<close>

named_theorems pica_simps \<open>simplification rules of the byte-level model\<close>
named_theorems pica_inv \<open>preservation rules of the component invariants\<close>

section \<open>Bytes and words\<close>

type_synonym byte = "8 word"
type_synonym u16 = "16 word"
type_synonym u32 = "32 word"
type_synonym u64 = "64 word"
type_synonym pid = "byte list"

abbreviation (input) PICA_ID_SIZE :: nat where
  "PICA_ID_SIZE \<equiv> 28"

abbreviation (input) UINT_MAX :: u32 where
  "UINT_MAX \<equiv> 0xFFFFFFFF"

text \<open>\<open>memcmp\<close> over identifiers compares them lexicographically as unsigned bytes.\<close>

definition memcmp :: "byte list \<Rightarrow> byte list \<Rightarrow> int" where
  "memcmp a b = (if a = b then 0 else if a < b then -1 else 1)"

text \<open>A read of one byte; outside the memory block there is no defined value.\<close>

definition rd8 :: "byte list \<Rightarrow> nat \<Rightarrow> byte option" where
  "rd8 buf i = (if i < length buf then Some (buf ! i) else None)"

definition rd_bytes :: "byte list \<Rightarrow> nat \<Rightarrow> nat \<Rightarrow> byte list option" where
  "rd_bytes buf i n = (if i + n \<le> length buf then Some (take n (drop i buf)) else None)"

text \<open>Little-endian values of byte strings, and the bytes of a 16-bit value.\<close>

fun le_nat :: "byte list \<Rightarrow> nat" where
  "le_nat [] = 0"
| "le_nat (b # bs) = unat b + 256 * le_nat bs"

definition rd16 :: "byte list \<Rightarrow> nat \<Rightarrow> nat option" where
  "rd16 buf i = map_option le_nat (rd_bytes buf i 2)"

definition rd64 :: "byte list \<Rightarrow> nat \<Rightarrow> nat option" where
  "rd64 buf i = map_option le_nat (rd_bytes buf i 8)"

definition put16 :: "nat \<Rightarrow> byte list" where
  "put16 n = [of_nat n, of_nat (n div 256)]"

fun put_le :: "nat \<Rightarrow> nat \<Rightarrow> byte list" where
  "put_le 0 n = []"
| "put_le (Suc k) n = of_nat n # put_le k (n div 256)"

text \<open>A port in network byte order, as a number of the little-endian host.\<close>

definition ntohs :: "u16 \<Rightarrow> u16" where
  "ntohs p = of_nat (le_nat (rev (put_le 2 (unat p))))"

section \<open>Memory blocks\<close>

text \<open>
  \<open>blit off xs buf\<close> is the block \<open>buf\<close> after \<open>memcpy(buf + off, xs, length xs)\<close>;
  \<open>memmove_down n k buf\<close> is \<open>buf\<close> after \<open>memmove(buf, buf + n, k)\<close>.
\<close>

definition blit :: "nat \<Rightarrow> byte list \<Rightarrow> byte list \<Rightarrow> byte list" where
  "blit off xs buf = take off buf @ xs @ drop (off + length xs) buf"

definition memmove_down :: "nat \<Rightarrow> nat \<Rightarrow> byte list \<Rightarrow> byte list" where
  "memmove_down n k buf = blit 0 (take k (drop n buf)) buf"

section \<open>The environment\<close>

text \<open>
  Allocation results, the bytes of \<open>RAND_pseudo_bytes\<close>, the indeterminate bytes of a
  fresh block and the clock are inputs of the program. \<open>alloc_ok n\<close> is the result of
  the \<open>n\<close>-th allocation.
\<close>

record env =
  alloc_ok :: "nat \<Rightarrow> bool"
  n_alloc :: nat
  rand_byte :: "nat \<Rightarrow> byte"
  n_rand :: nat
  junk_byte :: "nat \<Rightarrow> byte"
  now :: int

definition env_alloc :: "env \<Rightarrow> bool \<times> env" where
  "env_alloc e = (alloc_ok e (n_alloc e), e\<lparr>n_alloc := Suc (n_alloc e)\<rparr>)"

definition RAND_pseudo_bytes :: "nat \<Rightarrow> env \<Rightarrow> byte list \<times> env" where
  "RAND_pseudo_bytes n e =
     (map (\<lambda>i. rand_byte e (n_rand e + i)) [0..<n], e\<lparr>n_rand := n_rand e + n\<rparr>)"

definition junk :: "env \<Rightarrow> nat \<Rightarrow> byte list" where
  "junk e n = map (junk_byte e) [0..<n]"

text \<open>An environment in which every allocation succeeds.\<close>

definition calm_env :: env where
  "calm_env = \<lparr>alloc_ok = (\<lambda>_. True), n_alloc = 0, rand_byte = (\<lambda>_. 0), n_rand = 0,
     junk_byte = (\<lambda>_. 0), now = 0\<rparr>"

section \<open>Lemmas\<close>

lemma length_blit [simp]: "off + length xs \<le> length buf \<Longrightarrow> length (blit off xs buf) = length buf"
  by (simp add: blit_def)

lemma take_blit_before [simp]: "k \<le> off \<Longrightarrow> off \<le> length buf \<Longrightarrow> take k (blit off xs buf) = take k buf"
  by (simp add: blit_def min_def)

lemma take_blit_upto [simp]:
  "off \<le> length buf \<Longrightarrow> take (off + length xs) (blit off xs buf) = take off buf @ xs"
  by (simp add: blit_def)

lemma blit_Nil [simp]: "blit off [] buf = buf"
  by (simp add: blit_def)

lemma blit_blit_adjacent:
  assumes "off + length xs + length ys \<le> length buf"
  shows "blit (off + length xs) ys (blit off xs buf) = blit off (xs @ ys) buf"
  using assms by (simp add: blit_def ac_simps)

lemma length_memmove_down [simp]:
  "n + k \<le> length buf \<Longrightarrow> length (memmove_down n k buf) = length buf"
  by (simp add: memmove_down_def)

lemma take_memmove_down [simp]:
  "n + k \<le> length buf \<Longrightarrow> take k (memmove_down n k buf) = take k (drop n buf)"
  by (simp add: memmove_down_def blit_def)

lemma rd8_Some [simp]: "i < length buf \<Longrightarrow> rd8 buf i = Some (buf ! i)"
  by (simp add: rd8_def)

lemma rd_bytes_Some [simp]: "i + n \<le> length buf \<Longrightarrow> rd_bytes buf i n = Some (take n (drop i buf))"
  by (simp add: rd_bytes_def)

lemma rd_bytes_take [simp]: "n \<le> length buf \<Longrightarrow> i + k \<le> n \<Longrightarrow> rd_bytes (take n buf) i k = rd_bytes buf i k"
  by (simp add: rd_bytes_def drop_take)

lemma rd8_take [simp]: "n \<le> length buf \<Longrightarrow> i < n \<Longrightarrow> rd8 (take n buf) i = rd8 buf i"
  by (simp add: rd8_def)

lemma rd16_take [simp]: "n \<le> length buf \<Longrightarrow> i + 2 \<le> n \<Longrightarrow> rd16 (take n buf) i = rd16 buf i"
  unfolding rd16_def by (subst rd_bytes_take) simp_all

lemma rd64_take [simp]: "n \<le> length buf \<Longrightarrow> i + 8 \<le> n \<Longrightarrow> rd64 (take n buf) i = rd64 buf i"
  unfolding rd64_def by (subst rd_bytes_take) simp_all

lemma length_put16 [simp]: "length (put16 n) = 2"
  by (simp add: put16_def)

lemma length_put_le [simp]: "length (put_le k n) = k"
  by (induction k n rule: put_le.induct) auto

lemma le_nat_less: "le_nat bs < 256 ^ length bs"
proof (induction bs)
  case (Cons b bs)
  have "unat b < 256" by (rule order.strict_trans2 [OF unsigned_less]) simp
  then show ?case using Cons by simp
qed simp

lemma le_nat_put_le: "n < 256 ^ k \<Longrightarrow> le_nat (put_le k n) = n"
proof (induction k n rule: put_le.induct)
  case (2 k n)
  then have "n div 256 < 256 ^ k" by (simp add: less_mult_imp_div_less mult.commute)
  with 2 show ?case by (simp add: unat_of_nat)
qed simp

lemma put16_put_le: "put16 n = put_le 2 n"
  by (simp add: put16_def numeral_2_eq_2)

lemma le_nat_put16 [simp]: "n < 65536 \<Longrightarrow> le_nat (put16 n) = n"
  using le_nat_put_le [of n 2] by (simp add: put16_put_le)

lemma memcmp_0_iff [simp]: "memcmp a b = 0 \<longleftrightarrow> a = b"
  by (simp add: memcmp_def)

lemma memcmp_neg_iff [simp]: "memcmp a b < 0 \<longleftrightarrow> a < b"
  by (auto simp: memcmp_def)

lemma length_RAND [simp]: "length (fst (RAND_pseudo_bytes n e)) = n"
  by (simp add: RAND_pseudo_bytes_def)

lemma length_junk [simp]: "length (junk e n) = n"
  by (simp add: junk_def)

lemma uint_less_unat: "uint (x :: 'a::len word) < uint y \<longleftrightarrow> unat x < unat y"
  unfolding unat_eq_nat_uint by (rule nat_less_eq_zless [symmetric]) simp

lemma unat_u32_less: "unat (x :: u32) < 4294967296"
  by (rule order.strict_trans2 [OF unsigned_less]) simp

declare Option.bind_eq_Some_conv [simp]

end
