(* ===== verification/Pica_Proto.thy ===== *)
theory Pica_Proto
  imports Pica_Base
begin

text \<open>
  The protocol constants of \<open>PICA_proto.h\<close>: message identifiers (the octet a packet
  repeats in its two-octet header), fixed packet sizes and limits, and the byte layout of
  a packet, a header and a tail (\<open>struct PICA_proto_msg\<close>).
\<close>

section \<open>Versions and message identifiers\<close>

abbreviation (input) PICA_PROTO_VER_HIGH :: byte where "PICA_PROTO_VER_HIGH \<equiv> 0"
abbreviation (input) PICA_PROTO_VER_LOW :: byte where "PICA_PROTO_VER_LOW \<equiv> 5"
abbreviation (input) PICA_C2CPROTO_VER_HIGH :: byte where "PICA_C2CPROTO_VER_HIGH \<equiv> 0"
abbreviation (input) PICA_C2CPROTO_VER_LOW :: byte where "PICA_C2CPROTO_VER_LOW \<equiv> 1"

abbreviation (input) PICA_PROTO_INITREQ :: u32 where "PICA_PROTO_INITREQ \<equiv> 0xCA"
abbreviation (input) PICA_PROTO_INITRESPOK :: u32 where "PICA_PROTO_INITRESPOK \<equiv> 0x01"
abbreviation (input) PICA_PROTO_VERDIFFER :: u32 where "PICA_PROTO_VERDIFFER \<equiv> 0x02"
abbreviation (input) PICA_PROTO_CONNREQOUTG :: u32 where "PICA_PROTO_CONNREQOUTG \<equiv> 0x03"
abbreviation (input) PICA_PROTO_CONNREQINC :: u32 where "PICA_PROTO_CONNREQINC \<equiv> 0x04"
abbreviation (input) PICA_PROTO_NOTFOUND :: u32 where "PICA_PROTO_NOTFOUND \<equiv> 0x05"
abbreviation (input) PICA_PROTO_CONNALLOW :: u32 where "PICA_PROTO_CONNALLOW \<equiv> 0x06"
abbreviation (input) PICA_PROTO_FOUND :: u32 where "PICA_PROTO_FOUND \<equiv> 0x07"
abbreviation (input) PICA_PROTO_CONNDENY :: u32 where "PICA_PROTO_CONNDENY \<equiv> 0x08"
abbreviation (input) PICA_PROTO_CLNODELISTREQ :: u32 where "PICA_PROTO_CLNODELISTREQ \<equiv> 0x09"
abbreviation (input) PICA_PROTO_CLNODELIST :: u32 where "PICA_PROTO_CLNODELIST \<equiv> 0x0A"
abbreviation (input) PICA_PROTO_CONNID :: u32 where "PICA_PROTO_CONNID \<equiv> 0x20"
abbreviation (input) PICA_PROTO_C2CCONNREQ :: u32 where "PICA_PROTO_C2CCONNREQ \<equiv> 0xCC"
abbreviation (input) PICA_PROTO_DIRECTC2C_ADDRLIST :: u32 where "PICA_PROTO_DIRECTC2C_ADDRLIST \<equiv> 0x0B"
abbreviation (input) PICA_PROTO_DIRECTC2C_IPV4 :: u32 where "PICA_PROTO_DIRECTC2C_IPV4 \<equiv> 0xA0"
abbreviation (input) PICA_PROTO_DIRECTC2C_FAILED :: u32 where "PICA_PROTO_DIRECTC2C_FAILED \<equiv> 0x0C"
abbreviation (input) PICA_PROTO_DIRECTC2C_SWITCH :: u32 where "PICA_PROTO_DIRECTC2C_SWITCH \<equiv> 0x0D"
abbreviation (input) PICA_PROTO_MULTILOGIN :: u32 where "PICA_PROTO_MULTILOGIN \<equiv> 0x0E"
abbreviation (input) PICA_PROTO_MSGUTF8 :: u32 where "PICA_PROTO_MSGUTF8 \<equiv> 0x30"
abbreviation (input) PICA_PROTO_MSGOK :: u32 where "PICA_PROTO_MSGOK \<equiv> 0x40"
abbreviation (input) PICA_PROTO_SENDFILEREQUEST :: u32 where "PICA_PROTO_SENDFILEREQUEST \<equiv> 0x50"
abbreviation (input) PICA_PROTO_ACCEPTEDFILE :: u32 where "PICA_PROTO_ACCEPTEDFILE \<equiv> 0x51"
abbreviation (input) PICA_PROTO_DENIEDFILE :: u32 where "PICA_PROTO_DENIEDFILE \<equiv> 0x52"
abbreviation (input) PICA_PROTO_FILEFRAGMENT :: u32 where "PICA_PROTO_FILEFRAGMENT \<equiv> 0x53"
abbreviation (input) PICA_PROTO_FILECONTROL :: u32 where "PICA_PROTO_FILECONTROL \<equiv> 0x54"
abbreviation (input) PICA_PROTO_PINGREQ :: u32 where "PICA_PROTO_PINGREQ \<equiv> 0x68"
abbreviation (input) PICA_PROTO_PINGREP :: u32 where "PICA_PROTO_PINGREP \<equiv> 0x69"
abbreviation (input) PICA_PROTO_NODECONNREQ :: u32 where "PICA_PROTO_NODECONNREQ \<equiv> 0xCB"
abbreviation (input) PICA_PROTO_NEWNODE_IPV4 :: u32 where "PICA_PROTO_NEWNODE_IPV4 \<equiv> 0xA0"
abbreviation (input) PICA_PROTO_NEWNODE_IPV6 :: u32 where "PICA_PROTO_NEWNODE_IPV6 \<equiv> 0xA1"
abbreviation (input) PICA_PROTO_NEWNODE_DNS :: u32 where "PICA_PROTO_NEWNODE_DNS \<equiv> 0xA2"
abbreviation (input) PICA_PROTO_NODELIST :: u32 where "PICA_PROTO_NODELIST \<equiv> 0xA4"
abbreviation (input) PICA_PROTO_NODELISTREQ :: u32 where "PICA_PROTO_NODELISTREQ \<equiv> 0x90"
abbreviation (input) PICA_PROTO_SEARCH :: u32 where "PICA_PROTO_SEARCH \<equiv> 0xA5"
abbreviation (input) PICA_PROTO_N2NFOUND :: u32 where "PICA_PROTO_N2NFOUND \<equiv> 0xA8"
abbreviation (input) PICA_PROTO_N2NFOUNDCACHE :: u32 where "PICA_PROTO_N2NFOUNDCACHE \<equiv> 0xA9"
abbreviation (input) PICA_PROTO_N2NCONNREQOUTG :: u32 where "PICA_PROTO_N2NCONNREQOUTG \<equiv> 0xAA"
abbreviation (input) PICA_PROTO_N2NALLOW :: u32 where "PICA_PROTO_N2NALLOW \<equiv> 0xAB"
abbreviation (input) PICA_PROTO_N2NNOTFOUND :: u32 where "PICA_PROTO_N2NNOTFOUND \<equiv> 0xB8"
abbreviation (input) PICA_PROTO_N2NMSG :: u32 where "PICA_PROTO_N2NMSG \<equiv> 0xD0"

abbreviation (input) PICA_PROTO_FILECONTROL_VOID :: byte where "PICA_PROTO_FILECONTROL_VOID \<equiv> 0"
abbreviation (input) PICA_PROTO_FILECONTROL_PAUSE :: byte where "PICA_PROTO_FILECONTROL_PAUSE \<equiv> 1"
abbreviation (input) PICA_PROTO_FILECONTROL_RESUME :: byte where "PICA_PROTO_FILECONTROL_RESUME \<equiv> 2"
abbreviation (input) PICA_PROTO_FILECONTROL_CANCEL :: byte where "PICA_PROTO_FILECONTROL_CANCEL \<equiv> 3"
abbreviation (input) PICA_PROTO_FILECONTROL_IOERROR :: byte where "PICA_PROTO_FILECONTROL_IOERROR \<equiv> 4"

section \<open>Sizes and limits\<close>

abbreviation (input) PICA_PROTO_DIRECTC2C_ADDRLIST_ITEM_IPV4_SIZE :: nat where
  "PICA_PROTO_DIRECTC2C_ADDRLIST_ITEM_IPV4_SIZE \<equiv> 7"
abbreviation (input) PICA_PROTO_MULTILOGIN_MAXSIGSIZE :: nat where
  "PICA_PROTO_MULTILOGIN_MAXSIGSIZE \<equiv> 65265"
abbreviation (input) PICA_PROTO_NODELIST_ITEM_IPV4_SIZE :: nat where
  "PICA_PROTO_NODELIST_ITEM_IPV4_SIZE \<equiv> 7"
abbreviation (input) PICA_PROTO_NODELIST_ITEM_IPV6_SIZE :: nat where
  "PICA_PROTO_NODELIST_ITEM_IPV6_SIZE \<equiv> 19"
abbreviation (input) PICA_PROTO_N2NMSG_MAXDATASIZE :: nat where
  "PICA_PROTO_N2NMSG_MAXDATASIZE \<equiv> 65476"
abbreviation (input) PICA_PROTO_C2CMSG_MAXDATASIZE :: nat where
  "PICA_PROTO_C2CMSG_MAXDATASIZE \<equiv> 65532"
abbreviation (input) PICA_PROTO_C2CMSG_MAXFILENAMESIZE :: nat where
  "PICA_PROTO_C2CMSG_MAXFILENAMESIZE \<equiv> 255"

abbreviation (input) PICA_PROTO_INITREQ_SIZE :: u32 where "PICA_PROTO_INITREQ_SIZE \<equiv> 4"
abbreviation (input) PICA_PROTO_INITRESPOK_SIZE :: u32 where "PICA_PROTO_INITRESPOK_SIZE \<equiv> 4"
abbreviation (input) PICA_PROTO_VERDIFFER_SIZE :: u32 where "PICA_PROTO_VERDIFFER_SIZE \<equiv> 4"
abbreviation (input) PICA_PROTO_CONNREQOUTG_SIZE :: u32 where "PICA_PROTO_CONNREQOUTG_SIZE \<equiv> 30"
abbreviation (input) PICA_PROTO_CONNREQINC_SIZE :: u32 where "PICA_PROTO_CONNREQINC_SIZE \<equiv> 30"
abbreviation (input) PICA_PROTO_NOTFOUND_SIZE :: u32 where "PICA_PROTO_NOTFOUND_SIZE \<equiv> 30"
abbreviation (input) PICA_PROTO_CONNALLOW_SIZE :: u32 where "PICA_PROTO_CONNALLOW_SIZE \<equiv> 30"
abbreviation (input) PICA_PROTO_FOUND_SIZE :: u32 where "PICA_PROTO_FOUND_SIZE \<equiv> 30"
abbreviation (input) PICA_PROTO_CONNDENY_SIZE :: u32 where "PICA_PROTO_CONNDENY_SIZE \<equiv> 30"
abbreviation (input) PICA_PROTO_CLNODELISTREQ_SIZE :: u32 where "PICA_PROTO_CLNODELISTREQ_SIZE \<equiv> 4"
abbreviation (input) PICA_PROTO_CONNID_SIZE :: u32 where "PICA_PROTO_CONNID_SIZE \<equiv> 58"
abbreviation (input) PICA_PROTO_C2CCONNREQ_SIZE :: u32 where "PICA_PROTO_C2CCONNREQ_SIZE \<equiv> 4"
abbreviation (input) PICA_PROTO_DIRECTC2C_FAILED_SIZE :: u32 where "PICA_PROTO_DIRECTC2C_FAILED_SIZE \<equiv> 4"
abbreviation (input) PICA_PROTO_DIRECTC2C_SWITCH_SIZE :: u32 where "PICA_PROTO_DIRECTC2C_SWITCH_SIZE \<equiv> 4"
abbreviation (input) PICA_PROTO_MSGOK_SIZE :: u32 where "PICA_PROTO_MSGOK_SIZE \<equiv> 4"
abbreviation (input) PICA_PROTO_ACCEPTEDFILE_SIZE :: u32 where "PICA_PROTO_ACCEPTEDFILE_SIZE \<equiv> 4"
abbreviation (input) PICA_PROTO_DENIEDFILE_SIZE :: u32 where "PICA_PROTO_DENIEDFILE_SIZE \<equiv> 4"
abbreviation (input) PICA_PROTO_FILECONTROL_SIZE :: u32 where "PICA_PROTO_FILECONTROL_SIZE \<equiv> 4"
abbreviation (input) PICA_PROTO_PINGREQ_SIZE :: u32 where "PICA_PROTO_PINGREQ_SIZE \<equiv> 4"
abbreviation (input) PICA_PROTO_PINGREP_SIZE :: u32 where "PICA_PROTO_PINGREP_SIZE \<equiv> 4"
abbreviation (input) PICA_PROTO_NODECONNREQ_SIZE :: u32 where "PICA_PROTO_NODECONNREQ_SIZE \<equiv> 4"
abbreviation (input) PICA_PROTO_NEWNODE_IPV4_SIZE :: u32 where "PICA_PROTO_NEWNODE_IPV4_SIZE \<equiv> 8"
abbreviation (input) PICA_PROTO_NODELISTREQ_SIZE :: u32 where "PICA_PROTO_NODELISTREQ_SIZE \<equiv> 4"
abbreviation (input) PICA_PROTO_SEARCH_SIZE :: u32 where "PICA_PROTO_SEARCH_SIZE \<equiv> 30"
abbreviation (input) PICA_PROTO_N2NFOUND_SIZE :: u32 where "PICA_PROTO_N2NFOUND_SIZE \<equiv> 30"
abbreviation (input) PICA_PROTO_N2NCONNREQOUTG_SIZE :: u32 where "PICA_PROTO_N2NCONNREQOUTG_SIZE \<equiv> 58"
abbreviation (input) PICA_PROTO_N2NALLOW_SIZE :: u32 where "PICA_PROTO_N2NALLOW_SIZE \<equiv> 58"
abbreviation (input) PICA_PROTO_N2NNOTFOUND_SIZE :: u32 where "PICA_PROTO_N2NNOTFOUND_SIZE \<equiv> 58"

section \<open>Packets\<close>

text \<open>A packet is its identifier octet twice, then the tail.\<close>

definition packet :: "u32 \<Rightarrow> byte list \<Rightarrow> byte list" where
  "packet msgid tail = ucast msgid # ucast msgid # tail"

definition var_packet :: "u32 \<Rightarrow> byte list \<Rightarrow> byte list" where
  "var_packet msgid payload = packet msgid (put16 (length payload) @ payload)"

lemma length_packet [simp]: "length (packet i t) = 2 + length t"
  by (simp add: packet_def)

lemma length_var_packet [simp]: "length (var_packet i p) = 4 + length p"
  by (simp add: var_packet_def)

end
