(* ===== verification/Wbuf.thy ===== *)
theory Wbuf
  imports Pica_Proto
begin

text \<open>
  Write buffers. Every connection queues its outgoing packets in a growing block:
  \<open>client_wbuf_push\<close> and \<open>nodelink_wbuf_push\<close> of \<open>PICA_node.c\<close>, \<open>c2n_writebuf_push\<close>
  and \<open>c2c_writebuf_push\<close> of \<open>PICA_client.c\<close> reserve room for a packet, write its header
  and return its address, at which the caller fills in the tail. The block is written out
  from its front by \<open>SSL_write\<close>, whose return value is an argument of the model.

  The locale \<open>packet_queue\<close> is the contract the message handlers rely on: the pending
  bytes are a queue to which a successful push and fill appends exactly one packet. It is
  interpreted for all four functions.
\<close>

section \<open>Model\<close>

abbreviation (input) DEFAULT_BUF_SIZE :: u32 where "DEFAULT_BUF_SIZE \<equiv> 4096"
abbreviation (input) PICA_CONNWRITEBUFSIZE :: u32 where "PICA_CONNWRITEBUFSIZE \<equiv> 4096"
abbreviation (input) PICA_CHANWRITEBUFSIZE :: u32 where "PICA_CHANWRITEBUFSIZE \<equiv> 4096"

text \<open>
  The fields \<open>w_buf\<close>, \<open>buflen_w\<close>, \<open>w_pos\<close>, \<open>btw_ssl\<close> of a connection (\<open>write_buf\<close>,
  \<open>write_buflen\<close>, \<open>write_pos\<close>, \<open>write_sslbytestowrite\<close> in the client library), and
  whether its write event is armed.
\<close>

record wbuf =
  w_buf :: "byte list option"
  buflen_w :: u32
  w_pos :: u32
  btw_ssl :: u32
  ev_write :: bool

definition empty_wbuf :: wbuf where
  "empty_wbuf = \<lparr>w_buf = None, buflen_w = 0, w_pos = 0, btw_ssl = 0, ev_write = False\<rparr>"

text \<open>\<open>calloc\<close> of the block when there is none, with the result of the allocation.\<close>

definition buf_calloc :: "u32 \<Rightarrow> env \<Rightarrow> wbuf \<Rightarrow> bool \<times> wbuf \<times> env" where
  "buf_calloc n e w =
     (case w_buf w of
        Some _ \<Rightarrow> (True, w, e)
      | None \<Rightarrow>
          let (ok, e') = env_alloc e in
          if ok then (True, w\<lparr>w_buf := Some (replicate (unat n) 0), buflen_w := n\<rparr>, e')
          else (False, w, e'))"

text \<open>\<open>realloc\<close> keeps the old bytes; the bytes it adds are indeterminate.\<close>

definition buf_realloc :: "u32 \<Rightarrow> env \<Rightarrow> wbuf \<Rightarrow> bool \<times> wbuf \<times> env" where
  "buf_realloc msz e w =
     (if buflen_w w - w_pos w < msz then
        let (ok, e') = env_alloc e; n = msz + w_pos w in
        if ok then
          (True, w\<lparr>w_buf := map_option (\<lambda>m. take (unat n) m @ junk e (unat n - length m)) (w_buf w),
                   buflen_w := n\<rparr>, e')
        else (False, w, e')
      else (True, w, e))"

definition buf_header :: "u32 \<Rightarrow> u32 \<Rightarrow> wbuf \<Rightarrow> nat \<times> wbuf" where
  "buf_header msgid msz w =
     (unat (w_pos w),
      w\<lparr>w_buf := map_option (blit (unat (w_pos w)) [ucast msgid, ucast msgid]) (w_buf w),
        w_pos := w_pos w + msz\<rparr>)"

text \<open>The result is the offset of the new packet in the block, \<open>None\<close> for \<open>NULL\<close>.\<close>

definition client_wbuf_push :: "env \<Rightarrow> wbuf \<Rightarrow> u32 \<Rightarrow> u32 \<Rightarrow> nat option \<times> wbuf \<times> env" where
  "client_wbuf_push e w msgid msz =
     (let (ok, w, e) =
        buf_calloc (DEFAULT_BUF_SIZE + (msz div DEFAULT_BUF_SIZE) * DEFAULT_BUF_SIZE) e w in
      if \<not> ok then (None, w, e)
      else let (ok, w, e) = buf_realloc msz e w in
        if \<not> ok then (None, w, e)
        else let (mp, w) = buf_header msgid msz (w\<lparr>ev_write := True\<rparr>) in (Some mp, w, e))"

definition nodelink_wbuf_push :: "env \<Rightarrow> wbuf \<Rightarrow> u32 \<Rightarrow> u32 \<Rightarrow> nat option \<times> wbuf \<times> env" where
  "nodelink_wbuf_push e w msgid msz =
     (let (ok, w, e) = buf_calloc DEFAULT_BUF_SIZE e w in
      if \<not> ok then (None, w, e)
      else let (ok, w, e) = buf_realloc msz e w in
        if \<not> ok then (None, w, e)
        else let (mp, w) = buf_header msgid msz (w\<lparr>ev_write := True\<rparr>) in (Some mp, w, e))"

definition c2n_writebuf_push :: "env \<Rightarrow> wbuf \<Rightarrow> u32 \<Rightarrow> u32 \<Rightarrow> nat option \<times> wbuf \<times> env" where
  "c2n_writebuf_push e w msgid msz =
     (let (ok, w, e) = buf_calloc PICA_CONNWRITEBUFSIZE e w in
      if \<not> ok then (None, w, e)
      else let (ok, w, e) = buf_realloc msz e w in
        if \<not> ok then (None, w, e)
        else let (mp, w) = buf_header msgid msz w in (Some mp, w, e))"

definition c2c_writebuf_push :: "env \<Rightarrow> wbuf \<Rightarrow> u32 \<Rightarrow> u32 \<Rightarrow> nat option \<times> wbuf \<times> env" where
  "c2c_writebuf_push e w msgid msz =
     (let (ok, w, e) = buf_calloc PICA_CHANWRITEBUFSIZE e w in
      if \<not> ok then (None, w, e)
      else let (ok, w, e) = buf_realloc msz e w in
        if \<not> ok then (None, w, e)
        else let (mp, w) = buf_header msgid msz w in (Some mp, w, e))"

text \<open>\<open>memcpy(mp->tail, bytes, n)\<close> for the packet at offset \<open>mp\<close>.\<close>

definition buf_tail :: "nat \<Rightarrow> byte list \<Rightarrow> wbuf \<Rightarrow> wbuf" where
  "buf_tail mp bytes w = w\<lparr>w_buf := map_option (blit (mp + 2) bytes) (w_buf w)\<rparr>"

text \<open>
  The write step the node's event handlers share: the number of bytes is fixed at the
  first attempt, so that a retry repeats it; \<open>ret\<close> is what \<open>SSL_write\<close> returned.
\<close>

definition buf_set_btw :: "wbuf \<Rightarrow> wbuf" where
  "buf_set_btw w = (if btw_ssl w = 0 then w\<lparr>btw_ssl := w_pos w\<rparr> else w)"

definition buf_written :: "int \<Rightarrow> wbuf \<Rightarrow> wbuf" where
  "buf_written ret w =
     (if ret = uint (btw_ssl w) then
        w\<lparr>w_buf := (if ret < uint (w_pos w)
                    then map_option (memmove_down (nat ret) (unat (w_pos w) - nat ret)) (w_buf w)
                    else w_buf w),
          w_pos := w_pos w - btw_ssl w, btw_ssl := 0\<rparr>
      else w)"

text \<open>
  The client library's \<open>PICA_write_ssl\<close>: the same, but a positive return value is
  taken as the number of bytes written. Its result is a \<open>PICA_*\<close> code.
\<close>

datatype ssl_error = SSL_ERROR_WANT_READ | SSL_ERROR_WANT_WRITE | SSL_ERROR_OTHER

abbreviation (input) PICA_OK :: int where "PICA_OK \<equiv> 0"
abbreviation (input) PICA_ERRSSL :: int where "PICA_ERRSSL \<equiv> -3"
abbreviation (input) PICA_ERRSERV :: int where "PICA_ERRSERV \<equiv> -5"

definition PICA_write_ssl :: "int \<Rightarrow> ssl_error \<Rightarrow> wbuf \<Rightarrow> int \<times> wbuf" where
  "PICA_write_ssl ret err w =
     (if w_pos w > 0 then
        let w = buf_set_btw w in
        if ret > 0 then
          (PICA_OK,
           w\<lparr>w_buf := (if ret < uint (w_pos w)
                       then map_option (memmove_down (nat ret) (unat (w_pos w) - nat ret)) (w_buf w)
                       else w_buf w),
             w_pos := w_pos w - of_int ret, btw_ssl := 0\<rparr>)
        else if ret < 0 then
          (if err = SSL_ERROR_WANT_WRITE \<or> err = SSL_ERROR_WANT_READ then (PICA_OK, w)
           else (PICA_ERRSSL, w))
        else (PICA_ERRSERV, w)
      else (PICA_OK, w))"

text \<open>A push and, when it succeeds, the fill of the tail, as every caller writes it.\<close>

definition push_fill ::
  "(env \<Rightarrow> wbuf \<Rightarrow> u32 \<Rightarrow> u32 \<Rightarrow> nat option \<times> wbuf \<times> env) \<Rightarrow> env \<Rightarrow> wbuf \<Rightarrow> u32 \<Rightarrow> u32 \<Rightarrow> byte list
     \<Rightarrow> bool \<times> wbuf \<times> env" where
  "push_fill push e w msgid msz tail =
     (case push e w msgid msz of
        (None, w, e) \<Rightarrow> (False, w, e)
      | (Some mp, w, e) \<Rightarrow> (True, buf_tail mp tail w, e))"

section \<open>The queue of pending bytes\<close>

definition pending :: "wbuf \<Rightarrow> byte list" where
  "pending w = (case w_buf w of None \<Rightarrow> [] | Some m \<Rightarrow> take (unat (w_pos w)) m)"

definition wbuf_ok :: "wbuf \<Rightarrow> bool" where
  "wbuf_ok w \<longleftrightarrow>
     (case w_buf w of
        None \<Rightarrow> buflen_w w = 0
      | Some m \<Rightarrow> length m = unat (buflen_w w)) \<and>
     w_pos w \<le> buflen_w w \<and> btw_ssl w \<le> w_pos w"

text \<open>The bytes the next \<open>SSL_write\<close> is given.\<close>

definition to_write :: "wbuf \<Rightarrow> byte list" where
  "to_write w = take (unat (btw_ssl w)) (pending w)"

section \<open>Lemmas\<close>

lemma wbuf_ok_empty [simp]: "wbuf_ok empty_wbuf"
  by (simp add: wbuf_ok_def empty_wbuf_def)

lemma pending_empty [simp]: "pending empty_wbuf = []"
  by (simp add: pending_def empty_wbuf_def)

lemma length_pending: "wbuf_ok w \<Longrightarrow> length (pending w) = unat (w_pos w)"
  by (auto simp: wbuf_ok_def pending_def word_le_nat_alt split: option.splits)

lemma wbuf_ok_ev [simp]: "wbuf_ok (w\<lparr>ev_write := b\<rparr>) = wbuf_ok w"
  by (simp add: wbuf_ok_def cong: option.case_cong)

lemma pending_ev [simp]: "pending (w\<lparr>ev_write := b\<rparr>) = pending w"
  by (simp add: pending_def cong: option.case_cong)

lemma pending_update [simp]:
  "pending (w\<lparr>w_buf := b, w_pos := p, btw_ssl := q\<rparr>) =
     (case b of None \<Rightarrow> [] | Some m \<Rightarrow> take (unat p) m)"
  by (simp add: pending_def split: option.splits)

lemma pending_update' [simp]:
  "pending (w\<lparr>w_pos := p, btw_ssl := q\<rparr>) =
     (case w_buf w of None \<Rightarrow> [] | Some m \<Rightarrow> take (unat p) m)"
  by (simp add: pending_def split: option.splits)

lemma buf_calloc_ok:
  assumes "wbuf_ok w" and "buf_calloc n e w = (ok, w', e')"
  shows "wbuf_ok w' \<and> pending w' = pending w \<and> btw_ssl w' = btw_ssl w \<and> w_pos w' = w_pos w
       \<and> (ok \<longrightarrow> w_buf w' \<noteq> None)"
  using assms
  by (auto simp: buf_calloc_def wbuf_ok_def pending_def env_alloc_def Let_def split: option.splits if_splits)

lemma buf_realloc_ok:
  assumes w: "wbuf_ok w" "w_buf w \<noteq> None" and fit: "unat (w_pos w) + unat msz < 2 ^ 32"
    and r: "buf_realloc msz e w = (ok, w', e')"
  shows "wbuf_ok w' \<and> pending w' = pending w \<and> btw_ssl w' = btw_ssl w \<and> w_pos w' = w_pos w
       \<and> (ok \<longrightarrow> w_buf w' \<noteq> None \<and> unat (w_pos w) + unat msz \<le> unat (buflen_w w'))"
proof (cases "buflen_w w - w_pos w < msz")
  case False
  then have "unat msz \<le> unat (buflen_w w) - unat (w_pos w)"
    using w(1) by (simp add: wbuf_ok_def unat_sub word_less_nat_alt)
  moreover have "unat (w_pos w) \<le> unat (buflen_w w)"
    using w(1) by (simp add: wbuf_ok_def word_le_nat_alt)
  ultimately show ?thesis using False r w by (auto simp: buf_realloc_def)
next
  case True
  define n where "n = msz + w_pos w"
  have n: "unat n = unat msz + unat (w_pos w)"
    unfolding n_def using fit by (intro unat_add_lem [THEN iffD1]) simp
  then have pos: "w_pos w \<le> n" by (simp add: word_le_nat_alt)
  obtain m where m: "w_buf w = Some m" using w by auto
  have lm: "length m = unat (buflen_w w)" "unat (w_pos w) \<le> length m" "btw_ssl w \<le> w_pos w"
    using w m by (auto simp: wbuf_ok_def word_le_nat_alt)
  let ?m = "take (unat n) m @ junk e (unat n - length m)"
  have len: "length ?m = unat n" by simp
  have pre: "take (unat (w_pos w)) ?m = take (unat (w_pos w)) m" using lm(2) n by simp
  from r True m have "\<not> ok \<and> w' = w \<or> ok \<and> w' = w\<lparr>w_buf := Some ?m, buflen_w := n\<rparr>"
    by (auto simp: buf_realloc_def env_alloc_def Let_def n_def split: if_splits)
  then show ?thesis
  proof
    assume "\<not> ok \<and> w' = w"
    with w show ?thesis by simp
  next
    assume a: "ok \<and> w' = w\<lparr>w_buf := Some ?m, buflen_w := n\<rparr>"
    have "pending w' = pending w" using a m pre by (simp add: pending_def)
    moreover have "wbuf_ok w'" using a len pos lm(3) by (simp add: wbuf_ok_def)
    ultimately show ?thesis using a n by simp
  qed
qed

lemma buf_header_tail:
  assumes w: "wbuf_ok w" "w_buf w \<noteq> None" and room: "unat (w_pos w) + unat msz \<le> unat (buflen_w w)"
    and fit: "unat (w_pos w) + unat msz < 2 ^ 32"
    and h: "buf_header msgid msz w = (mp, w')" and t: "length tail + 2 = unat msz"
  shows "wbuf_ok (buf_tail mp tail w') \<and> pending (buf_tail mp tail w') = pending w @ packet msgid tail
       \<and> btw_ssl (buf_tail mp tail w') = btw_ssl w"
proof -
  obtain m where m: "w_buf w = Some m" using w by auto
  have lm: "length m = unat (buflen_w w)" using w m by (auto simp: wbuf_ok_def)
  have p: "unat (w_pos w + msz) = unat (w_pos w) + unat msz"
    using fit by (simp add: unat_word_ariths)
  have bl: "blit (unat (w_pos w) + 2) tail (blit (unat (w_pos w)) [ucast msgid, ucast msgid] m)
      = blit (unat (w_pos w)) (packet msgid tail) m"
    using blit_blit_adjacent [of "unat (w_pos w)" "[ucast msgid, ucast msgid]" tail m] t room lm
    by (simp add: packet_def)
  have len: "unat (w_pos w) + unat msz = unat (w_pos w) + length (packet msgid tail)" using t by simp
  have "take (unat (w_pos w) + unat msz) (blit (unat (w_pos w)) (packet msgid tail) m)
      = take (unat (w_pos w)) m @ packet msgid tail"
    unfolding len by (rule take_blit_upto) (use room lm in simp)
  with h m bl lm p room w len show ?thesis
    by (auto simp: buf_header_def buf_tail_def wbuf_ok_def pending_def word_le_nat_alt)
qed

section \<open>The packet queue\<close>

locale packet_queue =
  fixes push :: "env \<Rightarrow> wbuf \<Rightarrow> u32 \<Rightarrow> u32 \<Rightarrow> nat option \<times> wbuf \<times> env"
  assumes push_ok: "wbuf_ok w \<Longrightarrow> unat (w_pos w) + unat msz < 2 ^ 32 \<Longrightarrow> length tail + 2 = unat msz
      \<Longrightarrow> push e w i msz = (Some mp, w', e')
      \<Longrightarrow> wbuf_ok (buf_tail mp tail w') \<and> pending (buf_tail mp tail w') = pending w @ packet i tail
        \<and> btw_ssl (buf_tail mp tail w') = btw_ssl w"
    and push_fail: "wbuf_ok w \<Longrightarrow> unat (w_pos w) + unat msz < 2 ^ 32
      \<Longrightarrow> push e w i msz = (None, w', e')
      \<Longrightarrow> wbuf_ok w' \<and> pending w' = pending w \<and> btw_ssl w' = btw_ssl w"
    and push_live: "alloc_ok e = (\<lambda>_. True) \<Longrightarrow> fst (push e w i msz) \<noteq> None"
begin

lemma push_fill_live: "alloc_ok e = (\<lambda>_. True) \<Longrightarrow> fst (push_fill push e w i msz tail)"
  using push_live [of e w i msz] by (auto simp: push_fill_def split: prod.splits option.splits)

lemma push_fill_spec:
  assumes "wbuf_ok w" "unat (w_pos w) + unat msz < 2 ^ 32" "length tail + 2 = unat msz"
    and "push_fill push e w i msz tail = (ok, w', e')"
  shows "wbuf_ok w' \<and> pending w' = pending w @ (if ok then packet i tail else [])
       \<and> btw_ssl w' = btw_ssl w"
  using assms push_ok push_fail
  by (auto simp: push_fill_def split: prod.splits option.splits; fastforce)

text \<open>
  A retry of \<open>SSL_write\<close> is given the bytes of the first attempt, whatever was queued
  in between.
\<close>

lemma push_fill_to_write:
  assumes "wbuf_ok w" "unat (w_pos w) + unat msz < 2 ^ 32" "length tail + 2 = unat msz"
    and "push_fill push e w i msz tail = (ok, w', e')"
  shows "to_write w' = to_write w"
proof -
  have "unat (btw_ssl w) \<le> length (pending w)"
    using assms(1) length_pending by (simp add: wbuf_ok_def word_le_nat_alt)
  with push_fill_spec [OF assms] show ?thesis by (simp add: to_write_def)
qed

end

text \<open>The four functions differ in the size of the first block and in arming the event.\<close>

definition gen_push :: "u32 \<Rightarrow> (wbuf \<Rightarrow> wbuf) \<Rightarrow> env \<Rightarrow> wbuf \<Rightarrow> u32 \<Rightarrow> u32 \<Rightarrow> nat option \<times> wbuf \<times> env" where
  "gen_push n arm e w msgid msz =
     (let (ok, w, e) = buf_calloc n e w in
      if \<not> ok then (None, w, e)
      else let (ok, w, e) = buf_realloc msz e w in
        if \<not> ok then (None, w, e)
        else let (mp, w) = buf_header msgid msz (arm w) in (Some mp, w, e))"

lemma gen_push_cases:
  assumes "wbuf_ok w" and "unat (w_pos w) + unat msz < 2 ^ 32"
    and "gen_push n arm e w i msz = (r, w', e')"
  obtains (fail) "r = None" "wbuf_ok w'" "pending w' = pending w" "btw_ssl w' = btw_ssl w"
  | (pushed) mp w2 where "r = Some mp" "buf_header i msz (arm w2) = (mp, w')" "wbuf_ok w2"
      "pending w2 = pending w" "btw_ssl w2 = btw_ssl w" "w_pos w2 = w_pos w" "w_buf w2 \<noteq> None"
      "unat (w_pos w) + unat msz \<le> unat (buflen_w w2)"
proof -
  obtain ok1 w1 e1 where 1: "buf_calloc n e w = (ok1, w1, e1)" by (metis prod_cases3)
  obtain ok2 w2 e2 where 2: "buf_realloc msz e1 w1 = (ok2, w2, e2)" by (metis prod_cases3)
  note c = buf_calloc_ok [OF assms(1) 1]
  show thesis
  proof (cases "ok1")
    case False
    with assms(3) 1 c fail show thesis by (simp add: gen_push_def)
  next
    case True
    with c assms(2) have r: "wbuf_ok w2 \<and> pending w2 = pending w1 \<and> btw_ssl w2 = btw_ssl w1
       \<and> w_pos w2 = w_pos w1
       \<and> (ok2 \<longrightarrow> w_buf w2 \<noteq> None \<and> unat (w_pos w1) + unat msz \<le> unat (buflen_w w2))"
      by (intro buf_realloc_ok [OF _ _ _ 2]) simp_all
    from assms(3) 1 2 True c r fail pushed show thesis
      by (auto simp: gen_push_def Let_def split: if_splits prod.splits)
  qed
qed

lemma gen_push_live: "alloc_ok e = (\<lambda>_. True) \<Longrightarrow> fst (gen_push n arm e w i msz) \<noteq> None"
  by (auto simp: gen_push_def buf_calloc_def buf_realloc_def env_alloc_def Let_def split: option.splits prod.splits)

lemma gen_push_queue:
  assumes arm: "\<And>w. arm w = w \<or> arm w = w\<lparr>ev_write := True\<rparr>"
  shows "packet_queue (\<lambda>e w i msz. gen_push (n msz) arm e w i msz)"
proof (unfold_locales, goal_cases)
  case (1 w msz tail e i mp w' e')
  show ?case
  proof (cases rule: gen_push_cases [OF 1(1,2,4)])
    case p: (2 mp' w2)
    then have h: "buf_header i msz (arm w2) = (mp, w')" by simp
    show ?thesis
      using arm [of w2] p 1(2) buf_header_tail [OF _ _ _ _ h 1(3)] by (elim disjE) simp_all
  qed simp
next
  case (2 w msz e i w' e')
  from gen_push_cases [OF this] show ?case by auto
next
  case (3 e w i msz)
  then show ?case by (rule gen_push_live)
qed

lemma push_functions_gen:
  "client_wbuf_push = (\<lambda>e w i msz. gen_push
     (DEFAULT_BUF_SIZE + (msz div DEFAULT_BUF_SIZE) * DEFAULT_BUF_SIZE) (\<lambda>w. w\<lparr>ev_write := True\<rparr>) e w i msz)"
  "nodelink_wbuf_push = (\<lambda>e w i msz. gen_push DEFAULT_BUF_SIZE (\<lambda>w. w\<lparr>ev_write := True\<rparr>) e w i msz)"
  "c2n_writebuf_push = (\<lambda>e w i msz. gen_push PICA_CONNWRITEBUFSIZE (\<lambda>w. w) e w i msz)"
  "c2c_writebuf_push = (\<lambda>e w i msz. gen_push PICA_CHANWRITEBUFSIZE (\<lambda>w. w) e w i msz)"
  by (simp_all add: fun_eq_iff gen_push_def client_wbuf_push_def nodelink_wbuf_push_def
      c2n_writebuf_push_def c2c_writebuf_push_def)

interpretation client_wbuf: packet_queue client_wbuf_push
  unfolding push_functions_gen by (rule gen_push_queue) simp

interpretation nodelink_wbuf: packet_queue nodelink_wbuf_push
  unfolding push_functions_gen by (rule gen_push_queue) simp

interpretation c2n_writebuf: packet_queue c2n_writebuf_push
  unfolding push_functions_gen by (rule gen_push_queue) simp

interpretation c2c_writebuf: packet_queue c2c_writebuf_push
  unfolding push_functions_gen by (rule gen_push_queue) simp

section \<open>Writing out\<close>

lemma buf_set_btw_ok [simp]: "wbuf_ok w \<Longrightarrow> wbuf_ok (buf_set_btw w)"
  by (auto simp: wbuf_ok_def buf_set_btw_def split: option.splits)

lemma buf_set_btw_simps [simp]:
  "pending (buf_set_btw w) = pending w" "w_pos (buf_set_btw w) = w_pos w"
  "w_buf (buf_set_btw w) = w_buf w" "buflen_w (buf_set_btw w) = buflen_w w"
  by (auto simp: buf_set_btw_def pending_def split: option.splits)

lemma pending_drop:
  assumes "wbuf_ok w" and "k \<le> unat (w_pos w)"
  shows "(case (if k < unat (w_pos w) then map_option (memmove_down k (unat (w_pos w) - k)) (w_buf w)
            else w_buf w) of None \<Rightarrow> [] | Some m \<Rightarrow> take (unat (w_pos w) - k) m) = drop k (pending w)"
  using assms
  by (auto simp: pending_def wbuf_ok_def word_le_nat_alt drop_take split: option.splits)

text \<open>A complete write removes the bytes that were given to \<open>SSL_write\<close>.\<close>

lemma buf_written_ok:
  assumes w: "wbuf_ok w"
  shows "wbuf_ok (buf_written ret w) \<and>
    pending (buf_written ret w) = drop (if ret = uint (btw_ssl w) then unat (btw_ssl w) else 0) (pending w)"
proof (cases "ret = uint (btw_ssl w)")
  case True
  have k: "unat (btw_ssl w) \<le> unat (w_pos w)" "nat ret = unat (btw_ssl w)"
    "ret < uint (w_pos w) \<longleftrightarrow> unat (btw_ssl w) < unat (w_pos w)"
    using w True by (auto simp: wbuf_ok_def word_le_nat_alt uint_less_unat)
  then have sub: "unat (w_pos w - btw_ssl w) = unat (w_pos w) - unat (btw_ssl w)"
    by (simp add: unat_sub word_le_nat_alt)
  have "wbuf_ok (buf_written ret w)"
    using w True k sub
    by (auto simp: buf_written_def wbuf_ok_def word_le_nat_alt split: option.splits)
  moreover have "pending (buf_written ret w) = drop (unat (btw_ssl w)) (pending w)"
    using pending_drop [OF w k(1)] True k sub
    by (cases "unat (btw_ssl w) < unat (w_pos w)")
      (simp_all add: buf_written_def del: case_map_option cong: option.case_cong)
  ultimately show ?thesis using True by simp
qed (use w in \<open>simp add: buf_written_def\<close>)

lemma PICA_write_ssl_ok:
  assumes w: "wbuf_ok w" and ret: "ret \<le> uint (btw_ssl (buf_set_btw w))"
    and r: "PICA_write_ssl ret err w = (code, w')"
  shows "wbuf_ok w' \<and> pending w' = drop (nat ret) (pending w)"
proof (cases "w_pos w > 0 \<and> ret > 0")
  case True
  have "unat (btw_ssl (buf_set_btw w)) \<le> unat (w_pos w)"
    using buf_set_btw_ok [OF w] by (simp add: wbuf_ok_def word_le_nat_alt)
  with nat_mono [OF ret] have k: "nat ret \<le> unat (w_pos w)" by simp
  have lt: "ret < uint (w_pos w) \<longleftrightarrow> nat ret < unat (w_pos w)"
    using True nat_less_eq_zless [of ret "uint (w_pos w)"] by simp
  have ro: "(of_int ret :: u32) = of_nat (nat ret)" using True by simp
  have un: "unat (of_nat (nat ret) :: u32) = nat ret"
    using k unat_u32_less [of "w_pos w"] by (simp add: unat_of_nat take_bit_nat_eq_self)
  have sub: "unat (w_pos w - of_int ret) = unat (w_pos w) - nat ret"
    unfolding ro using k un by (subst unat_sub) (simp_all add: word_le_nat_alt)
  have w': "w' = (buf_set_btw w)\<lparr>w_buf := (if ret < uint (w_pos w)
                       then map_option (memmove_down (nat ret) (unat (w_pos w) - nat ret)) (w_buf w)
                       else w_buf w),
             w_pos := w_pos w - of_int ret, btw_ssl := 0\<rparr>"
    using r True by (auto simp: PICA_write_ssl_def Let_def)
  have "pending w' = drop (nat ret) (pending w)"
    using pending_drop [OF w k] unfolding w' by (simp add: sub lt del: case_map_option cong: option.case_cong)
  moreover have "wbuf_ok w'"
    using w k unfolding w'
    by (auto simp: wbuf_ok_def sub lt word_le_nat_alt split: option.splits)
  ultimately show ?thesis by simp
next
  case False
  then show ?thesis
    using w r length_pending [OF w]
    by (auto simp: PICA_write_ssl_def Let_def word_greater_zero_iff split: if_splits)
qed

section \<open>Properties\<close>

text \<open>C28. Queueing a packet appends exactly its bytes to the pending bytes of the connection,
  whichever of the four functions does it; when memory runs out nothing is appended. With
  memory it succeeds. What the next \<open>SSL_write\<close> is given does not change, so that a write
  which is retried is retried with the bytes of the first attempt.\<close>

theorem wbuf_push_packet:
  assumes "push \<in> {client_wbuf_push, nodelink_wbuf_push, c2n_writebuf_push, c2c_writebuf_push}"
    and "wbuf_ok w" "unat (w_pos w) + unat msz < 2 ^ 32" "length tail + 2 = unat msz"
    and "push_fill push e w i msz tail = (ok, w', e')"
  shows "wbuf_ok w' \<and> pending w' = pending w @ (if ok then packet i tail else []) \<and>
     to_write w' = to_write w \<and> btw_ssl w' = btw_ssl w \<and> (alloc_ok e = (\<lambda>_. True) \<longrightarrow> ok)"
proof -
  have q: "packet_queue push"
    using assms(1) client_wbuf.packet_queue_axioms nodelink_wbuf.packet_queue_axioms
      c2n_writebuf.packet_queue_axioms c2c_writebuf.packet_queue_axioms by blast
  from packet_queue.push_fill_live [OF q, of e w i msz tail] assms(5) have "alloc_ok e = (\<lambda>_. True) \<longrightarrow> ok" by auto
  with packet_queue.push_fill_spec [OF q assms(2-5)] packet_queue.push_fill_to_write [OF q assms(2-5)]
  show ?thesis by simp
qed

theorem wbuf_push_packet_witness:
  "let (ok, w', e') = push_fill client_wbuf_push calm_env empty_wbuf PICA_PROTO_PINGREQ 4 [1, 2] in
     ok \<and> pending w' = [ucast PICA_PROTO_PINGREQ, ucast PICA_PROTO_PINGREQ, 1, 2]"
proof -
  obtain ok w' e' where p: "push_fill client_wbuf_push calm_env empty_wbuf PICA_PROTO_PINGREQ 4 [1, 2] = (ok, w', e')"
    by (metis prod_cases3)
  have "w_pos empty_wbuf = 0" "alloc_ok calm_env = (\<lambda>_. True)" by (simp_all add: empty_wbuf_def calm_env_def)
  with wbuf_push_packet [OF _ _ _ _ p] p show ?thesis by (simp add: packet_def)
qed

text \<open>C29. One round of the client library's writer removes from the front of the queue exactly
  the bytes that \<open>SSL_write\<close> took, and keeps the rest in order.\<close>

theorem write_ssl_fifo:
  assumes "wbuf_ok w" "ret \<le> uint (btw_ssl (buf_set_btw w))" "PICA_write_ssl ret err w = (code, w')"
  shows "wbuf_ok w' \<and> pending w' = drop (nat ret) (pending w)"
  by (rule PICA_write_ssl_ok [OF assms])

theorem write_ssl_fifo_witness:
  "pending (snd (PICA_write_ssl 2 SSL_ERROR_OTHER
     \<lparr>w_buf = Some [1, 2, 3, 4], buflen_w = 4, w_pos = 3, btw_ssl = 2, ev_write = True\<rparr>)) = [3]"
proof -
  let ?w = "\<lparr>w_buf = Some [1, 2, 3, 4], buflen_w = 4, w_pos = 3, btw_ssl = 2, ev_write = True\<rparr> :: wbuf"
  have "wbuf_ok ?w" "(2::int) \<le> uint (btw_ssl (buf_set_btw ?w))" by (simp_all add: wbuf_ok_def buf_set_btw_def)
  from write_ssl_fifo [OF this prod.collapse [symmetric]] show ?thesis by (simp add: pending_def)
qed

end
