(* ===== verification/NodeTypes.thy ===== *)
theory NodeTypes
  imports Wbuf
begin

text \<open>
  The data of \<open>pica-node\<close> (\<open>PICA_node.h\<close> and the globals of \<open>PICA_node.c\<close>). A pointer is
  a natural number, \<open>nat option\<close> where it may be \<open>NULL\<close>; an object lives in the heap of
  its type, and a freed object is not in the heap any more. The doubly linked lists of
  clients, c2c links and node links are lists of pointers, the search tree is kept as the
  pointers it is.

  Fields of type \<open>struct event *\<close> are \<open>bool option\<close>: \<open>None\<close> is \<open>NULL\<close>, \<open>Some b\<close> an
  allocated event that is pending if \<open>b\<close>.
\<close>

datatype client_state =
    PICA_CLSTATE_UNSET
  | PICA_CLSTATE_WAITANONTLSSHUTDOWN
  | PICA_CLSTATE_TLSNEGOTIATION
  | PICA_CLSTATE_CONNECTED
  | PICA_CLSTATE_MULTILOGIN_SECONDARY

record client =
  c_id :: pid
  c_up :: "nat option"
  c_left :: "nat option"
  c_right :: "nat option"
  c_next_multi :: "nat option"
  c_sck_comm :: int
  c_addr :: u32
  c_r_buf :: "byte list"
  c_r_pos :: u32
  c_w :: wbuf
  c_state :: client_state
  c_tmst :: int
  c_disconnect_ticking :: bool
  c_ev_read :: "bool option"

datatype cclink_state =
    PICA_CCLINK_UNSET
  | PICA_CCLINK_LOCAL_WAITREP
  | PICA_CCLINK_LOCAL_WAITCONNCLE
  | PICA_CCLINK_LOCAL_WAITCONNCLEANONTLSSHUTDOWN
  | PICA_CCLINK_LOCAL_WAITCONNCLR
  | PICA_CCLINK_LOCAL_WAITCONNCLRANONTLSSHUTDOWN
  | PICA_CCLINK_LOCAL_ACTIVE
  | PICA_CCLINK_N2NCLR_WAITSEARCH
  | PICA_CCLINK_N2NCLR_WAITREP
  | PICA_CCLINK_N2NCLR_WAITCONNCLR
  | PICA_CCLINK_N2NCLR_WAITCONNCLRANONTLSSHUTDOWN
  | PICA_CCLINK_N2NCLR_ACTIVE
  | PICA_CCLINK_N2NCLE_WAITREP
  | PICA_CCLINK_N2NCLE_WAITCONNCLE
  | PICA_CCLINK_N2NCLE_WAITCONNCLEANONTLSSHUTDOWN
  | PICA_CCLINK_N2NCLE_ACTIVE

text \<open>
  \<open>caller_id\<close> and \<open>callee_id\<close> of a link point either into a client object or to a copy
  of their own; reading through the first kind needs the client to be alive.
\<close>

datatype idptr = IdOf nat | IdCopy pid

text \<open>A heap block behind a pointer that is \<open>NULL\<close>, dangling or valid.\<close>

datatype bufptr = NullBuf | FreedBuf | Buf "byte list"

record cclink =
  l_state :: cclink_state
  l_tmst :: int
  l_p1 :: "nat option"
  l_p2 :: "nat option"
  l_caller_id :: "idptr option"
  l_callee_id :: "idptr option"
  l_caller_node :: "nat option"
  l_callee_node :: "nat option"
  l_sck_p1 :: int
  l_sck_p2 :: int
  l_jam_p1p2 :: bool
  l_jam_p2p1 :: bool
  l_buf_p1p2 :: bufptr
  l_buf_p2p1 :: bufptr
  l_buflen_p1p2 :: nat
  l_buflen_p2p1 :: nat
  l_bufpos_p1p2 :: nat
  l_bufpos_p2p1 :: nat
  l_ev_read_p1 :: "bool option"
  l_ev_read_p2 :: "bool option"
  l_ev_write_p1 :: "bool option"
  l_ev_write_p2 :: "bool option"

datatype newconn_type = NEWCONN_UNKNOWN | NEWCONN_C2N | NEWCONN_C2C | NEWCONN_N2N

datatype newconn_state =
    PICA_NEWCONN_UNSET
  | PICA_NEWCONN_WAITANONTLSACCEPT
  | PICA_NEWCONN_WAITREQUEST
  | PICA_NEWCONN_SENDINGOK
  | PICA_NEWCONN_SENDINGREJECT
  | PICA_NEWCONN_WAITANONTLSSHUTDOWN

record newconn =
  n_sck :: int
  n_anonssl :: bool
  n_addr :: u32
  n_port :: u16
  n_tmst :: int
  n_pos :: u32
  n_state :: newconn_state
  n_type :: newconn_type
  n_buf :: "byte list"
  n_iconn :: "nat option"
  n_ev :: "bool option"

text \<open>\<open>addr_type\<close> and \<open>node_addr\<close> of a node link, once it has announced an address.\<close>

record nodelink =
  k_addr :: u32
  k_port :: u16
  k_sck :: int
  k_addr_type :: u32
  k_node_addr :: "(u32 \<times> u16) option"
  k_r_buf :: "byte list"
  k_r_pos :: u32
  k_w :: wbuf
  k_tmst :: int
  k_disconnect_ticking :: bool
  k_ev_read :: "bool option"

text \<open>
  The node: its environment, the arrays, lists and trees of its globals, the configuration
  values the handlers use, and two traces of what it did to the outside: the sockets it
  closed and the node addresses it stored in its database.
\<close>

record node =
  nenv :: env
  next_ptr :: nat
  newconns :: "newconn list"
  newconns_pos :: nat
  clients :: "nat \<rightharpoonup> client"
  client_list :: "nat list"
  client_tree_root :: "nat option"
  cclinks :: "nat \<rightharpoonup> cclink"
  cclink_list :: "nat list"
  cclink_list_count :: u32
  nodelinks :: "nat \<rightharpoonup> nodelink"
  nodelink_list :: "nat list"
  nodelink_list_count :: u32
  closed_socks :: "int list"
  saved_addrs :: "(u32 \<times> u16) list"
  announced_addr :: u32
  listen_port :: u16
  disable_reserved_addrs :: bool
  my_addr :: u32

text \<open>Access through a pointer; \<open>None\<close> for a dangling one.\<close>

definition upd_client :: "nat \<Rightarrow> (client \<Rightarrow> client) \<Rightarrow> node \<Rightarrow> node option" where
  "upd_client p f s =
     (case clients s p of None \<Rightarrow> None | Some c \<Rightarrow> Some (s\<lparr>clients := (clients s)(p \<mapsto> f c)\<rparr>))"

definition upd_cclink :: "nat \<Rightarrow> (cclink \<Rightarrow> cclink) \<Rightarrow> node \<Rightarrow> node option" where
  "upd_cclink p f s =
     (case cclinks s p of None \<Rightarrow> None | Some l \<Rightarrow> Some (s\<lparr>cclinks := (cclinks s)(p \<mapsto> f l)\<rparr>))"

definition upd_nodelink :: "nat \<Rightarrow> (nodelink \<Rightarrow> nodelink) \<Rightarrow> node \<Rightarrow> node option" where
  "upd_nodelink p f s =
     (case nodelinks s p of None \<Rightarrow> None | Some n \<Rightarrow> Some (s\<lparr>nodelinks := (nodelinks s)(p \<mapsto> f n)\<rparr>))"

text \<open>A pointer that may be \<open>NULL\<close> is dereferenced.\<close>

definition deref :: "('p \<rightharpoonup> 'a) \<Rightarrow> 'p option \<Rightarrow> 'a option" where
  "deref h p = Option.bind p h"

lemma deref_simps [simp]: "deref h None = None" "deref h (Some p) = h p"
  by (simp_all add: deref_def)

end
