(* ===== verification/ClientTree.thy ===== *)
theory ClientTree
  imports NodeTypes "HOL-Library.Tree"
begin

text \<open>
  The search tree of connected clients (\<open>client_tree_add\<close>, \<open>client_tree_search\<close>,
  \<open>client_tree_remove\<close>, \<open>client_tree_replace_multi\<close>, \<open>client_attach_multi_secondary\<close>
  of \<open>PICA_node.c\<close>), on the pointers the code uses: every client object holds its
  parent, its children and the next connection of the same user. A search or an insertion
  follows pointers, so its model is a partial function: \<open>None\<close> is a dangling pointer or a
  cycle.

  \<open>shape\<close> relates a heap to an abstract binary tree through the child pointers alone,
  \<open>ups\<close> says that the parent pointers agree with it. Searching needs only the shape and
  the order; insertion and removal need the parents too, and the last section shows
  what removal does to them.
\<close>

section \<open>Model\<close>

type_synonym cheap = "nat \<rightharpoonup> client"

definition hupd :: "nat \<Rightarrow> (client \<Rightarrow> client) \<Rightarrow> cheap \<Rightarrow> cheap option" where
  "hupd p f h = (case h p of None \<Rightarrow> None | Some c \<Rightarrow> Some (h(p \<mapsto> f c)))"

partial_function (option) tree_search_loop :: "cheap \<Rightarrow> pid \<Rightarrow> nat option \<Rightarrow> nat option option" where
  "tree_search_loop h uid i_ptr =
     (case i_ptr of
        None \<Rightarrow> Some None
      | Some i \<Rightarrow>
          (case h i of
             None \<Rightarrow> None
           | Some c \<Rightarrow>
               (let cmp = memcmp uid (c_id c) in
                if cmp = 0 then Some (Some i)
                else if cmp < 0 then tree_search_loop h uid (c_left c)
                else tree_search_loop h uid (c_right c))))"

definition client_tree_search :: "cheap \<Rightarrow> nat option \<Rightarrow> pid \<Rightarrow> nat option option" where
  "client_tree_search h root uid = tree_search_loop h uid root"

partial_function (option) tree_add_loop :: "cheap \<Rightarrow> nat \<Rightarrow> pid \<Rightarrow> nat \<Rightarrow> (int \<times> cheap) option" where
  "tree_add_loop h ci uid i =
     (case h i of
        None \<Rightarrow> None
      | Some c \<Rightarrow>
          (let cmp = memcmp uid (c_id c) in
           if cmp = 0 then Some (0, h)
           else if cmp < 0 then
             (case c_left c of
                Some l \<Rightarrow> tree_add_loop h ci uid l
              | None \<Rightarrow>
                  do { h1 \<leftarrow> hupd i (\<lambda>c. c\<lparr>c_left := Some ci\<rparr>) h;
                       h2 \<leftarrow> hupd ci (\<lambda>c. c\<lparr>c_up := Some i\<rparr>) h1;
                       Some (1, h2) })
           else
             (case c_right c of
                Some r \<Rightarrow> tree_add_loop h ci uid r
              | None \<Rightarrow>
                  do { h1 \<leftarrow> hupd i (\<lambda>c. c\<lparr>c_right := Some ci\<rparr>) h;
                       h2 \<leftarrow> hupd ci (\<lambda>c. c\<lparr>c_up := Some i\<rparr>) h1;
                       Some (1, h2) })))"

definition client_tree_add :: "cheap \<Rightarrow> nat option \<Rightarrow> nat \<Rightarrow> (int \<times> cheap \<times> nat option) option" where
  "client_tree_add h root ci =
     (case root of
        None \<Rightarrow> Some (1, h, Some ci)
      | Some i \<Rightarrow>
          do { c \<leftarrow> h ci;
               (ret, h') \<leftarrow> tree_add_loop h ci (c_id c) i;
               Some (ret, h', root) })"

text \<open>\<open>p_link\<close>: the root variable, or the child field of a parent.\<close>

datatype plink = RootLink | LeftLink nat | RightLink nat

definition find_link :: "cheap \<Rightarrow> nat \<Rightarrow> plink option" where
  "find_link h ci =
     do { c \<leftarrow> h ci;
          case c_up c of
            None \<Rightarrow> Some RootLink
          | Some u \<Rightarrow>
              do { p \<leftarrow> h u;
                   Some (if c_left p = Some ci then LeftLink u else RightLink u) } }"

fun set_link :: "plink \<Rightarrow> nat option \<Rightarrow> cheap \<Rightarrow> nat option \<Rightarrow> (cheap \<times> nat option) option" where
  "set_link RootLink q h root = Some (h, q)"
| "set_link (LeftLink u) q h root = do { h' \<leftarrow> hupd u (\<lambda>c. c\<lparr>c_left := q\<rparr>) h; Some (h', root) }"
| "set_link (RightLink u) q h root = do { h' \<leftarrow> hupd u (\<lambda>c. c\<lparr>c_right := q\<rparr>) h; Some (h', root) }"

partial_function (option) find_leftmost :: "cheap \<Rightarrow> nat \<Rightarrow> nat option" where
  "find_leftmost h lm =
     (case h lm of
        None \<Rightarrow> None
      | Some c \<Rightarrow> (case c_left c of None \<Rightarrow> Some lm | Some l \<Rightarrow> find_leftmost h l))"

text \<open>The node with two children: the leftmost node of the right subtree takes its place.\<close>

definition remove_two :: "cheap \<Rightarrow> nat \<Rightarrow> client \<Rightarrow> nat \<Rightarrow> (nat \<times> cheap) option" where
  "remove_two h ci c r =
     do { lm \<leftarrow> find_leftmost h r;
          h1 \<leftarrow> (if lm \<noteq> r then
                   do { lc \<leftarrow> h lm;
                        u \<leftarrow> c_up lc;
                        h1 \<leftarrow> hupd u (\<lambda>x. x\<lparr>c_left := c_right lc\<rparr>) h;
                        hupd lm (\<lambda>x. x\<lparr>c_right := c_right c\<rparr>) h1 }
                 else Some h);
          h2 \<leftarrow> hupd lm (\<lambda>x. x\<lparr>c_left := c_left c, c_up := c_up c\<rparr>) h1;
          Some (lm, h2) }"

definition client_tree_remove :: "cheap \<Rightarrow> nat option \<Rightarrow> nat \<Rightarrow> (cheap \<times> nat option) option" where
  "client_tree_remove h root ci =
     do { c \<leftarrow> h ci;
          p_link \<leftarrow> find_link h ci;
          case (c_left c, c_right c) of
            (None, None) \<Rightarrow> set_link p_link None h root
          | (Some l, None) \<Rightarrow>
              do { h1 \<leftarrow> hupd l (\<lambda>x. x\<lparr>c_up := c_up c\<rparr>) h;
                   set_link p_link (Some l) h1 root }
          | (None, Some r) \<Rightarrow>
              do { h1 \<leftarrow> hupd r (\<lambda>x. x\<lparr>c_up := c_up c\<rparr>) h;
                   set_link p_link (Some r) h1 root }
          | (Some l, Some r) \<Rightarrow>
              do { (lm, h1) \<leftarrow> remove_two h ci c r;
                   set_link p_link (Some lm) h1 root } }"

definition client_attach_multi_secondary :: "cheap \<Rightarrow> nat \<Rightarrow> nat \<Rightarrow> cheap option" where
  "client_attach_multi_secondary h primary secondary =
     do { p \<leftarrow> h primary;
          h1 \<leftarrow> hupd secondary (\<lambda>c. c\<lparr>c_next_multi := c_next_multi p\<rparr>) h;
          hupd primary (\<lambda>c. c\<lparr>c_next_multi := Some secondary\<rparr>) h1 }"

definition client_tree_replace_multi :: "cheap \<Rightarrow> nat option \<Rightarrow> nat \<Rightarrow> (cheap \<times> nat option) option" where
  "client_tree_replace_multi h root primary =
     do { c \<leftarrow> h primary;
          p_link \<leftarrow> find_link h primary;
          (h1, root1) \<leftarrow> set_link p_link (c_next_multi c) h root;
          secondary \<leftarrow> c_next_multi c;
          h2 \<leftarrow> hupd secondary (\<lambda>x. x\<lparr>c_state := c_state c, c_up := c_up c,
                   c_left := c_left c, c_right := c_right c\<rparr>) h1;
          h3 \<leftarrow> (case c_left c of None \<Rightarrow> Some h2 | Some l \<Rightarrow> hupd l (\<lambda>x. x\<lparr>c_up := Some secondary\<rparr>) h2);
          h4 \<leftarrow> (case c_right c of None \<Rightarrow> Some h3 | Some r \<Rightarrow> hupd r (\<lambda>x. x\<lparr>c_up := Some secondary\<rparr>) h3);
          Some (h4, root1) }"

section \<open>Abstraction\<close>

fun shape :: "cheap \<Rightarrow> nat option \<Rightarrow> nat tree \<Rightarrow> bool" where
  "shape h p Leaf \<longleftrightarrow> p = None"
| "shape h p (Node l a r) \<longleftrightarrow>
     p = Some a \<and> (\<exists>c. h a = Some c \<and> shape h (c_left c) l \<and> shape h (c_right c) r)"

fun ups :: "cheap \<Rightarrow> nat option \<Rightarrow> nat tree \<Rightarrow> bool" where
  "ups h u Leaf \<longleftrightarrow> True"
| "ups h u (Node l a r) \<longleftrightarrow>
     (\<exists>c. h a = Some c \<and> c_up c = u) \<and> ups h (Some a) l \<and> ups h (Some a) r"

definition id_at :: "cheap \<Rightarrow> nat \<Rightarrow> pid" where
  "id_at h p = (case h p of None \<Rightarrow> [] | Some c \<Rightarrow> c_id c)"

definition ordered :: "cheap \<Rightarrow> nat tree \<Rightarrow> bool" where
  "ordered h t \<longleftrightarrow> sorted_wrt (<) (map (id_at h) (inorder t))"

definition tree_wf :: "cheap \<Rightarrow> nat option \<Rightarrow> nat tree \<Rightarrow> bool" where
  "tree_wf h root t \<longleftrightarrow> shape h root t \<and> ups h None t \<and> ordered h t"

text \<open>What the operations do to the abstract tree.\<close>

fun tins :: "(nat \<Rightarrow> pid) \<Rightarrow> nat \<Rightarrow> nat tree \<Rightarrow> nat tree" where
  "tins f x Leaf = Node Leaf x Leaf"
| "tins f x (Node l a r) = (if f x < f a then Node (tins f x l) a r else Node l a (tins f x r))"

fun tmin :: "nat tree \<Rightarrow> nat" where
  "tmin (Node Leaf a r) = a"
| "tmin (Node l a r) = tmin l"
| "tmin Leaf = 0"

fun tdelmin :: "nat tree \<Rightarrow> nat tree" where
  "tdelmin (Node Leaf a r) = r"
| "tdelmin (Node l a r) = Node (tdelmin l) a r"
| "tdelmin Leaf = Leaf"

fun tjoin :: "nat tree \<Rightarrow> nat tree \<Rightarrow> nat tree" where
  "tjoin Leaf r = r"
| "tjoin l Leaf = l"
| "tjoin l r = Node l (tmin r) (tdelmin r)"

fun tdel :: "nat \<Rightarrow> nat tree \<Rightarrow> nat tree" where
  "tdel x Leaf = Leaf"
| "tdel x (Node l a r) = (if a = x then tjoin l r else Node (tdel x l) a (tdel x r))"

section \<open>Lemmas on the abstract tree\<close>

lemma ordered_Node:
  "ordered h (Node l a r) \<longleftrightarrow> ordered h l \<and> ordered h r \<and>
     (\<forall>x\<in>set_tree l. id_at h x < id_at h a) \<and> (\<forall>x\<in>set_tree r. id_at h a < id_at h x)"
  by (fastforce simp: ordered_def sorted_wrt_append)

lemma ordered_Leaf [simp]: "ordered h Leaf"
  by (simp add: ordered_def)

lemma ordered_distinct: "ordered h t \<Longrightarrow> distinct (inorder t)"
  unfolding ordered_def using strict_sorted_iff distinct_map by blast

lemma ordered_inj:
  assumes "ordered h t" "x \<in> set_tree t" "y \<in> set_tree t" "id_at h x = id_at h y"
  shows "x = y"
proof -
  have "distinct (map (id_at h) (inorder t))"
    using assms(1) strict_sorted_iff by (auto simp: ordered_def)
  with assms show ?thesis by (auto simp: distinct_map inj_on_def)
qed

lemma set_tins [simp]: "set_tree (tins f x t) = insert x (set_tree t)"
  by (induction t) auto

lemma inorder_tdelmin: "t \<noteq> Leaf \<Longrightarrow> tmin t # inorder (tdelmin t) = inorder t"
  by (induction t rule: tdelmin.induct) auto

lemma tjoin_Leaf [simp]: "tjoin l Leaf = l"
  by (cases l) simp_all

lemma inorder_tjoin [simp]: "inorder (tjoin l r) = inorder l @ inorder r"
  using inorder_tdelmin [of r] by (cases "(l, r)" rule: tjoin.cases) auto

lemma inorder_tdel: "distinct (inorder t) \<Longrightarrow> inorder (tdel x t) = remove1 x (inorder t)"
proof (induction t)
  case (Node l a r)
  then show ?case
    by (cases "x \<in> set_tree r") (auto simp: remove1_append remove1_idem)
qed simp

lemma ordered_tins:
  "ordered h t \<Longrightarrow> id_at h x \<notin> id_at h ` set_tree t \<Longrightarrow> ordered h (tins (id_at h) x t)"
  by (induction t) (auto simp: ordered_Node not_less order.order_iff_strict)

lemma sorted_wrt_remove1: "sorted_wrt P xs \<Longrightarrow> sorted_wrt P (remove1 x xs)"
  by (induction xs) (auto dest: notin_set_remove1 [THEN contrapos_pn] set_remove1_subset [THEN subsetD])

lemma ordered_tdel:
  assumes "ordered h t" shows "ordered h (tdel x t)"
  using assms sorted_wrt_remove1 [of "\<lambda>x y. id_at h x < id_at h y" "inorder t" x]
  by (simp add: ordered_def sorted_wrt_map inorder_tdel [OF ordered_distinct [OF assms]])

section \<open>Heaps\<close>

lemma shape_frame:
  assumes "\<And>p. p \<in> set_tree t \<Longrightarrow> \<exists>c c'. h p = Some c \<and> h' p = Some c' \<and> c_left c' = c_left c \<and> c_right c' = c_right c"
  shows "shape h' q t = shape h q t"
  using assms by (induction t arbitrary: q) (fastforce+)

lemma ups_frame:
  assumes "\<And>p. p \<in> set_tree t \<Longrightarrow> \<exists>c c'. h p = Some c \<and> h' p = Some c' \<and> c_up c' = c_up c"
  shows "ups h' u t = ups h u t"
  using assms by (induction t arbitrary: u) (fastforce+)

lemma shape_dom: "shape h q t \<Longrightarrow> p \<in> set_tree t \<Longrightarrow> \<exists>c. h p = Some c"
  by (induction t arbitrary: q) auto

lemma ordered_frame: "(\<And>p. p \<in> set_tree t \<Longrightarrow> id_at h' p = id_at h p) \<Longrightarrow> ordered h' t = ordered h t"
  unfolding ordered_def by (subst map_cong [OF refl, of "inorder t" "id_at h'" "id_at h"]) auto

lemma shape_None [simp]: "shape h None t \<longleftrightarrow> t = Leaf"
  by (cases t) auto

lemma shape_SomeE:
  assumes "shape h (Some a) t"
  obtains l r c where "t = Node l a r" "h a = Some c" "shape h (c_left c) l" "shape h (c_right c) r"
  using assms by (cases t) auto

lemma shape_update_outside [simp]: "p \<notin> set_tree t \<Longrightarrow> shape (h(p := x)) q t = shape h q t"
proof (induction t arbitrary: q)
  case (Node l a r)
  then show ?case by (cases "h a") auto
qed simp

lemma ups_update_outside [simp]: "p \<notin> set_tree t \<Longrightarrow> ups (h(p := x)) u t = ups h u t"
proof (induction t arbitrary: u)
  case (Node l a r)
  then show ?case by (cases "h a") auto
qed simp

lemma hupd_Some [simp]: "h p = Some c \<Longrightarrow> hupd p f h = Some (h(p \<mapsto> f c))"
  by (simp add: hupd_def)

lemma hupd_None [simp]: "h p = None \<Longrightarrow> hupd p f h = None"
  by (simp add: hupd_def)

text \<open>Searching: the result is the node that has the identifier, and there is a result.\<close>

lemma tree_search_loop_correct:
  assumes "shape h p t" and "ordered h t"
  shows "\<exists>r. tree_search_loop h uid p = Some r \<and> (\<forall>q. r = Some q \<longleftrightarrow> q \<in> set_tree t \<and> id_at h q = uid)"
  using assms
proof (induction t arbitrary: p)
  case Leaf
  then show ?case by (simp add: tree_search_loop.simps)
next
  case (Node l a r)
  then obtain c where c: "h a = Some c" "shape h (c_left c) l" "shape h (c_right c) r" "p = Some a"
    by auto
  from Node.prems have o: "ordered h l" "ordered h r"
    "\<And>x. x \<in> set_tree l \<Longrightarrow> id_at h x < id_at h a" "\<And>x. x \<in> set_tree r \<Longrightarrow> id_at h a < id_at h x"
    by (auto simp: ordered_Node)
  have ida: "id_at h a = c_id c" using c by (simp add: id_at_def)
  have step: "tree_search_loop h uid p = (let cmp = memcmp uid (c_id c) in
      if cmp = 0 then Some (Some a)
      else if cmp < 0 then tree_search_loop h uid (c_left c) else tree_search_loop h uid (c_right c))"
    using c by (subst tree_search_loop.simps) simp
  consider "uid = c_id c" | "uid \<noteq> c_id c" "uid < c_id c" | "uid \<noteq> c_id c" "\<not> uid < c_id c" by blast
  then show ?case
  proof cases
    case 1
    then have "tree_search_loop h uid p = Some (Some a)" using step by simp
    moreover have "q = a" if "q \<in> set_tree (Node l a r)" "id_at h q = uid" for q
      using ordered_inj [OF Node.prems(2), of q a] that 1 ida by simp
    ultimately show ?thesis using 1 ida by auto
  next
    case 2
    from Node.IH(1) [OF c(2) o(1)] obtain s where
      "tree_search_loop h uid (c_left c) = Some s" "\<forall>q. s = Some q \<longleftrightarrow> q \<in> set_tree l \<and> id_at h q = uid"
      by blast
    moreover have "q \<in> set_tree (Node l a r) \<and> id_at h q = uid \<longleftrightarrow> q \<in> set_tree l \<and> id_at h q = uid" for q
      using 2 ida o(4) [of q] by auto
    moreover have "tree_search_loop h uid p = tree_search_loop h uid (c_left c)" using step 2 by simp
    ultimately show ?thesis by simp
  next
    case 3
    from Node.IH(2) [OF c(3) o(2)] obtain s where
      "tree_search_loop h uid (c_right c) = Some s" "\<forall>q. s = Some q \<longleftrightarrow> q \<in> set_tree r \<and> id_at h q = uid"
      by blast
    moreover have "q \<in> set_tree (Node l a r) \<and> id_at h q = uid \<longleftrightarrow> q \<in> set_tree r \<and> id_at h q = uid" for q
      using 3 ida o(3) [of q] by auto
    moreover have "tree_search_loop h uid p = tree_search_loop h uid (c_right c)" using step 3 by simp
    ultimately show ?thesis by simp
  qed
qed

text \<open>Everything of a client but its place in the tree.\<close>

definition untree :: "client \<Rightarrow> client" where
  "untree c = c\<lparr>c_up := None, c_left := None, c_right := None\<rparr>"

definition same_data :: "cheap \<Rightarrow> cheap \<Rightarrow> bool" where
  "same_data h h' \<longleftrightarrow> (\<forall>p. map_option untree (h' p) = map_option untree (h p))"

lemma same_data_refl [simp]: "same_data h h"
  by (simp add: same_data_def)

lemma same_data_update: "h p = Some c \<Longrightarrow> untree c' = untree c \<Longrightarrow> same_data h (h(p \<mapsto> c'))"
  by (simp add: same_data_def)

lemma same_data_trans: "same_data h h' \<Longrightarrow> same_data h' h'' \<Longrightarrow> same_data h h''"
  by (simp add: same_data_def)

lemma same_data_hupd:
  assumes "hupd p f h = Some h'" and "\<And>c. untree (f c) = untree c"
  shows "same_data h h'"
  using assms by (auto simp: hupd_def same_data_def split: option.splits)

lemma untree_simps [simp]:
  "untree (c\<lparr>c_up := u\<rparr>) = untree c" "untree (c\<lparr>c_left := u\<rparr>) = untree c"
  "untree (c\<lparr>c_right := u\<rparr>) = untree c"
  by (simp_all add: untree_def)

lemma untree_id: "untree c = untree c' \<Longrightarrow> c_id c = c_id c'"
  by (cases c; cases c'; simp add: untree_def)

lemma same_data_id:
  assumes "same_data h h'" shows "id_at h' p = id_at h p"
proof -
  have "map_option untree (h' p) = map_option untree (h p)" using assms by (simp add: same_data_def)
  then show ?thesis by (cases "h p"; cases "h' p") (auto simp: id_at_def dest: untree_id)
qed

lemma same_data_ordered: "same_data h h' \<Longrightarrow> ordered h' t = ordered h t"
  by (rule ordered_frame) (rule same_data_id)

lemma same_data_dom:
  assumes "same_data h h'" shows "dom h' = dom h"
proof -
  have "h' p = None \<longleftrightarrow> h p = None" for p
    using assms map_option_is_None [of untree "h p"] map_option_is_None [of untree "h' p"]
    by (simp add: same_data_def)
  then show ?thesis by (auto simp: dom_def)
qed

section \<open>Insertion\<close>

lemma tree_add_loop_dup:
  assumes "shape h (Some i) t" "ordered h t" "q \<in> set_tree t" "id_at h q = uid"
  shows "tree_add_loop h ci uid i = Some (0, h)"
  using assms
proof (induction t arbitrary: i)
  case (Node l a r)
  then obtain c where c: "h a = Some c" "shape h (c_left c) l" "shape h (c_right c) r" "i = a"
    by auto
  have ida: "id_at h a = c_id c" using c by (simp add: id_at_def)
  from Node.prems(2) have o: "ordered h l" "ordered h r"
    "\<And>x. x \<in> set_tree l \<Longrightarrow> id_at h x < id_at h a" "\<And>x. x \<in> set_tree r \<Longrightarrow> id_at h a < id_at h x"
    by (auto simp: ordered_Node)
  from Node.prems(3) consider "q = a" | "q \<in> set_tree l" | "q \<in> set_tree r" by auto
  then show ?case
  proof cases
    case 1
    then show ?thesis using c ida Node.prems(4) by (subst tree_add_loop.simps) simp
  next
    case 2
    with c obtain b where b: "c_left c = Some b" by (cases "c_left c") auto
    have "uid < c_id c" using 2 o(3) ida Node.prems(4) by auto
    then show ?thesis
      using Node.IH(1) [of b] c b o 2 Node.prems(4) by (subst tree_add_loop.simps) simp
  next
    case 3
    with c obtain b where b: "c_right c = Some b" by (cases "c_right c") auto
    have "c_id c < uid" using 3 o(4) ida Node.prems(4) by auto
    then show ?thesis
      using Node.IH(2) [of b] c b o 3 Node.prems(4) by (subst tree_add_loop.simps) auto
  qed
qed simp

lemma tree_add_loop_new:
  assumes "shape h (Some i) t" "ups h u t" "distinct (inorder t)" "ci \<notin> set_tree t"
    and ci: "h ci = Some cc" "c_left cc = None" "c_right cc = None" "c_id cc = uid"
    and "\<And>q. q \<in> set_tree t \<Longrightarrow> id_at h q \<noteq> uid"
  shows "\<exists>h'. tree_add_loop h ci uid i = Some (1, h') \<and>
     shape h' (Some i) (tins (id_at h) ci t) \<and> ups h' u (tins (id_at h) ci t) \<and>
     (\<forall>p. p \<notin> insert ci (set_tree t) \<longrightarrow> h' p = h p) \<and> same_data h h' \<and>
     (\<exists>c'. h' ci = Some c')"
  using assms(1-4,9)
proof (induction t arbitrary: i u)
  case (Node l a r)
  then obtain c where c: "h a = Some c" "c_up c = u" "shape h (c_left c) l" "shape h (c_right c) r" "i = a"
    by auto
  have ida: "id_at h a = c_id c" and idc: "id_at h ci = uid" using c ci by (auto simp: id_at_def)
  have ne: "uid \<noteq> c_id c" "ci \<noteq> a" using Node.prems(4) Node.prems(5) [of a] ida by auto
  have out: "ci \<notin> set_tree l" "ci \<notin> set_tree r" "a \<notin> set_tree l" "a \<notin> set_tree r"
    "set_tree l \<inter> set_tree r = {}" "ups h (Some a) l" "ups h (Some a) r"
    using Node.prems by auto
  show ?case
  proof (cases "uid < c_id c")
    case True
    show ?thesis
    proof (cases "c_left c")
      case None
      let ?h = "h(a \<mapsto> c\<lparr>c_left := Some ci\<rparr>, ci \<mapsto> cc\<lparr>c_up := Some a\<rparr>)"
      have "tree_add_loop h ci uid i = Some (1, ?h)"
        using c ci None True ne by (subst tree_add_loop.simps) simp
      moreover have "l = Leaf" using c None by simp
      moreover have "same_data h ?h" using c ci ne by (simp add: same_data_def)
      moreover have "shape ?h q r = shape h q r" "ups ?h w r = ups h w r" for q w
        using out by simp_all
      moreover have "?h a = Some (c\<lparr>c_left := Some ci\<rparr>)" "?h ci = Some (cc\<lparr>c_up := Some a\<rparr>)"
        "\<And>p. p \<noteq> a \<Longrightarrow> p \<noteq> ci \<Longrightarrow> ?h p = h p"
        using ne by simp_all
      ultimately show ?thesis
        using c ci ne out True ida idc by (intro exI [of _ ?h]) (simp del: fun_upd_apply)
    next
      case (Some b)
      from Node.IH(1) [of b "Some a"] Node.prems c Some obtain h' where
        h': "tree_add_loop h ci uid b = Some (1, h')" "shape h' (Some b) (tins (id_at h) ci l)"
          "ups h' (Some a) (tins (id_at h) ci l)"
          "\<And>p. p \<notin> insert ci (set_tree l) \<Longrightarrow> h' p = h p" "same_data h h'" "\<exists>c'. h' ci = Some c'"
        by auto
      have "tree_add_loop h ci uid i = Some (1, h')"
        using c Some True ne h'(1) by (subst tree_add_loop.simps) simp
      moreover have "h' a = Some c" using h'(4) [of a] out ne c by auto
      moreover have "shape h' q r = shape h q r" "ups h' w r = ups h w r" for q w
        using h'(4) out shape_dom [OF c(4)] by (intro shape_frame ups_frame; fastforce)+
      ultimately show ?thesis
        using c h' out True ida idc Some by (intro exI [of _ h']) auto
    qed
  next
    case False
    show ?thesis
    proof (cases "c_right c")
      case None
      let ?h = "h(a \<mapsto> c\<lparr>c_right := Some ci\<rparr>, ci \<mapsto> cc\<lparr>c_up := Some a\<rparr>)"
      have "tree_add_loop h ci uid i = Some (1, ?h)"
        using c ci None False ne by (subst tree_add_loop.simps) simp
      moreover have "r = Leaf" using c None by simp
      moreover have "same_data h ?h" using c ci ne by (simp add: same_data_def)
      moreover have "shape ?h q l = shape h q l" "ups ?h w l = ups h w l" for q w
        using out by simp_all
      moreover have "?h a = Some (c\<lparr>c_right := Some ci\<rparr>)" "?h ci = Some (cc\<lparr>c_up := Some a\<rparr>)"
        "\<And>p. p \<noteq> a \<Longrightarrow> p \<noteq> ci \<Longrightarrow> ?h p = h p"
        using ne by simp_all
      ultimately show ?thesis
        using c ci ne out False ida idc by (intro exI [of _ ?h]) (simp del: fun_upd_apply)
    next
      case (Some b)
      from Node.IH(2) [of b "Some a"] Node.prems c Some obtain h' where
        h': "tree_add_loop h ci uid b = Some (1, h')" "shape h' (Some b) (tins (id_at h) ci r)"
          "ups h' (Some a) (tins (id_at h) ci r)"
          "\<And>p. p \<notin> insert ci (set_tree r) \<Longrightarrow> h' p = h p" "same_data h h'" "\<exists>c'. h' ci = Some c'"
        by auto
      have "tree_add_loop h ci uid i = Some (1, h')"
        using c Some False ne h'(1) by (subst tree_add_loop.simps) simp
      moreover have "h' a = Some c" using h'(4) [of a] out ne c by auto
      moreover have "shape h' q l = shape h q l" "ups h' w l = ups h w l" for q w
        using h'(4) out shape_dom [OF c(3)] by (intro shape_frame ups_frame; fastforce)+
      ultimately show ?thesis
        using c h' out False ida idc Some by (intro exI [of _ h']) auto
    qed
  qed
qed simp

text \<open>Adding a client: the tree gains it, or a client with its identifier is there already.\<close>

lemma tree_insertion:
  assumes wf: "tree_wf h root t" and ci: "h ci = Some cc" "c_left cc = None" "c_right cc = None"
    "c_up cc = None" "ci \<notin> set_tree t"
  shows "\<exists>ret h' root'. client_tree_add h root ci = Some (ret, h', root') \<and>
     (if \<exists>q\<in>set_tree t. id_at h q = c_id cc then ret = 0 \<and> h' = h \<and> root' = root
      else ret = 1 \<and> tree_wf h' root' (tins (id_at h) ci t) \<and> same_data h h')"
proof (cases root)
  case None
  with wf have "t = Leaf" by (simp add: tree_wf_def)
  with None ci show ?thesis
    by (auto simp: client_tree_add_def tree_wf_def ordered_Node)
next
  case (Some i)
  note w = wf [unfolded tree_wf_def Some]
  show ?thesis
  proof (cases "\<exists>q\<in>set_tree t. id_at h q = c_id cc")
    case True
    then obtain q where "q \<in> set_tree t" "id_at h q = c_id cc" by blast
    with tree_add_loop_dup [of h i t q] w ci True Some show ?thesis
      by (auto simp: client_tree_add_def)
  next
    case False
    have "\<exists>h'. tree_add_loop h ci (c_id cc) i = Some (1, h') \<and>
       shape h' (Some i) (tins (id_at h) ci t) \<and> ups h' None (tins (id_at h) ci t) \<and>
       (\<forall>p. p \<notin> insert ci (set_tree t) \<longrightarrow> h' p = h p) \<and> same_data h h' \<and> (\<exists>c'. h' ci = Some c')"
      using w ci False ordered_distinct by (intro tree_add_loop_new) auto
    then obtain h' where h': "tree_add_loop h ci (c_id cc) i = Some (1, h')"
       "shape h' (Some i) (tins (id_at h) ci t)" "ups h' None (tins (id_at h) ci t)" "same_data h h'"
      by blast
    have "ordered h (tins (id_at h) ci t)"
      using w ci False by (intro ordered_tins) (auto simp: id_at_def)
    with h' False ci Some show ?thesis
      by (auto simp: client_tree_add_def tree_wf_def same_data_ordered)
  qed
qed

section \<open>Removal\<close>

text \<open>The subtree at a node, and the tree with that subtree replaced.\<close>

fun tat :: "nat \<Rightarrow> nat tree \<Rightarrow> nat tree" where
  "tat x Leaf = Leaf"
| "tat x (Node l a r) = (if a = x then Node l a r else if x \<in> set_tree l then tat x l else tat x r)"

fun tsub :: "nat \<Rightarrow> nat tree \<Rightarrow> nat tree \<Rightarrow> nat tree" where
  "tsub x s Leaf = Leaf"
| "tsub x s (Node l a r) =
     (if a = x then s else if x \<in> set_tree l then Node (tsub x s l) a r else Node l a (tsub x s r))"

lemma tat_set: "x \<in> set_tree t \<Longrightarrow> x \<in> set_tree (tat x t) \<and> set_tree (tat x t) \<subseteq> set_tree t"
  by (induction t) auto

lemma tat_Node: "x \<in> set_tree t \<Longrightarrow> \<exists>l r. tat x t = Node l x r"
  by (induction t) auto

lemma tdel_notin: "x \<notin> set_tree t \<Longrightarrow> tdel x t = t"
  by (induction t) auto

lemma tdel_tsub:
  "distinct (inorder t) \<Longrightarrow> tat x t = Node l x r \<Longrightarrow> tdel x t = tsub x (tjoin l r) t"
  by (induction t) (auto simp: tdel_notin disjoint_iff split: if_splits)

lemma shape_tat: "shape h q t \<Longrightarrow> x \<in> set_tree t \<Longrightarrow> shape h (Some x) (tat x t)"
  by (induction t arbitrary: q) auto

lemma ups_tat: "ups h u t \<Longrightarrow> x \<in> set_tree t \<Longrightarrow> h x = Some c \<Longrightarrow> ups h (c_up c) (tat x t)"
  by (induction t arbitrary: u) auto

lemma distinct_tat: "distinct (inorder t) \<Longrightarrow> distinct (inorder (tat x t))"
  by (induction t) auto

text \<open>The links of two heaps agree on a set of nodes.\<close>

definition same_links :: "nat set \<Rightarrow> cheap \<Rightarrow> cheap \<Rightarrow> bool" where
  "same_links A h h' \<longleftrightarrow> (\<forall>p\<in>A. \<exists>c c'. h p = Some c \<and> h' p = Some c' \<and>
      c_left c' = c_left c \<and> c_right c' = c_right c \<and> c_up c' = c_up c)"

lemma same_links_shape: "same_links A h h' \<Longrightarrow> set_tree t \<subseteq> A \<Longrightarrow> shape h' q t = shape h q t"
  unfolding same_links_def by (rule shape_frame) blast

lemma same_links_ups: "same_links A h h' \<Longrightarrow> set_tree t \<subseteq> A \<Longrightarrow> ups h' u t = ups h u t"
  unfolding same_links_def by (rule ups_frame) blast

lemma same_links_subset: "same_links A h h' \<Longrightarrow> B \<subseteq> A \<Longrightarrow> same_links B h h'"
  by (auto simp: same_links_def)

text \<open>
  A node below the root is linked from its parent, and writing another subtree through
  that link replaces its subtree.
\<close>

definition relinks :: "cheap \<Rightarrow> cheap \<Rightarrow> nat option \<Rightarrow> nat tree \<Rightarrow> nat \<Rightarrow> nat option \<Rightarrow> nat tree \<Rightarrow> bool" where
  "relinks h h1 q t ci x s \<longleftrightarrow>
     (\<exists>c p pc pl h2. h ci = Some c \<and> c_up c = Some p \<and> p \<in> set_tree t - set_tree (tat ci t)
        \<and> find_link h ci = Some pl \<and> (\<forall>root. set_link pl x h1 root = Some (h2, root)) \<and> h1 p = Some pc
        \<and> (h2 = h1(p \<mapsto> pc\<lparr>c_left := x\<rparr>) \<or> h2 = h1(p \<mapsto> pc\<lparr>c_right := x\<rparr>))
        \<and> shape h2 q (tsub ci s t))"

lemma same_linksE:
  assumes "same_links A h h1" "a \<in> A" "h a = Some c"
  obtains c1 where "h1 a = Some c1" "c_left c1 = c_left c" "c_right c1 = c_right c" "c_up c1 = c_up c"
  using bspec [OF assms(1) [unfolded same_links_def] assms(2)] assms(3) that by auto

lemma relinks_child:
  assumes a: "h a = Some c" "a \<notin> set_tree l" "a \<notin> set_tree r"
    and c: "c_left c = Some ci \<and> shape h (Some ci) l \<and> ups h (Some a) l \<and> shape h1 (c_right c) r
          \<or> c_right c = Some ci \<and> shape h (Some ci) r \<and> ups h (Some a) r \<and> shape h1 (c_left c) l
              \<and> shape h (c_left c) l \<and> ci \<notin> set_tree l"
    and a': "a \<notin> set_tree s" and h1: "h1 a = Some c1" "c_left c1 = c_left c" "c_right c1 = c_right c" and s: "shape h1 x s"
  shows "relinks h h1 (Some a) (Node l a r) ci x s"
  using c
proof
  assume c: "c_left c = Some ci \<and> shape h (Some ci) l \<and> ups h (Some a) l \<and> shape h1 (c_right c) r"
  then obtain cc ll lr where cc: "h ci = Some cc" "c_up cc = Some a" "l = Node ll ci lr"
    by (auto elim!: shape_SomeE)
  let ?h = "h1(a \<mapsto> c1\<lparr>c_left := x\<rparr>)"
  have "shape ?h x s" "shape ?h (c_right c) r" using s c a a' by simp_all
  then show ?thesis
    unfolding relinks_def using cc c a h1 by (auto simp: find_link_def)
next
  assume c: "c_right c = Some ci \<and> shape h (Some ci) r \<and> ups h (Some a) r \<and> shape h1 (c_left c) l
              \<and> shape h (c_left c) l \<and> ci \<notin> set_tree l"
  then obtain cc rl rr where cc: "h ci = Some cc" "c_up cc = Some a" "r = Node rl ci rr"
    by (auto elim!: shape_SomeE)
  let ?h = "h1(a \<mapsto> c1\<lparr>c_right := x\<rparr>)"
  have "shape ?h x s" "shape ?h (c_left c) l" using s c a a' by simp_all
  moreover have "c_left c \<noteq> Some ci" using c by (auto elim!: shape_SomeE)
  ultimately show ?thesis
    unfolding relinks_def using cc c a h1 by (auto simp: find_link_def)
qed

lemma relinks_left:
  assumes i: "relinks h h1 (c_left c) l ci x s" and ci: "ci \<in> set_tree l" "ci \<noteq> a"
    and d: "a \<notin> set_tree l" "set_tree l \<inter> set_tree r = {}"
    and h1: "h1 a = Some c1" "c_left c1 = c_left c" "c_right c1 = c_right c" "shape h1 (c_right c) r"
  shows "relinks h h1 (Some a) (Node l a r) ci x s"
proof -
  from i obtain cc p pc pl h2 where i: "h ci = Some cc" "c_up cc = Some p"
      "p \<in> set_tree l - set_tree (tat ci l)" "find_link h ci = Some pl"
      "\<forall>root. set_link pl x h1 root = Some (h2, root)" "h1 p = Some pc"
      "h2 = h1(p \<mapsto> pc\<lparr>c_left := x\<rparr>) \<or> h2 = h1(p \<mapsto> pc\<lparr>c_right := x\<rparr>)"
      "shape h2 (c_left c) (tsub ci s l)"
    unfolding relinks_def by blast
  have "p \<noteq> a" "p \<notin> set_tree r" using i(3) d by auto
  then have "h2 a = Some c1" "shape h2 (c_right c) r" using i(7) h1 by auto
  then have "shape h2 (Some a) (tsub ci s (Node l a r))" using i(8) h1 ci by simp
  moreover have "p \<in> set_tree (Node l a r) - set_tree (tat ci (Node l a r))" using i(3) ci by simp
  ultimately show ?thesis using i(1,2,4-7) unfolding relinks_def by blast
qed

lemma relinks_right:
  assumes i: "relinks h h1 (c_right c) r ci x s" and ci: "ci \<notin> set_tree l" "ci \<noteq> a"
    and d: "a \<notin> set_tree r" "set_tree l \<inter> set_tree r = {}"
    and h1: "h1 a = Some c1" "c_left c1 = c_left c" "c_right c1 = c_right c" "shape h1 (c_left c) l"
  shows "relinks h h1 (Some a) (Node l a r) ci x s"
proof -
  from i obtain cc p pc pl h2 where i: "h ci = Some cc" "c_up cc = Some p"
      "p \<in> set_tree r - set_tree (tat ci r)" "find_link h ci = Some pl"
      "\<forall>root. set_link pl x h1 root = Some (h2, root)" "h1 p = Some pc"
      "h2 = h1(p \<mapsto> pc\<lparr>c_left := x\<rparr>) \<or> h2 = h1(p \<mapsto> pc\<lparr>c_right := x\<rparr>)"
      "shape h2 (c_right c) (tsub ci s r)"
    unfolding relinks_def by blast
  have "p \<noteq> a" "p \<notin> set_tree l" using i(3) d by auto
  then have "h2 a = Some c1" "shape h2 (c_left c) l" using i(7) h1 by auto
  then have "shape h2 (Some a) (tsub ci s (Node l a r))" using i(8) h1 ci by simp
  moreover have "p \<in> set_tree (Node l a r) - set_tree (tat ci (Node l a r))" using i(3) ci by simp
  ultimately show ?thesis using i(1,2,4-7) unfolding relinks_def by blast
qed

lemma relink_below:
  assumes "shape h q t" "ups h u t" "distinct (inorder t)" "ci \<in> set_tree t" "q \<noteq> Some ci"
    and "same_links (set_tree t - set_tree (tat ci t)) h h1" "shape h1 x s"
    and "set_tree s \<inter> (set_tree t - set_tree (tat ci t)) = {}"
  shows "relinks h h1 q t ci x s"
  using assms
proof (induction t arbitrary: q u)
  case (Node l a r)
  then obtain c where c: "h a = Some c" "shape h (c_left c) l" "shape h (c_right c) r" "q = Some a"
      "ci \<noteq> a" "ups h (Some a) l" "ups h (Some a) r"
    by auto
  have dis: "a \<notin> set_tree l" "a \<notin> set_tree r" "set_tree l \<inter> set_tree r = {}"
    "distinct (inorder l)" "distinct (inorder r)"
    using Node.prems(3) by auto
  define side where "side = (if ci \<in> set_tree l then l else r)"
  have side: "ci \<in> set_tree side" "tat ci (Node l a r) = tat ci side"
    using Node.prems(4) c by (auto simp: side_def)
  note sub = tat_set [OF side(1), THEN conjunct2]
  have "set_tree side \<subseteq> set_tree (Node l a r)" by (auto simp: side_def)
  with Node.prems(8) side have s: "set_tree s \<inter> (set_tree side - set_tree (tat ci side)) = {}" by auto
  have "a \<notin> set_tree side" using dis by (simp add: side_def)
  with sub have a: "a \<in> set_tree (Node l a r) - set_tree (tat ci (Node l a r))" using side by auto
  with Node.prems(8) have as: "a \<notin> set_tree s" by blast
  from same_linksE [OF Node.prems(6) a c(1)] obtain c1 where
    c1: "h1 a = Some c1" "c_left c1 = c_left c" "c_right c1 = c_right c" by blast
  have lk: "same_links (set_tree side - set_tree (tat ci side)) h h1"
    using Node.prems(6) by (rule same_links_subset) (use c(5) in \<open>auto simp: side_def\<close>)
  show ?case
  proof (cases "ci \<in> set_tree l")
    case True
    then have sl: "side = l" by (simp add: side_def)
    have "same_links (set_tree r) h h1"
      using Node.prems(6) by (rule same_links_subset) (use side sl sub dis in auto)
    then have r: "shape h1 (c_right c) r" using same_links_shape c by blast
    show ?thesis
    proof (cases "c_left c = Some ci")
      case False
      from Node.IH(1) [OF c(2,6) dis(4) True False] lk s sl Node.prems(7) dis c1 c r True
      show ?thesis by (auto intro: relinks_left)
    qed (use c c1 dis as r Node.prems(7) in \<open>auto intro!: relinks_child\<close>)
  next
    case False
    then have sr: "side = r" by (simp add: side_def)
    have "same_links (set_tree l) h h1"
      using Node.prems(6) by (rule same_links_subset) (use side sr sub dis in auto)
    then have l: "shape h1 (c_left c) l" using same_links_shape c by blast
    have cr: "ci \<in> set_tree r" using side sr by simp
    show ?thesis
    proof (cases "c_right c = Some ci")
      case nr: False
      from Node.IH(2) [OF c(3,7) dis(5) cr nr] lk s sr Node.prems(7) dis c1 c l False
      show ?thesis by (auto intro: relinks_right)
    qed (use c c1 dis as l Node.prems(7) False in \<open>auto intro!: relinks_child\<close>)
  qed
qed simp

lemma ups_tsub:
  assumes "ups h u t" "ci \<in> set_tree t" "h ci = Some c" "distinct (inorder t)"
    and "same_links (set_tree t - set_tree (tat ci t)) h h1" "ups h1 (c_up c) s"
  shows "ups h1 u (tsub ci s t)"
  using assms
proof (induction t arbitrary: u)
  case (Node l a r)
  show ?case
  proof (cases "ci = a")
    case False
    define side where "side = (if ci \<in> set_tree l then l else r)"
    define other where "other = (if ci \<in> set_tree l then r else l)"
    have side: "ci \<in> set_tree side" "tat ci (Node l a r) = tat ci side"
      using Node.prems(2) False by (auto simp: side_def)
    note sub = tat_set [OF side(1), THEN conjunct2]
    have dis: "a \<notin> set_tree side" "set_tree other \<inter> set_tree side = {}"
      using Node.prems(4) by (auto simp: side_def other_def)
    have "same_links (set_tree other) h h1" "same_links (set_tree side - set_tree (tat ci side)) h h1"
      "same_links {a} h h1"
      by (rule same_links_subset [OF Node.prems(5)];
          use dis sub side False in \<open>auto simp: side_def other_def split: if_splits\<close>)+
    moreover have a1: "\<exists>c1. h1 a = Some c1 \<and> c_up c1 = u"
      using Node.prems(1) same_linksE [OF \<open>same_links {a} h h1\<close>, of a] by auto
    ultimately show ?thesis
      using Node False same_links_ups [of "set_tree other" h h1 other] a1
      by (auto simp: side_def other_def split: if_splits)
  qed (use Node.prems in auto)
qed simp

lemma set_link_frame:
  assumes "set_link pl x h1 root = Some (h2, root2)"
  shows "same_data h1 h2 \<and> ups h2 u t = ups h1 u t"
proof -
  have *: "ups (h1(p \<mapsto> c')) u t = ups h1 u t" if "h1 p = Some c" "c_up c' = c_up c" for p c c'
    using that by (induction t arbitrary: u) auto
  from assms show ?thesis
    by (cases "(pl, x, h1, root)" rule: set_link.cases)
      (auto simp: hupd_def * same_data_def split: option.splits)
qed

fun link_nodes :: "plink \<Rightarrow> nat set" where
  "link_nodes RootLink = {}"
| "link_nodes (LeftLink u) = {u}"
| "link_nodes (RightLink u) = {u}"

text \<open>Writing a subtree through the link of any node of the tree.\<close>

lemma relink:
  assumes wf: "tree_wf h root t" and ci: "ci \<in> set_tree t"
    and h1: "same_links (set_tree t - set_tree (tat ci t)) h h1" "shape h1 x s"
      "set_tree s \<inter> (set_tree t - set_tree (tat ci t)) = {}"
  obtains pl h2 root2 where "find_link h ci = Some pl" "set_link pl x h1 root = Some (h2, root2)"
    "shape h2 root2 (tsub ci s t)" "\<forall>p\<in>set_tree (tat ci t). h2 p = h1 p"
    "\<forall>u t. ups h2 u t = ups h1 u t" "same_data h1 h2" "link_nodes pl \<subseteq> set_tree t - set_tree (tat ci t)"
proof (cases "root = Some ci")
  case True
  with wf have "\<exists>c. h ci = Some c \<and> c_up c = None" "\<exists>l r. t = Node l ci r"
    by (auto simp: tree_wf_def elim!: shape_SomeE)
  with True h1(2) show ?thesis
    by (intro that [of RootLink h1 x]) (auto simp: find_link_def)
next
  case False
  have "relinks h h1 root t ci x s"
    using wf ci False h1 ordered_distinct by (intro relink_below [of h root t None]) (auto simp: tree_wf_def)
  then obtain c p pc pl h2 where "p \<in> set_tree t - set_tree (tat ci t)" "find_link h ci = Some pl"
      "set_link pl x h1 root = Some (h2, root)" "h1 p = Some pc"
      "h2 = h1(p \<mapsto> pc\<lparr>c_left := x\<rparr>) \<or> h2 = h1(p \<mapsto> pc\<lparr>c_right := x\<rparr>)" "shape h2 root (tsub ci s t)"
      "h ci = Some c" "c_up c = Some p"
    unfolding relinks_def by blast
  moreover from this(1,2,7,8) have "link_nodes pl \<subseteq> set_tree t - set_tree (tat ci t)"
    by (auto simp: find_link_def split: if_splits)
  moreover from \<open>p \<in> _\<close> \<open>h2 = _ \<or> _\<close> have "h2 q = h1 q" if "q \<in> set_tree (tat ci t)" for q using that by auto
  ultimately show ?thesis using set_link_frame [OF \<open>set_link pl x h1 root = Some (h2, root)\<close>]
    by (intro that [of pl h2 root]) auto
qed

section \<open>The leftmost node\<close>

lemma find_leftmost_tmin: "shape h (Some r) t \<Longrightarrow> find_leftmost h r = Some (tmin t)"
proof (induction t arbitrary: r)
  case (Node l a r')
  then show ?case by (cases l) (subst find_leftmost.simps; auto)+
qed simp

lemma tmin_in: "t \<noteq> Leaf \<Longrightarrow> tmin t \<in> set_tree t"
  using inorder_tdelmin [of t] by (metis list.set_intros(1) set_inorder)

lemma set_tdelmin:
  assumes "distinct (inorder t)" "t \<noteq> Leaf"
  shows "set_tree (tdelmin t) = set_tree t - {tmin t}"
proof -
  have "set (tmin t # inorder (tdelmin t)) = set_tree t" "distinct (tmin t # inorder (tdelmin t))"
    using inorder_tdelmin [OF assms(2)] assms(1) by (simp_all only: set_inorder)
  then show ?thesis by auto
qed

lemma unlink_tmin:
  assumes "shape h (Some r) t" "ups h w t" "distinct (inorder t)" "tmin t \<noteq> r"
  shows "\<exists>lc u uc. h (tmin t) = Some lc \<and> c_up lc = Some u \<and> h u = Some uc \<and> u \<in> set_tree (tdelmin t)
     \<and> shape (h(u \<mapsto> uc\<lparr>c_left := c_right lc\<rparr>)) (Some r) (tdelmin t)"
  using assms
proof (induction t arbitrary: r w)
  case (Node l a r')
  then obtain c where c: "h a = Some c" "shape h (c_left c) l" "shape h (c_right c) r'" "r = a"
    "ups h (Some a) l"
    by auto
  show ?case
  proof (cases l)
    case (Node ll b lr)
    show ?thesis
    proof (cases ll)
      case Leaf
      let ?h = "\<lambda>lc. h(a \<mapsto> c\<lparr>c_left := c_right lc\<rparr>)"
      from Leaf Node c Node.prems(3) obtain lc where lc: "h b = Some lc" "c_up lc = Some a"
        "shape (?h lc) (c_right lc) lr" "shape (?h lc) (c_right c) r'"
        by (auto simp del: fun_upd_apply)
      then show ?thesis
        using Leaf Node c
        by (intro exI [of _ lc] exI [of _ a] exI [of _ c]) (simp del: fun_upd_apply, simp)
    next
      case ll: (Node x1 x2 x3)
      have t: "tmin (Node l a r') = tmin l" "tdelmin (Node l a r') = Node (tdelmin l) a r'"
        using Node by simp_all
      have d: "distinct (inorder l)" "a \<notin> set_tree l" "set_tree l \<inter> set_tree r' = {}"
        using Node.prems(3) by auto
      have b: "tmin l \<in> set_tree ll" "b \<notin> set_tree ll"
        using tmin_in [of ll] ll d Node by auto
      then have "tmin l \<noteq> b" by auto
      have cb: "c_left c = Some b" using c(2) Node by auto
      from Node.IH(1) [OF c(2) [unfolded cb] c(5) d(1) \<open>tmin l \<noteq> b\<close>] obtain lc u uc where
        i: "h (tmin l) = Some lc" "c_up lc = Some u" "h u = Some uc" "u \<in> set_tree (tdelmin l)"
          "shape (h(u \<mapsto> uc\<lparr>c_left := c_right lc\<rparr>)) (Some b) (tdelmin l)"
        by blast
      have u: "u \<noteq> a" "u \<notin> set_tree r'" using set_tdelmin [OF d(1)] i(4) d Node by auto
      then have "shape (h(u \<mapsto> uc\<lparr>c_left := c_right lc\<rparr>)) (Some r) (Node (tdelmin l) a r')"
        using i(5) c cb by simp
      moreover have "u \<in> set_tree (Node (tdelmin l) a r')" using i(4) by simp
      ultimately show ?thesis unfolding t using i(1-3) by blast
    qed
  qed (use Node.prems c in simp)
qed simp

section \<open>Removal: the theorems\<close>

lemma tmin_root: "distinct (inorder (Node l a r)) \<Longrightarrow> tmin (Node l a r) = a \<Longrightarrow> l = Leaf"
  using tmin_in [of l] by (cases l) auto

lemma remove_two_correct:
  assumes sh: "h ci = Some c" "c_left c = Some lp" "c_right c = Some r" "shape h (Some lp) l" "shape h (Some r) rt"
    and u: "ups h (Some ci) rt" and d: "distinct (inorder l @ ci # inorder rt)"
  obtains h2 where "remove_two h ci c r = Some (tmin rt, h2)"
    "shape h2 (Some (tmin rt)) (Node l (tmin rt) (tdelmin rt))"
    "\<And>p. p \<notin> set_tree rt \<Longrightarrow> h2 p = h p" "same_data h h2"
proof -
  have ne: "rt \<noteq> Leaf" using sh(5) by auto
  have dr: "distinct (inorder rt)" using d by simp
  have lm: "find_leftmost h r = Some (tmin rt)" by (rule find_leftmost_tmin [OF sh(5)])
  have sd: "set_tree (tdelmin rt) = set_tree rt - {tmin rt}" by (rule set_tdelmin [OF dr ne])
  have lin: "tmin rt \<in> set_tree rt" by (rule tmin_in [OF ne])
  have ll: "set_tree l \<inter> set_tree rt = {}" using d by auto
  show thesis
  proof (cases "tmin rt = r")
    case True
    from sh(5) obtain l0 rr rc where r0: "rt = Node l0 r rr" "h r = Some rc" "shape h (c_right rc) rr"
      by (elim shape_SomeE)
    have "l0 = Leaf" using tmin_root [of l0 r rr] dr True unfolding r0(1) by blast
    note rt = r0 [unfolded this]
    let ?h = "h(r \<mapsto> rc\<lparr>c_left := c_left c, c_up := c_up c\<rparr>)"
    have "shape ?h (Some lp) l" "shape ?h (c_right rc) rr" using sh rt ll dr by simp_all
    then have "shape ?h (Some r) (Node l r rr)" using sh by simp
    then show thesis using lm rt sh True
      by (intro that [of ?h]) (auto simp: remove_two_def same_data_def untree_def)
  next
    case False
    from unlink_tmin [OF sh(5) u dr False] obtain lc v vc where
      i: "h (tmin rt) = Some lc" "c_up lc = Some v" "h v = Some vc" "v \<in> set_tree (tdelmin rt)"
        "shape (h(v \<mapsto> vc\<lparr>c_left := c_right lc\<rparr>)) (Some r) (tdelmin rt)"
      by blast
    let ?h1 = "h(v \<mapsto> vc\<lparr>c_left := c_right lc\<rparr>)"
    let ?c = "lc\<lparr>c_right := c_right c, c_left := c_left c, c_up := c_up c\<rparr>"
    let ?h = "?h1(tmin rt \<mapsto> ?c)"
    have v: "v \<noteq> tmin rt" "v \<notin> set_tree l" "tmin rt \<notin> set_tree l" "tmin rt \<notin> set_tree (tdelmin rt)"
      using i(4) sd ll lin by auto
    have "shape ?h (Some lp) l" using sh v by simp
    moreover have "shape ?h (Some r) (tdelmin rt)" using i(5) v by simp
    ultimately have "shape ?h (Some (tmin rt)) (Node l (tmin rt) (tdelmin rt))" using sh by simp
    moreover have "remove_two h ci c r = Some (tmin rt, ?h)"
      using lm i v sh False by (simp add: remove_two_def)
    moreover have "same_data h ?h" using i v by (simp add: same_data_def untree_def)
    moreover have "?h p = h p" if "p \<notin> set_tree rt" for p using that i(4) sd lin by auto
    ultimately show thesis by (intro that [of ?h])
  qed
qed

text \<open>
  Removal takes the client out of the tree, keeps every other client in it and keeps the
  order, so searching stays right.
\<close>

definition removed :: "cheap \<Rightarrow> nat option \<Rightarrow> nat \<Rightarrow> client \<Rightarrow> nat tree \<Rightarrow> bool" where
  "removed h root ci c t \<longleftrightarrow>
     (\<exists>h2 root2. client_tree_remove h root ci = Some (h2, root2)
        \<and> shape h2 root2 (tdel ci t) \<and> ordered h2 (tdel ci t) \<and> same_data h h2
        \<and> (c_left c = None \<or> c_right c = None \<longrightarrow> ups h2 None (tdel ci t))
        \<and> (\<forall>l. c_left c = Some l \<and> c_right c \<noteq> None \<longrightarrow> h2 l = h l))"

lemma removed_by_relink:
  assumes wf: "tree_wf h root t" and ci: "ci \<in> set_tree t" "h ci = Some c" and at: "tat ci t = Node l ci r"
    and h1: "\<And>p. p \<notin> set_tree (tat ci t) \<Longrightarrow> h1 p = h p" "shape h1 x (tjoin l r)" "same_data h h1"
    and rm: "\<And>pl. find_link h ci = Some pl \<Longrightarrow> client_tree_remove h root ci = set_link pl x h1 root"
    and up: "c_left c = None \<or> c_right c = None \<Longrightarrow> ups h1 (c_up c) (tjoin l r)"
    and lf: "\<And>l. c_left c = Some l \<Longrightarrow> c_right c \<noteq> None \<Longrightarrow> h1 l = h l"
  shows "removed h root ci c t"
proof -
  have d: "distinct (inorder t)" and o: "ordered h t" and ut: "ups h None t" and st: "shape h root t"
    using wf ordered_distinct by (auto simp: tree_wf_def)
  have sl: "shape h (c_left c) l" using shape_tat [OF st ci(1)] ci at by auto
  have lk: "same_links (set_tree t - set_tree (tat ci t)) h h1"
    using shape_dom [OF st] h1(1) by (force simp: same_links_def)
  note del = tdel_tsub [OF d at]
  have "set_tree (tjoin l r) \<inter> (set_tree t - set_tree (tat ci t)) = {}"
    unfolding set_inorder [symmetric] at by auto
  then obtain pl h2 root2 where
    r: "find_link h ci = Some pl" "set_link pl x h1 root = Some (h2, root2)"
      "shape h2 root2 (tsub ci (tjoin l r) t)" "\<forall>p\<in>set_tree (tat ci t). h2 p = h1 p"
      "\<forall>u t. ups h2 u t = ups h1 u t" "same_data h1 h2"
      "link_nodes pl \<subseteq> set_tree t - set_tree (tat ci t)"
    by (rule relink [OF wf ci(1) lk h1(2)])
  have sd: "same_data h h2" by (rule same_data_trans [OF h1(3) r(6)])
  moreover have "ordered h2 (tdel ci t)" using same_data_ordered [OF sd] ordered_tdel [OF o] by simp
  moreover have "ups h2 None (tdel ci t)" if "c_left c = None \<or> c_right c = None"
    unfolding del r(5) [rule_format] by (rule ups_tsub [OF ut ci d lk up [OF that]])
  moreover have "h2 q = h q" if "c_left c = Some q" "c_right c \<noteq> None" for q
    using r(4) lf [OF that] sl that(1) at by (auto elim!: shape_SomeE)
  ultimately show ?thesis using r rm del unfolding removed_def by auto
qed

lemma update_other: "p \<in> A \<Longrightarrow> q \<notin> A \<Longrightarrow> (h(p := x)) q = h q"
  by auto

lemma ups_reroot:
  assumes "ups h u t" "shape h (Some p) t" "distinct (inorder t)" "h p = Some c"
  shows "ups (h(p \<mapsto> c\<lparr>c_up := u'\<rparr>)) u' t \<and> shape (h(p \<mapsto> c\<lparr>c_up := u'\<rparr>)) (Some p) t"
  using assms by (cases t) (auto simp del: fun_upd_apply simp: fun_upd_same)

lemma tree_removal:
  assumes wf: "tree_wf h root t" and ci: "ci \<in> set_tree t" "h ci = Some c"
  shows "removed h root ci c t"
proof -
  have d: "distinct (inorder t)" and ut: "ups h None t" and st: "shape h root t"
    using wf ordered_distinct by (auto simp: tree_wf_def)
  obtain l r where at: "tat ci t = Node l ci r" using tat_Node [OF ci(1)] by blast
  have s: "shape h (c_left c) l" "shape h (c_right c) r" "ups h (Some ci) l" "ups h (Some ci) r"
    using shape_tat [OF st ci(1)] ups_tat [OF ut ci] ci at by auto
  have dt: "distinct (inorder l @ ci # inorder r)" using distinct_tat [OF d, of ci] at by simp
  note by_relink = removed_by_relink [OF wf ci at]
  consider "c_left c = None" "c_right c = None" | lp where "c_left c = Some lp" "c_right c = None"
    | rp where "c_left c = None" "c_right c = Some rp"
    | lp rp where "c_left c = Some lp" "c_right c = Some rp" by (cases "c_left c"; cases "c_right c") auto
  then show ?thesis
  proof cases
    case 1
    then show ?thesis using s ci by (intro by_relink [of h None]) (auto simp: client_tree_remove_def)
  next
    case (2 lp)
    then obtain lc where lc: "h lp = Some lc" "lp \<in> set_tree l" using s by (auto elim!: shape_SomeE)
    let ?h = "h(lp \<mapsto> lc\<lparr>c_up := c_up c\<rparr>)"
    have "ups ?h (c_up c) l \<and> shape ?h (Some lp) l" using 2 s lc dt by (intro ups_reroot) auto
    then show ?thesis using 2 s ci lc at
      by (intro by_relink [of ?h "Some lp"])
        (auto simp: client_tree_remove_def update_other [of _ "set_tree l"] intro!: same_data_update
          simp del: fun_upd_apply)
  next
    case (3 rp)
    then obtain rc where rc: "h rp = Some rc" "rp \<in> set_tree r" using s by (auto elim!: shape_SomeE)
    let ?h = "h(rp \<mapsto> rc\<lparr>c_up := c_up c\<rparr>)"
    have "ups ?h (c_up c) r \<and> shape ?h (Some rp) r" using 3 s rc dt by (intro ups_reroot) auto
    then show ?thesis using 3 s ci rc at
      by (intro by_relink [of ?h "Some rp"])
        (auto simp: client_tree_remove_def update_other [of _ "set_tree r"] intro!: same_data_update
          simp del: fun_upd_apply)
  next
    case (4 lp rp)
    then have "shape h (Some lp) l" "shape h (Some rp) r" using s by simp_all
    from remove_two_correct [OF ci(2) 4 this s(4) dt] obtain h2 where
      h2: "remove_two h ci c rp = Some (tmin r, h2)" "shape h2 (Some (tmin r)) (Node l (tmin r) (tdelmin r))"
        "\<And>p. p \<notin> set_tree r \<Longrightarrow> h2 p = h p" "same_data h h2"
      by blast
    have "tjoin l r = Node l (tmin r) (tdelmin r)" using 4 s by (cases l; cases r) auto
    moreover have "lp \<notin> set_tree r" using 4 s dt by (auto elim!: shape_SomeE)
    ultimately show ?thesis using 4 ci h2 at
      by (intro by_relink [of h2 "Some (tmin r)"]) (auto simp: client_tree_remove_def)
  qed
qed

section \<open>Replacing a client by its next connection\<close>

lemma set_link_commute:
  assumes "set_link pl x (h(q \<mapsto> d)) root = Some (h2, root2)" "q \<notin> link_nodes pl"
  shows "\<exists>h1. set_link pl x h root = Some (h1, root2) \<and> h2 = h1(q \<mapsto> d) \<and> h1 q = h q"
  using assms
  by (cases "(pl, x, h, root)" rule: set_link.cases)
    (auto simp: hupd_def fun_upd_twist split: option.splits if_splits)

lemma set_link_at: "set_link pl x h root = Some (h1, root2) \<Longrightarrow> q \<notin> link_nodes pl \<Longrightarrow> h1 q = h q"
  by (cases "(pl, x, h, root)" rule: set_link.cases) (auto simp: hupd_def split: option.splits)

text \<open>Setting the parent of an optional child.\<close>

definition set_up :: "nat option \<Rightarrow> nat \<Rightarrow> cheap \<Rightarrow> cheap option" where
  "set_up q u h = (case q of None \<Rightarrow> Some h | Some p \<Rightarrow> hupd p (\<lambda>x. x\<lparr>c_up := Some u\<rparr>) h)"

lemma set_up_ok:
  assumes "shape h q t" "ups h u t" "distinct (inorder t)"
  shows "\<exists>h'. set_up q v h = Some h' \<and> shape h' q t \<and> ups h' (Some v) t
     \<and> (\<forall>p. p \<notin> set_tree t \<longrightarrow> h' p = h p)"
proof (cases q)
  case (Some p)
  with assms obtain c where c: "h p = Some c" "p \<in> set_tree t" by (auto elim!: shape_SomeE)
  have "ups (h(p \<mapsto> c\<lparr>c_up := Some v\<rparr>)) (Some v) t \<and> shape (h(p \<mapsto> c\<lparr>c_up := Some v\<rparr>)) (Some p) t"
    using assms c Some by (intro ups_reroot) auto
  then show ?thesis using c Some
    by (auto simp: set_up_def update_other [of _ "set_tree t"] simp del: fun_upd_apply)
qed (use assms in \<open>auto simp: set_up_def\<close>)

lemma set_up_commute:
  assumes "set_up q v h = Some h'" "set_link pl x h' root = Some (h2, root2)" "\<And>p. q = Some p \<Longrightarrow> p \<notin> link_nodes pl"
  shows "\<exists>h1. set_link pl x h root = Some (h1, root2) \<and> set_up q v h1 = Some h2"
proof (cases q)
  case (Some p)
  then obtain c where c: "h p = Some c" "h' = h(p \<mapsto> c\<lparr>c_up := Some v\<rparr>)"
    using assms(1) by (auto simp: set_up_def hupd_def split: option.splits)
  from set_link_commute [OF assms(2) [unfolded c(2)] assms(3) [OF Some]] c(1) Some show ?thesis
    by (auto simp: set_up_def)
qed (use assms in \<open>auto simp: set_up_def\<close>)

lemma inorder_tsub_node:
  "distinct (inorder t) \<Longrightarrow> tat x t = Node l x r \<Longrightarrow> x \<in> set_tree t \<Longrightarrow>
     inorder (tsub x (Node l y r) t) = map (\<lambda>q. if q = x then y else q) (inorder t)"
proof (induction t)
  case (Node a b c)
  have id: "x \<notin> set_tree t \<Longrightarrow> map (\<lambda>q. if q = x then y else q) (inorder t) = inorder t" for t
    by (rule map_idI) auto
  have "x \<in> set_tree a \<Longrightarrow> x \<notin> set_tree c" using Node.prems(1) by auto
  then show ?case using Node by (auto simp: id split: if_splits)
qed simp

lemma set_up_same_data: "set_up q v h = Some h' \<Longrightarrow> same_data h h'"
  by (auto simp: set_up_def hupd_def intro!: same_data_update split: option.splits)

abbreviation (input) takeover :: "client \<Rightarrow> client \<Rightarrow> client" where
  "takeover c d \<equiv> d\<lparr>c_state := c_state c, c_up := c_up c, c_left := c_left c, c_right := c_right c\<rparr>"

lemma replace_multi_children:
  assumes s: "shape h (c_left c) l" "shape h (c_right c) r" "ups h (Some ci) l" "ups h (Some ci) r"
    and dt: "distinct (inorder l @ ci # inorder r)" and q: "q \<notin> set_tree l" "q \<notin> set_tree r" "h q = Some d"
  obtains h2 h3 where "set_up (c_left c) q (h(q \<mapsto> takeover c d)) = Some h2"
    "set_up (c_right c) q h2 = Some h3" "shape h3 (Some q) (Node l q r)" "ups h3 (c_up c) (Node l q r)"
    "\<forall>p. p \<notin> insert q (set_tree l \<union> set_tree r) \<longrightarrow> h3 p = h p" "\<forall>p. id_at h3 p = id_at h p"
proof -
  define h1 where "h1 = h(q \<mapsto> takeover c d)"
  have 1: "shape h1 (c_left c) l" "ups h1 (Some ci) l" "shape h1 (c_right c) r" "ups h1 (Some ci) r"
    using s q by (simp_all add: h1_def)
  from set_up_ok [OF 1(1,2), of q] dt obtain h2 where 2: "set_up (c_left c) q h1 = Some h2" "shape h2 (c_left c) l"
      "ups h2 (Some q) l" "\<And>p. p \<notin> set_tree l \<Longrightarrow> h2 p = h1 p" by auto
  have out: "set_tree l \<inter> set_tree r = {}" using dt by auto
  have r2: "shape h2 w r = shape h1 w r" "ups h2 w r = ups h1 w r" for w
    using 1(3) 2(4) out by (intro shape_frame ups_frame; fastforce dest: shape_dom)+
  obtain h3 where 3: "set_up (c_right c) q h2 = Some h3" "shape h3 (c_right c) r"
      "ups h3 (Some q) r" "\<And>p. p \<notin> set_tree r \<Longrightarrow> h3 p = h2 p"
    using set_up_ok [of h2 "c_right c" r "Some ci" q] dt r2 1 by auto
  have l3: "shape h3 w l = shape h2 w l" "ups h3 w l = ups h2 w l" for w
    using 2(2) 3(4) out by (intro shape_frame ups_frame; fastforce dest: shape_dom)+
  have hq: "h3 q = Some (takeover c d)" using 3(4) 2(4) q by (simp add: h1_def)
  have "id_at h3 p = id_at h1 p" for p
    using set_up_same_data [OF 2(1)] set_up_same_data [OF 3(1)] same_data_id by metis
  moreover have "id_at h1 p = id_at h p" for p using q by (simp add: h1_def id_at_def)
  moreover have "shape h3 (Some q) (Node l q r)" "ups h3 (c_up c) (Node l q r)"
    using hq 2 3 l3 by simp_all
  moreover have "h3 p = h p" if "p \<notin> insert q (set_tree l \<union> set_tree r)" for p
    using that 2(4) [of p] 3(4) [of p] by (simp add: h1_def)
  ultimately show thesis using that 2(1) 3(1) unfolding h1_def by simp
qed

text \<open>
  The next connection takes the place of the first one: the abstract tree has it at the
  same node, the order and the parents are kept.
\<close>

lemma replace_multi:
  assumes wf: "tree_wf h root t" and ci: "ci \<in> set_tree t" "h ci = Some c"
    and sec: "c_next_multi c = Some q" "h q = Some d" "c_id d = c_id c" "q \<notin> set_tree t"
  shows "\<exists>h2 root2 l r. client_tree_replace_multi h root ci = Some (h2, root2) \<and>
    tat ci t = Node l ci r \<and> tree_wf h2 root2 (tsub ci (Node l q r) t)"
proof -
  have dist: "distinct (inorder t)" and o: "ordered h t" and ut: "ups h None t" and st: "shape h root t"
    using wf ordered_distinct by (auto simp: tree_wf_def)
  obtain l r where at: "tat ci t = Node l ci r" using tat_Node [OF ci(1)] by blast
  have s: "shape h (c_left c) l" "shape h (c_right c) r" "ups h (Some ci) l" "ups h (Some ci) r"
    using shape_tat [OF st ci(1)] ups_tat [OF ut ci] ci at by auto
  have dt: "distinct (inorder l @ ci # inorder r)" using distinct_tat [OF dist, of ci] at by simp
  have sub: "set_tree (tat ci t) \<subseteq> set_tree t" using tat_set [OF ci(1)] by simp
  then have q: "q \<notin> set_tree l" "q \<notin> set_tree r" using sec at by auto
  obtain h2 h3 where h3: "set_up (c_left c) q (h(q \<mapsto> takeover c d)) = Some h2"
    "set_up (c_right c) q h2 = Some h3" "shape h3 (Some q) (Node l q r)" "ups h3 (c_up c) (Node l q r)"
    "\<forall>p. p \<notin> insert q (set_tree l \<union> set_tree r) \<longrightarrow> h3 p = h p" "\<forall>p. id_at h3 p = id_at h p"
    by (rule replace_multi_children [OF s dt q sec(2)])
  have lk: "same_links (set_tree t - set_tree (tat ci t)) h h3"
    using shape_dom [OF st] h3(5) at sec(4) by (force simp: same_links_def)
  have "set_tree (Node l q r) \<inter> (set_tree t - set_tree (tat ci t)) = {}" using at sec by auto
  then obtain pl h4 root4 where
    r: "find_link h ci = Some pl" "set_link pl (Some q) h3 root = Some (h4, root4)"
      "shape h4 root4 (tsub ci (Node l q r) t)" "\<forall>p\<in>set_tree (tat ci t). h4 p = h3 p"
      "\<forall>u t. ups h4 u t = ups h3 u t" "same_data h3 h4" "link_nodes pl \<subseteq> set_tree t - set_tree (tat ci t)"
    by (rule relink [OF wf ci(1) lk h3(3)])
  have nl: "p \<notin> link_nodes pl" if "c_right c = Some p \<or> c_left c = Some p" for p
  proof -
    have "p \<in> set_tree (tat ci t)" using that s(1,2) at by (auto elim!: shape_SomeE)
    with r(7) show ?thesis by blast
  qed
  from set_up_commute [OF h3(2) r(2)] nl obtain g2 where
    g2: "set_link pl (Some q) h2 root = Some (g2, root4)" "set_up (c_right c) q g2 = Some h4" by blast
  from set_up_commute [OF h3(1) g2(1)] nl obtain g1 where
    g1: "set_link pl (Some q) (h(q \<mapsto> takeover c d)) root = Some (g1, root4)" "set_up (c_left c) q g1 = Some g2" by blast
  have "q \<notin> link_nodes pl" using r(7) sec by auto
  from set_link_commute [OF g1(1) this] obtain g0 where
    g0: "set_link pl (Some q) h root = Some (g0, root4)" "g1 = g0(q \<mapsto> takeover c d)" "g0 q = h q" by blast
  have "client_tree_replace_multi h root ci = Some (h4, root4)"
    using ci sec r(1) g0 g1(2) g2(2) by (simp add: client_tree_replace_multi_def set_up_def)
  moreover have "ups h4 None (tsub ci (Node l q r) t)"
    unfolding r(5) [rule_format] by (rule ups_tsub [OF ut ci dist lk h3(4)])
  moreover have "ordered h4 (tsub ci (Node l q r) t)"
  proof -
    have "id_at h4 p = id_at h p" for p using same_data_id [OF r(6)] h3(6) by simp
    moreover have "id_at h \<circ> (\<lambda>p. if p = ci then q else p) = id_at h"
      using sec ci by (auto simp: id_at_def)
    ultimately show ?thesis using o inorder_tsub_node [OF dist at ci(1), of q]
      by (simp add: ordered_def cong: map_cong)
  qed
  ultimately show ?thesis using r(3) at by (auto simp: tree_wf_def)
qed

section \<open>Properties\<close>

lemma search_result:
  assumes "shape h root t" "ordered h t" "\<And>q. r = Some q \<longleftrightarrow> q \<in> set_tree t \<and> id_at h q = uid"
  shows "client_tree_search h root uid = Some r"
proof -
  from tree_search_loop_correct [OF assms(1,2), of uid] obtain r' where
    r': "tree_search_loop h uid root = Some r'" "\<forall>q. r' = Some q \<longleftrightarrow> q \<in> set_tree t \<and> id_at h q = uid"
    by (elim exE conjE)
  have "r = Some q \<longleftrightarrow> r' = Some q" for q by (rule trans [OF assms(3) r'(2) [rule_format, symmetric]])
  then have "r = r'" by (metis option.exhaust)
  with r'(1) show ?thesis by (simp add: client_tree_search_def)
qed

text \<open>A tree of three clients, on which the properties are exercised.\<close>

definition blank_client :: client where
  "blank_client = \<lparr>c_id = [], c_up = None, c_left = None, c_right = None, c_next_multi = None,
     c_sck_comm = 0, c_addr = 0, c_r_buf = [], c_r_pos = 0, c_w = empty_wbuf,
     c_state = PICA_CLSTATE_CONNECTED, c_tmst = 0, c_disconnect_ticking = False, c_ev_read = None\<rparr>"

definition heap3 :: cheap where
  "heap3 = [1 \<mapsto> blank_client\<lparr>c_id := [5], c_left := Some 2, c_right := Some 3, c_next_multi := Some 4\<rparr>,
            2 \<mapsto> blank_client\<lparr>c_id := [3], c_up := Some 1\<rparr>,
            3 \<mapsto> blank_client\<lparr>c_id := [7], c_up := Some 1\<rparr>,
            4 \<mapsto> blank_client\<lparr>c_id := [5]\<rparr>,
            5 \<mapsto> blank_client\<lparr>c_id := [4]\<rparr>]"

definition tree3 :: "nat tree" where
  "tree3 = Node (Node Leaf 2 Leaf) 1 (Node Leaf 3 Leaf)"

lemma heap3_simps [simp]:
  "heap3 1 = Some (blank_client\<lparr>c_id := [5], c_left := Some 2, c_right := Some 3, c_next_multi := Some 4\<rparr>)"
  "heap3 (Suc 0) = Some (blank_client\<lparr>c_id := [5], c_left := Some 2, c_right := Some 3, c_next_multi := Some 4\<rparr>)"
  "heap3 2 = Some (blank_client\<lparr>c_id := [3], c_up := Some 1\<rparr>)"
  "heap3 3 = Some (blank_client\<lparr>c_id := [7], c_up := Some 1\<rparr>)"
  "heap3 4 = Some (blank_client\<lparr>c_id := [5]\<rparr>)"
  "heap3 5 = Some (blank_client\<lparr>c_id := [4]\<rparr>)"
  by (simp_all add: heap3_def)

lemma tree3_wf: "tree_wf heap3 (Some 1) tree3"
  by (simp add: tree_wf_def tree3_def blank_client_def ordered_def id_at_def)

text \<open>C23. Searching always returns, and returns a client exactly if that client is in the
  tree under the identifier that was asked for.\<close>

theorem client_tree_search_correct:
  assumes "shape h root t" and "ordered h t"
  shows "\<exists>r. client_tree_search h root uid = Some r \<and>
     (\<forall>q. r = Some q \<longleftrightarrow> q \<in> set_tree t \<and> id_at h q = uid)"
  unfolding client_tree_search_def by (rule tree_search_loop_correct [OF assms])

theorem client_tree_search_correct_witness:
  "shape heap3 (Some 1) tree3 \<and> ordered heap3 tree3 \<and>
   (\<exists>r. client_tree_search heap3 (Some 1) [7] = Some r \<and>
      (\<forall>q. r = Some q \<longleftrightarrow> q \<in> set_tree tree3 \<and> id_at heap3 q = [7]))"
  using tree3_wf client_tree_search_correct [of heap3 "Some 1" tree3 "[7]"] by (simp add: tree_wf_def)

text \<open>C24. Adding a client returns 0 and changes nothing if a client with its identifier is
  in the tree already; otherwise it returns 1, and the new client becomes a leaf of a tree
  that is well formed again (search order and parent pointers), while no other data of any
  client changes.\<close>

theorem client_tree_add_correct:
  assumes "tree_wf h root t" and "h ci = Some cc" "c_left cc = None" "c_right cc = None"
    "c_up cc = None" "ci \<notin> set_tree t"
  shows "\<exists>ret h' root'. client_tree_add h root ci = Some (ret, h', root') \<and>
     (if \<exists>q\<in>set_tree t. id_at h q = c_id cc then ret = 0 \<and> h' = h \<and> root' = root
      else ret = 1 \<and> tree_wf h' root' (tins (id_at h) ci t) \<and> same_data h h')"
  by (rule tree_insertion [OF assms])

theorem client_tree_add_correct_witness:
  "\<exists>ret h' root'. client_tree_add heap3 (Some 1) 5 = Some (ret, h', root') \<and>
     ret = 1 \<and> tree_wf h' root' (tins (id_at heap3) 5 tree3)"
  using client_tree_add_correct [OF tree3_wf, of 5]
  by (auto simp: tree3_def blank_client_def id_at_def)



text \<open>C26. Removing a client with at most one child keeps the tree well formed: the parent
  pointers are right too.\<close>

theorem client_tree_remove_one_child_wf:
  assumes "tree_wf h root t" and "ci \<in> set_tree t" "h ci = Some c"
    and "c_left c = None \<or> c_right c = None"
  shows "\<exists>h' root'. client_tree_remove h root ci = Some (h', root') \<and> tree_wf h' root' (tdel ci t)"
  using tree_removal [OF assms(1-3)] assms(4) unfolding removed_def tree_wf_def by blast

theorem client_tree_remove_one_child_wf_witness:
  "\<exists>h' root'. client_tree_remove heap3 (Some 1) 2 = Some (h', root') \<and> tree_wf h' root' (tdel 2 tree3)"
  using client_tree_remove_one_child_wf [OF tree3_wf, of 2]
  by (simp add: tree3_def blank_client_def)

text \<open>C27. Removing a client with two children leaves the parent pointer of its left child
  on the removed client. Once that client is freed, removing the left child reads freed
  memory, in every well-formed tree.\<close>

theorem client_tree_remove_dangling_parent:
  assumes "tree_wf h root t" and "ci \<in> set_tree t" "h ci = Some c"
    and "c_left c = Some l" "c_right c = Some r"
  shows "\<exists>h' root'. client_tree_remove h root ci = Some (h', root') \<and>
     client_tree_remove (h'(ci := None)) root' l = None"
proof -
  from tree_removal [OF assms(1-3)] assms(4,5) obtain h' root' where
    r: "client_tree_remove h root ci = Some (h', root')" "h' l = h l"
    unfolding removed_def by blast
  have "shape h (Some ci) (tat ci t)" "ups h (c_up c) (tat ci t)" "distinct (inorder (tat ci t))"
    using assms(1-3) shape_tat ups_tat distinct_tat ordered_distinct unfolding tree_wf_def by blast+
  then obtain lc where "h l = Some lc" "c_up lc = Some ci" "l \<noteq> ci"
    using assms(3-5) by (auto elim!: shape_SomeE)
  with r show ?thesis by (auto simp: client_tree_remove_def find_link_def)
qed

theorem client_tree_remove_dangling_parent_witness:
  "\<exists>h' root'. client_tree_remove heap3 (Some 1) 1 = Some (h', root') \<and>
     client_tree_remove (h'(1 := None)) root' 2 = None"
  using client_tree_remove_dangling_parent [OF tree3_wf, of 1]
  by (simp add: tree3_def blank_client_def)

text \<open>When the first connection of a user is replaced, its next connection is found
  under the identifier from then on, every other search has the result it had before, and
  the tree is well formed.\<close>

theorem client_tree_replace_multi_search:
  assumes "tree_wf h root t" and "ci \<in> set_tree t" "h ci = Some c"
    and "c_next_multi c = Some q" "h q = Some d" "c_id d = c_id c" "q \<notin> set_tree t"
  shows "\<exists>h' root' t'. client_tree_replace_multi h root ci = Some (h', root') \<and> tree_wf h' root' t' \<and>
     set_tree t' = insert q (set_tree t - {ci}) \<and>
     client_tree_search h' root' (id_at h' q) = Some (Some q)"
proof -
  from replace_multi [OF assms] obtain h' root' l r where
    r: "client_tree_replace_multi h root ci = Some (h', root')" "tat ci t = Node l ci r"
      "tree_wf h' root' (tsub ci (Node l q r) t)"
    by blast
  have d: "distinct (inorder t)" using assms(1) ordered_distinct by (auto simp: tree_wf_def)
  have set: "set_tree (tsub ci (Node l q r) t) = insert q (set_tree t - {ci})"
    using inorder_tsub_node [OF d r(2) assms(2), of q] assms(2) set_inorder [of "tsub ci (Node l q r) t"]
    by auto
  have wf: "shape h' root' (tsub ci (Node l q r) t)" "ordered h' (tsub ci (Node l q r) t)"
    using r(3) by (auto simp: tree_wf_def)
  have "client_tree_search h' root' (id_at h' q) = Some (Some q)"
    using ordered_inj [OF wf(2), of _ q] set by (intro search_result [OF wf]) (metis insertI1 option.inject)
  with r set show ?thesis by blast
qed

theorem client_tree_replace_multi_search_witness:
  "\<exists>h' root' t'. client_tree_replace_multi heap3 (Some 1) 1 = Some (h', root') \<and> tree_wf h' root' t' \<and>
     set_tree t' = insert 4 (set_tree tree3 - {1}) \<and>
     client_tree_search h' root' (id_at h' 4) = Some (Some 4)"
  using client_tree_replace_multi_search [OF tree3_wf, of 1 _ 4]
  by (simp add: tree3_def blank_client_def)

end
