(* ===== verification/NodeCclink.thy ===== *)
theory NodeCclink
  imports ClientTree
begin

text \<open>
  Client-to-client links of the node (\<open>cclink_*\<close> of \<open>PICA_node.c\<close>): the list of links,
  their life cycle from a connection request to an active relay, and their deletion with
  one of the clients or nodes they depend on. The functions thread the state of the node;
  \<open>None\<close> is a fault (a dangling pointer, a double free, \<open>PICA_fatal\<close>).
\<close>

section \<open>Sending to a client or to a node\<close>

text \<open>\<open>client_wbuf_push\<close> or \<open>nodelink_wbuf_push\<close> and the fill of the tail; the result
  says whether there was room.\<close>

definition client_send :: "nat \<Rightarrow> u32 \<Rightarrow> u32 \<Rightarrow> byte list \<Rightarrow> node \<Rightarrow> (bool \<times> node) option" where
  "client_send p i msz tail s =
     do { c \<leftarrow> clients s p;
          let (ok, w, e) = push_fill client_wbuf_push (nenv s) (c_w c) i msz tail;
          Some (ok, s\<lparr>clients := (clients s)(p \<mapsto> c\<lparr>c_w := w\<rparr>), nenv := e\<rparr>) }"

definition nodelink_send :: "nat \<Rightarrow> u32 \<Rightarrow> u32 \<Rightarrow> byte list \<Rightarrow> node \<Rightarrow> (bool \<times> node) option" where
  "nodelink_send p i msz tail s =
     do { k \<leftarrow> nodelinks s p;
          let (ok, w, e) = push_fill nodelink_wbuf_push (nenv s) (k_w k) i msz tail;
          Some (ok, s\<lparr>nodelinks := (nodelinks s)(p \<mapsto> k\<lparr>k_w := w\<rparr>), nenv := e\<rparr>) }"

section \<open>The list of links\<close>

text \<open>The identifier behind \<open>caller_id\<close> or \<open>callee_id\<close>.\<close>

fun rd_id :: "node \<Rightarrow> idptr option \<Rightarrow> pid option" where
  "rd_id s None = None"
| "rd_id s (Some (IdOf p)) = map_option c_id (clients s p)"
| "rd_id s (Some (IdCopy i)) = Some i"

fun findwaitsearch_loop :: "node \<Rightarrow> pid \<Rightarrow> nat list \<Rightarrow> nat option option" where
  "findwaitsearch_loop s callee_id [] = Some None"
| "findwaitsearch_loop s callee_id (c # cs) =
     do { l \<leftarrow> cclinks s c;
          cle \<leftarrow> rd_id s (l_callee_id l);
          if memcmp cle callee_id = 0 \<and> l_state l = PICA_CCLINK_N2NCLR_WAITSEARCH then Some (Some c)
          else findwaitsearch_loop s callee_id cs }"

definition cclink_list_findwaitsearch :: "node \<Rightarrow> pid \<Rightarrow> nat option option" where
  "cclink_list_findwaitsearch s callee_id = findwaitsearch_loop s callee_id (cclink_list s)"

fun cclink_search_loop :: "node \<Rightarrow> pid \<Rightarrow> pid \<Rightarrow> nat list \<Rightarrow> nat option option" where
  "cclink_search_loop s caller_id callee_id [] = Some None"
| "cclink_search_loop s caller_id callee_id (c # cs) =
     do { l \<leftarrow> cclinks s c;
          clr \<leftarrow> rd_id s (l_caller_id l);
          if memcmp clr caller_id = 0
          then do { cle \<leftarrow> rd_id s (l_callee_id l);
                    if memcmp cle callee_id = 0 then Some (Some c)
                    else cclink_search_loop s caller_id callee_id cs }
          else cclink_search_loop s caller_id callee_id cs }"

definition cclink_list_search :: "node \<Rightarrow> pid \<Rightarrow> pid \<Rightarrow> nat option option" where
  "cclink_list_search s caller_id callee_id = cclink_search_loop s caller_id callee_id (cclink_list s)"

text \<open>\<open>cclink_list_delete\<close>: sockets are closed for local ends only, buffers are freed.\<close>

definition link_sockets :: "cclink \<Rightarrow> int list" where
  "link_sockets l =
     (if l_p1 l \<noteq> None \<and> l_sck_p1 l \<noteq> -1 then [l_sck_p1 l] else []) @
     (if l_p2 l \<noteq> None \<and> l_sck_p2 l \<noteq> -1 then [l_sck_p2 l] else [])"

definition cclink_list_delete :: "nat \<Rightarrow> node \<Rightarrow> node option" where
  "cclink_list_delete p s =
     do { l \<leftarrow> cclinks s p;
          if l_buf_p1p2 l = FreedBuf \<or> l_buf_p2p1 l = FreedBuf then None
          else Some (s\<lparr>cclink_list := remove1 p (cclink_list s),
                       closed_socks := closed_socks s @ link_sockets l,
                       cclinks := (cclinks s)(p := None),
                       cclink_list_count := cclink_list_count s - 1\<rparr>) }"

fun delete_links_loop :: "(cclink \<Rightarrow> bool) \<Rightarrow> nat list \<Rightarrow> node \<Rightarrow> node option" where
  "delete_links_loop P [] s = Some s"
| "delete_links_loop P (c # cs) s =
     do { l \<leftarrow> cclinks s c;
          s' \<leftarrow> (if P l then cclink_list_delete c s else Some s);
          delete_links_loop P cs s' }"

definition cclink_list_delete_by_client :: "nat \<Rightarrow> node \<Rightarrow> node option" where
  "cclink_list_delete_by_client cl s =
     delete_links_loop (\<lambda>l. l_p1 l = Some cl \<or> l_p2 l = Some cl) (cclink_list s) s"

definition cclink_list_delete_by_nodelink :: "nat \<Rightarrow> node \<Rightarrow> node option" where
  "cclink_list_delete_by_nodelink n s =
     delete_links_loop (\<lambda>l. l_caller_node l = Some n \<or> l_callee_node l = Some n) (cclink_list s) s"

section \<open>Creation\<close>

definition new_cclink :: "nat option \<Rightarrow> nat option \<Rightarrow> int \<Rightarrow> cclink" where
  "new_cclink clr cle t =
     \<lparr>l_state = PICA_CCLINK_UNSET, l_tmst = t, l_p1 = clr, l_p2 = cle,
      l_caller_id = None, l_callee_id = None, l_caller_node = None, l_callee_node = None,
      l_sck_p1 = -1, l_sck_p2 = -1, l_jam_p1p2 = False, l_jam_p2p1 = False,
      l_buf_p1p2 = NullBuf, l_buf_p2p1 = NullBuf, l_buflen_p1p2 = 0, l_buflen_p2p1 = 0,
      l_bufpos_p1p2 = 0, l_bufpos_p2p1 = 0, l_ev_read_p1 = None, l_ev_read_p2 = None,
      l_ev_write_p1 = None, l_ev_write_p2 = None\<rparr>"

definition cclink_list_add :: "nat option \<Rightarrow> nat option \<Rightarrow> node \<Rightarrow> nat option \<times> node" where
  "cclink_list_add clr cle s =
     (let (ok, e) = env_alloc (nenv s); s = s\<lparr>nenv := e\<rparr> in
      if \<not> ok then (None, s)
      else let p = next_ptr s in
        (Some p, s\<lparr>next_ptr := Suc p,
                   cclinks := (cclinks s)(p \<mapsto> new_cclink clr cle (now (nenv s))),
                   cclink_list := cclink_list s @ [p],
                   cclink_list_count := cclink_list_count s + 1\<rparr>))"

definition cclink_list_addlocal :: "nat \<Rightarrow> nat \<Rightarrow> node \<Rightarrow> node option" where
  "cclink_list_addlocal clr cle s =
     (case cclink_list_add (Some clr) (Some cle) s of
        (None, s) \<Rightarrow> Some s
      | (Some p, s) \<Rightarrow>
          upd_cclink p (\<lambda>l. l\<lparr>l_state := PICA_CCLINK_LOCAL_WAITREP, l_caller_id := Some (IdOf clr),
                              l_callee_id := Some (IdOf cle)\<rparr>) s)"

definition cclink_list_addn2nclr :: "nat \<Rightarrow> pid \<Rightarrow> node \<Rightarrow> node option" where
  "cclink_list_addn2nclr clr callee_id s =
     (case cclink_list_add (Some clr) None s of
        (None, s) \<Rightarrow> Some s
      | (Some p, s) \<Rightarrow>
          (let (ok, e) = env_alloc (nenv s) in
           if \<not> ok then None
           else upd_cclink p (\<lambda>l. l\<lparr>l_state := PICA_CCLINK_N2NCLR_WAITSEARCH,
                    l_caller_id := Some (IdOf clr), l_callee_id := Some (IdCopy callee_id)\<rparr>)
                  (s\<lparr>nenv := e\<rparr>)))"

definition cclink_list_addn2ncle :: "pid \<Rightarrow> nat \<Rightarrow> nat \<Rightarrow> node \<Rightarrow> node option" where
  "cclink_list_addn2ncle caller_id caller_node cle s =
     (case cclink_list_add None (Some cle) s of
        (None, s) \<Rightarrow> Some s
      | (Some p, s) \<Rightarrow>
          (let (ok, e) = env_alloc (nenv s) in
           if \<not> ok then None
           else upd_cclink p (\<lambda>l. l\<lparr>l_state := PICA_CCLINK_N2NCLE_WAITREP,
                    l_caller_id := Some (IdCopy caller_id), l_callee_id := Some (IdOf cle),
                    l_caller_node := Some caller_node\<rparr>)
                  (s\<lparr>nenv := e\<rparr>)))"

section \<open>State changes\<close>

definition cclink_attach_remotecle_node :: "nat \<Rightarrow> nat \<Rightarrow> node \<Rightarrow> node option" where
  "cclink_attach_remotecle_node ccl callee_node s =
     upd_cclink ccl (\<lambda>l. if l_state l = PICA_CCLINK_N2NCLR_WAITSEARCH
                         then l\<lparr>l_state := PICA_CCLINK_N2NCLR_WAITREP, l_callee_node := Some callee_node\<rparr>
                         else l) s"

fun waitconn :: "cclink_state \<Rightarrow> cclink_state" where
  "waitconn PICA_CCLINK_LOCAL_WAITREP = PICA_CCLINK_LOCAL_WAITCONNCLE"
| "waitconn PICA_CCLINK_N2NCLR_WAITREP = PICA_CCLINK_N2NCLR_WAITCONNCLR"
| "waitconn PICA_CCLINK_N2NCLE_WAITREP = PICA_CCLINK_N2NCLE_WAITCONNCLE"
| "waitconn st = st"

definition cclink_setwaitconn :: "nat \<Rightarrow> node \<Rightarrow> node option" where
  "cclink_setwaitconn ccl s = upd_cclink ccl (\<lambda>l. l\<lparr>l_state := waitconn (l_state l)\<rparr>) s"

text \<open>
  \<open>cclink_allocbufs\<close>: when only one of the two allocations succeeds the block is freed,
  but the pointer to it stays in the link.
\<close>

definition cclink_allocbufs :: "cclink \<Rightarrow> env \<Rightarrow> bool \<times> cclink \<times> env" where
  "cclink_allocbufs l e =
     (let (ok1, e1) = env_alloc e; (ok2, e2) = env_alloc e1 in
      if ok1 \<and> ok2 then
        (True, l\<lparr>l_buf_p1p2 := Buf (junk e 4096), l_buf_p2p1 := Buf (junk e 4096),
                 l_buflen_p1p2 := 4096, l_buflen_p2p1 := 4096\<rparr>, e2)
      else
        (False, l\<lparr>l_buf_p1p2 := (if ok1 then FreedBuf else NullBuf),
                  l_buf_p2p1 := (if ok2 then FreedBuf else NullBuf)\<rparr>, e2))"

definition alloc_then :: "nat \<Rightarrow> cclink \<Rightarrow> cclink_state \<Rightarrow> node \<Rightarrow> node option" where
  "alloc_then link l st s =
     (let (ok, l', e) = cclink_allocbufs l (nenv s) in
      if ok then Some (s\<lparr>nenv := e, cclinks := (cclinks s)(link \<mapsto> l'\<lparr>l_state := st\<rparr>)\<rparr>)
      else cclink_list_delete link (s\<lparr>nenv := e, cclinks := (cclinks s)(link \<mapsto> l')\<rparr>))"

definition set_newconn :: "nat \<Rightarrow> (newconn \<Rightarrow> newconn) \<Rightarrow> node \<Rightarrow> node option" where
  "set_newconn i f s =
     (if i < length (newconns s) then Some (s\<lparr>newconns := (newconns s)[i := f (newconns s ! i)]\<rparr>) else None)"

definition cclink_setwaitanontlsshutdown :: "nat \<Rightarrow> nat \<Rightarrow> node \<Rightarrow> node option" where
  "cclink_setwaitanontlsshutdown link nc s =
     do { s \<leftarrow> set_newconn nc (\<lambda>n. n\<lparr>n_iconn := Some link, n_state := PICA_NEWCONN_WAITANONTLSSHUTDOWN\<rparr>) s;
          l \<leftarrow> cclinks s link;
          let sck = n_sck (newconns s ! nc);
          case l_state l of
            PICA_CCLINK_LOCAL_WAITCONNCLE \<Rightarrow>
              upd_cclink link (\<lambda>l. l\<lparr>l_sck_p2 := sck, l_state := PICA_CCLINK_LOCAL_WAITCONNCLEANONTLSSHUTDOWN\<rparr>) s
          | PICA_CCLINK_LOCAL_WAITCONNCLR \<Rightarrow>
              alloc_then link (l\<lparr>l_sck_p1 := sck\<rparr>) PICA_CCLINK_LOCAL_WAITCONNCLRANONTLSSHUTDOWN s
          | PICA_CCLINK_N2NCLR_WAITCONNCLR \<Rightarrow>
              alloc_then link (l\<lparr>l_sck_p1 := sck\<rparr>) PICA_CCLINK_N2NCLR_WAITCONNCLRANONTLSSHUTDOWN s
          | PICA_CCLINK_N2NCLE_WAITCONNCLE \<Rightarrow>
              alloc_then link (l\<lparr>l_sck_p2 := sck\<rparr>) PICA_CCLINK_N2NCLE_WAITCONNCLEANONTLSSHUTDOWN s
          | _ \<Rightarrow> Some s }"

definition cclink_activate :: "nat \<Rightarrow> node \<Rightarrow> node option" where
  "cclink_activate ccl s =
     upd_cclink ccl (\<lambda>l. case l_state l of
         PICA_CCLINK_LOCAL_WAITCONNCLEANONTLSSHUTDOWN \<Rightarrow> l\<lparr>l_state := PICA_CCLINK_LOCAL_WAITCONNCLR\<rparr>
       | PICA_CCLINK_LOCAL_WAITCONNCLRANONTLSSHUTDOWN \<Rightarrow>
           l\<lparr>l_state := PICA_CCLINK_LOCAL_ACTIVE, l_ev_read_p1 := Some True, l_ev_read_p2 := Some True,
             l_ev_write_p1 := Some False, l_ev_write_p2 := Some False\<rparr>
       | PICA_CCLINK_N2NCLR_WAITCONNCLRANONTLSSHUTDOWN \<Rightarrow>
           l\<lparr>l_state := PICA_CCLINK_N2NCLR_ACTIVE, l_ev_read_p1 := Some True, l_ev_write_p1 := Some False\<rparr>
       | PICA_CCLINK_N2NCLE_WAITCONNCLEANONTLSSHUTDOWN \<Rightarrow>
           l\<lparr>l_state := PICA_CCLINK_N2NCLE_ACTIVE, l_ev_read_p2 := Some True, l_ev_write_p2 := Some False\<rparr>
       | _ \<Rightarrow> l) s"

definition cclink_sendcleconnected :: "nat \<Rightarrow> node \<Rightarrow> node option" where
  "cclink_sendcleconnected link s =
     do { l \<leftarrow> cclinks s link;
          if l_state l = PICA_CCLINK_LOCAL_WAITCONNCLEANONTLSSHUTDOWN then
            do { p1 \<leftarrow> l_p1 l;
                 cle \<leftarrow> rd_id s (l_callee_id l);
                 (ok, s) \<leftarrow> client_send p1 PICA_PROTO_FOUND PICA_PROTO_FOUND_SIZE cle s;
                 if ok then Some s else cclink_list_delete link s }
          else if l_state l = PICA_CCLINK_N2NCLE_WAITCONNCLEANONTLSSHUTDOWN then
            do { n \<leftarrow> l_caller_node l;
                 clr \<leftarrow> rd_id s (l_caller_id l);
                 cle \<leftarrow> rd_id s (l_callee_id l);
                 (ok, s) \<leftarrow> nodelink_send n PICA_PROTO_N2NALLOW PICA_PROTO_N2NALLOW_SIZE (clr @ cle) s;
                 if ok then Some s else cclink_list_delete link s }
          else Some s }"

end
