(* ===== verification/NodeConn.thy ===== *)
theory NodeConn
  imports NodeCclink
begin

text \<open>
  Connections of the node: the array of new connections (\<open>newconn_*\<close>), the clients
  (\<open>client_list_*\<close>, \<open>client_rbuf_grow\<close>) and the links to other nodes (\<open>nodelink_*\<close>), with
  what each owns: a client its place in the search tree and its links, a node link the
  links that run through it, a new connection the client or link it is about to become.
\<close>

section \<open>Clients\<close>

definition new_client :: "newconn \<Rightarrow> int \<Rightarrow> client" where
  "new_client nc t =
     \<lparr>c_id = replicate PICA_ID_SIZE 0, c_up = None, c_left = None, c_right = None, c_next_multi = None,
      c_sck_comm = n_sck nc, c_addr = n_addr nc, c_r_buf = replicate 4096 0, c_r_pos = 0,
      c_w = empty_wbuf, c_state = PICA_CLSTATE_UNSET, c_tmst = t,
      c_disconnect_ticking = False, c_ev_read = Some False\<rparr>"

text \<open>
  \<open>client_list_addnew\<close>: three allocations (the object, its TLS session, its read
  buffer). When the last one fails the object is freed but stays in the list.
\<close>

definition client_list_addnew :: "newconn \<Rightarrow> node \<Rightarrow> nat option \<times> node" where
  "client_list_addnew nc s =
     (let (ok, e) = env_alloc (nenv s); s = s\<lparr>nenv := e\<rparr> in
      if \<not> ok then (None, s)
      else let (ok, e) = env_alloc (nenv s); s = s\<lparr>nenv := e\<rparr> in
        if \<not> ok then (None, s)
        else
          let p = next_ptr s; s = s\<lparr>next_ptr := Suc p, client_list := client_list s @ [p]\<rparr>;
              (ok, e) = env_alloc (nenv s); s = s\<lparr>nenv := e\<rparr> in
          if \<not> ok then (None, s)
          else (Some p, s\<lparr>clients := (clients s)(p \<mapsto> new_client nc (now (nenv s)))\<rparr>))"

text \<open>Taking a further connection of a user out of the chain of his connections.\<close>

partial_function (option) multi_unlink :: "cheap \<Rightarrow> nat \<Rightarrow> nat \<Rightarrow> cheap option" where
  "multi_unlink h ci q =
     (case h q of
        None \<Rightarrow> None
      | Some c \<Rightarrow>
          if c_next_multi c = Some ci
          then do { d \<leftarrow> h ci; hupd q (\<lambda>x. x\<lparr>c_next_multi := c_next_multi d\<rparr>) h }
          else (case c_next_multi c of None \<Rightarrow> Some h | Some n \<Rightarrow> multi_unlink h ci n))"

definition client_leave_tree :: "nat \<Rightarrow> node \<Rightarrow> node option" where
  "client_leave_tree ci s =
     do { c \<leftarrow> clients s ci;
          r \<leftarrow> client_tree_search (clients s) (client_tree_root s) (c_id c);
          case r of
            None \<Rightarrow> Some s
          | Some q \<Rightarrow>
              if q = ci then
                do { (h, root) \<leftarrow>
                       (if c_next_multi c \<noteq> None
                        then client_tree_replace_multi (clients s) (client_tree_root s) ci
                        else client_tree_remove (clients s) (client_tree_root s) ci);
                     Some (s\<lparr>clients := h, client_tree_root := root\<rparr>) }
              else do { h \<leftarrow> multi_unlink (clients s) ci q; Some (s\<lparr>clients := h\<rparr>) } }"

definition client_list_delete :: "nat \<Rightarrow> node \<Rightarrow> node option" where
  "client_list_delete ci s =
     do { c \<leftarrow> clients s ci;
          s \<leftarrow> client_leave_tree ci (s\<lparr>client_list := remove1 ci (client_list s)\<rparr>);
          s \<leftarrow> cclink_list_delete_by_client ci s;
          Some (s\<lparr>closed_socks := closed_socks s @ [c_sck_comm c], clients := (clients s)(ci := None)\<rparr>) }"

definition client_rbuf_grow :: "nat \<Rightarrow> node \<Rightarrow> (bool \<times> node) option" where
  "client_rbuf_grow p s =
     do { c \<leftarrow> clients s p;
          let (ok, e) = env_alloc (nenv s);
          Some (ok, s\<lparr>nenv := e,
                      clients := (if ok then (clients s)(p \<mapsto> c\<lparr>c_r_buf := c_r_buf c @ junk (nenv s) 4096\<rparr>)
                                  else clients s)\<rparr>) }"

section \<open>New connections\<close>

abbreviation (input) MAX_NEWCONNS :: nat where "MAX_NEWCONNS \<equiv> 64"
abbreviation (input) NEWCONN_BUFSIZE :: nat where "NEWCONN_BUFSIZE \<equiv> 58"
abbreviation (input) NEWCONN_TIMEOUT :: int where "NEWCONN_TIMEOUT \<equiv> 10"

definition empty_newconn :: newconn where
  "empty_newconn =
     \<lparr>n_sck = -1, n_anonssl = False, n_addr = 0, n_port = 0, n_tmst = 0, n_pos = 0,
      n_state = PICA_NEWCONN_UNSET, n_type = NEWCONN_UNKNOWN, n_buf = replicate NEWCONN_BUFSIZE 0,
      n_iconn = None, n_ev = None\<rparr>"

definition newconns_init :: "node \<Rightarrow> node" where
  "newconns_init s = s\<lparr>newconns := replicate MAX_NEWCONNS empty_newconn\<rparr>"

definition newconn_close :: "nat \<Rightarrow> node \<Rightarrow> node option" where
  "newconn_close i s =
     (if i < length (newconns s) then
        let n = newconns s ! i in
        do { s \<leftarrow> set_newconn i (\<lambda>n. n\<lparr>n_ev := None, n_sck := -1, n_pos := 0\<rparr>)
                    (s\<lparr>closed_socks := closed_socks s @ [n_sck n]\<rparr>);
             s \<leftarrow> (case n_iconn n of
                     None \<Rightarrow> Some s
                   | Some p \<Rightarrow>
                       if n_type n = NEWCONN_C2N then client_list_delete p s
                       else if n_type n = NEWCONN_C2C then cclink_list_delete p s
                       else Some s);
             set_newconn i (\<lambda>n. n\<lparr>n_iconn := None, n_anonssl := False, n_type := NEWCONN_UNKNOWN\<rparr>) s }
      else None)"

text \<open>The event of a freed connection is not \<open>NULL\<close>: \<open>event_del\<close> needs it.\<close>

definition newconn_free :: "nat \<Rightarrow> node \<Rightarrow> node option" where
  "newconn_free i s =
     (if i < length (newconns s) \<and> n_ev (newconns s ! i) \<noteq> None
      then set_newconn i (\<lambda>n. n\<lparr>n_sck := -1, n_iconn := None, n_anonssl := False, n_ev := None\<rparr>) s
      else None)"

text \<open>The scan for a free element, which keeps the position of the oldest one.\<close>

fun newconn_scan :: "newconn list \<Rightarrow> nat \<Rightarrow> int \<Rightarrow> nat \<Rightarrow> nat \<times> nat" where
  "newconn_scan [] i mn mp = (i, mp)"
| "newconn_scan (n # ns) i mn mp =
     (if n_sck n \<noteq> -1 then
        (if n_tmst n < mn then newconn_scan ns (Suc i) (n_tmst n) i
         else newconn_scan ns (Suc i) mn mp)
      else (i, mp))"

definition newconn_take :: "nat \<Rightarrow> node \<Rightarrow> (nat \<times> node) option" where
  "newconn_take i s =
     do { s \<leftarrow> set_newconn i (\<lambda>n. n\<lparr>n_sck := -1, n_pos := 0, n_tmst := now (nenv s)\<rparr>) s;
          Some (i, s\<lparr>newconns_pos := Suc i\<rparr>) }"

definition newconn_add :: "node \<Rightarrow> (nat \<times> node) option" where
  "newconn_add s =
     (if newconns_pos s < MAX_NEWCONNS \<and> n_sck (newconns s ! newconns_pos s) = -1
      then newconn_take (newconns_pos s) s
      else let (pos, min_pos) = newconn_scan (newconns s) 0 (n_tmst (newconns s ! 0)) 0 in
        if pos = MAX_NEWCONNS then do { s \<leftarrow> newconn_close min_pos s; newconn_take min_pos s }
        else newconn_take pos s)"

section \<open>Links to other nodes\<close>

definition new_nodelink :: "newconn \<Rightarrow> int \<Rightarrow> nodelink" where
  "new_nodelink nc t =
     \<lparr>k_addr = n_addr nc, k_port = n_port nc, k_sck = n_sck nc, k_addr_type = 0, k_node_addr = None,
      k_r_buf = replicate 4096 0, k_r_pos = 0, k_w = empty_wbuf, k_tmst = t,
      k_disconnect_ticking = False, k_ev_read = Some True\<rparr>"

text \<open>
  \<open>nodelink_list_addnew\<close>; the second result is the new connection, whose TLS session
  moves to the link. As with clients, a failed read buffer leaves the freed object in the
  list.
\<close>

definition nodelink_list_addnew :: "newconn \<Rightarrow> node \<Rightarrow> nat option \<times> newconn \<times> node" where
  "nodelink_list_addnew nc s =
     (let (ok, e) = env_alloc (nenv s); s = s\<lparr>nenv := e\<rparr> in
      if \<not> ok then (None, nc, s)
      else
        let p = next_ptr s; s = s\<lparr>next_ptr := Suc p, nodelink_list := nodelink_list s @ [p]\<rparr>;
            nc' = nc\<lparr>n_anonssl := False\<rparr>;
            (ok, e) = env_alloc (nenv s); s = s\<lparr>nenv := e\<rparr> in
        if \<not> ok then (None, nc', s)
        else (Some p, nc',
              s\<lparr>nodelinks := (nodelinks s)(p \<mapsto> new_nodelink nc (now (nenv s))),
                nodelink_list_count := nodelink_list_count s + 1\<rparr>))"

definition nodelink_list_delete :: "nat \<Rightarrow> node \<Rightarrow> node option" where
  "nodelink_list_delete n s =
     do { k \<leftarrow> nodelinks s n;
          s \<leftarrow> cclink_list_delete_by_nodelink n
                 (s\<lparr>closed_socks := closed_socks s @ [k_sck k], nodelink_list := remove1 n (nodelink_list s)\<rparr>);
          Some (s\<lparr>nodelink_list_count := nodelink_list_count s - 1, nodelinks := (nodelinks s)(n := None)\<rparr>) }"

text \<open>\<open>nodelink_attach_nodeaddr\<close> for the one kind of address the node handles.\<close>

definition nodelink_attach_nodeaddr :: "nat \<Rightarrow> u32 \<Rightarrow> u32 \<times> u16 \<Rightarrow> node \<Rightarrow> (bool \<times> node) option" where
  "nodelink_attach_nodeaddr p addr_type na s =
     do { k \<leftarrow> nodelinks s p;
          let (ok, e) = env_alloc (nenv s);
          let k' = (if ok then k\<lparr>k_node_addr := Some na, k_addr_type := addr_type\<rparr> else k\<lparr>k_node_addr := None\<rparr>);
          Some (ok, s\<lparr>nenv := e, nodelinks := (nodelinks s)(p \<mapsto> k')\<rparr>) }"

definition nodelink_rbuf_grow :: "nat \<Rightarrow> node \<Rightarrow> (bool \<times> node) option" where
  "nodelink_rbuf_grow p s =
     do { k \<leftarrow> nodelinks s p;
          let (ok, e) = env_alloc (nenv s);
          Some (ok, s\<lparr>nenv := e,
                      nodelinks := (if ok then (nodelinks s)(p \<mapsto> k\<lparr>k_r_buf := k_r_buf k @ junk (nenv s) 4096\<rparr>)
                                    else nodelinks s)\<rparr>) }"

fun nodelink_search_loop :: "node \<Rightarrow> u32 \<Rightarrow> u16 \<Rightarrow> nat list \<Rightarrow> nat option option" where
  "nodelink_search_loop s ip port [] = Some None"
| "nodelink_search_loop s ip port (n # ns) =
     do { k \<leftarrow> nodelinks s n;
          if (k_addr k = ip \<and> k_port k = port) \<or>
             (k_addr_type k = PICA_PROTO_NEWNODE_IPV4 \<and> k_node_addr k = Some (ip, port))
          then Some (Some n)
          else nodelink_search_loop s ip port ns }"

definition nodelink_search_by_ipv4addr :: "u32 \<Rightarrow> u16 \<Rightarrow> node \<Rightarrow> nat option option" where
  "nodelink_search_by_ipv4addr ip port s = nodelink_search_loop s ip port (nodelink_list s)"

end
