(* ===== verification/Netconf.thy ===== *)
theory Netconf
  imports Pica_Base
begin

text \<open>
  \<open>PICA_netconf.c\<close>: the test for reserved IPv4 addresses and the choice of the address a
  node listens on. An \<open>in_addr_t\<close> is a 32-bit word in network byte order; on the
  little-endian hosts the code is compiled for its lowest octet is the first one of the
  dotted notation, and \<open>htonl\<close> reverses the octets. The interfaces that \<open>getifaddrs\<close>
  reports are an argument. The autoconfiguration by UPnP is not modelled.
\<close>

unbundle bit_operations_syntax

section \<open>Model\<close>

definition octet :: "nat \<Rightarrow> u32 \<Rightarrow> u32" where
  "octet k w = drop_bit (8 * k) w AND 0xFF"

definition htonl :: "u32 \<Rightarrow> u32" where
  "htonl w = octet 3 w OR push_bit 8 (octet 2 w) OR push_bit 16 (octet 1 w) OR push_bit 24 (octet 0 w)"

definition PREFIX4 :: u32 where "PREFIX4 = htonl 0xf0000000"
definition PREFIX8 :: u32 where "PREFIX8 = htonl 0xff000000"
definition PREFIX12 :: u32 where "PREFIX12 = htonl 0xfff00000"
definition PREFIX16 :: u32 where "PREFIX16 = htonl 0xffff0000"

definition MAKEIP :: "u32 \<Rightarrow> u32 \<Rightarrow> u32 \<Rightarrow> u32 \<Rightarrow> u32" where
  "MAKEIP a b c d = htonl (push_bit 24 (a AND 0xFF) OR push_bit 16 (b AND 0xFF) OR push_bit 8 (c AND 0xFF) OR (d AND 0xFF))"

abbreviation (input) INADDR_ANY :: u32 where "INADDR_ANY \<equiv> 0"
abbreviation (input) INADDR_BROADCAST :: u32 where "INADDR_BROADCAST \<equiv> 0xFFFFFFFF"

definition PICA_is_reserved_addr_ipv4 :: "u32 \<Rightarrow> bool" where
  "PICA_is_reserved_addr_ipv4 addr \<longleftrightarrow>
     addr AND PREFIX8 = 0
     \<or> addr AND PREFIX8 = MAKEIP 10 0 0 0
     \<or> addr AND PREFIX8 = MAKEIP 127 0 0 0
     \<or> addr AND PREFIX16 = MAKEIP 169 254 0 0
     \<or> addr AND PREFIX12 = MAKEIP 172 16 0 0
     \<or> addr AND PREFIX16 = MAKEIP 192 168 0 0
     \<or> addr AND PREFIX4 = MAKEIP 224 0 0 0
     \<or> addr AND PREFIX4 = MAKEIP 240 0 0 0
     \<or> addr = INADDR_BROADCAST"

text \<open>One entry of \<open>getifaddrs\<close>: its IPv4 address (\<open>None\<close> for another family or none at
  all) and the flags the code looks at.\<close>

record ifaddr =
  ifa_addr :: "u32 option"
  ifa_loopback :: bool
  ifa_running :: bool
  ifa_is_up :: bool

definition ifa_usable :: "ifaddr \<Rightarrow> bool" where
  "ifa_usable i \<longleftrightarrow> ifa_addr i \<noteq> None \<and> \<not> ifa_loopback i \<and> ifa_running i \<and> ifa_is_up i"

fun guess_loop :: "ifaddr list \<Rightarrow> u32 \<Rightarrow> bool \<Rightarrow> u32" where
  "guess_loop [] retaddr found_global = retaddr"
| "guess_loop (i # is) retaddr found_global =
     (case ifa_addr i of
        None \<Rightarrow> guess_loop is retaddr found_global
      | Some a \<Rightarrow>
          if ifa_loopback i then guess_loop is retaddr found_global
          else if \<not> (ifa_running i \<and> ifa_is_up i) then guess_loop is retaddr found_global
          else if \<not> found_global then guess_loop is a (\<not> PICA_is_reserved_addr_ipv4 a)
          else guess_loop is retaddr found_global)"

text \<open>\<open>None\<close> is a failure of \<open>getifaddrs\<close>.\<close>

definition PICA_guess_listening_addr_ipv4 :: "ifaddr list option \<Rightarrow> u32" where
  "PICA_guess_listening_addr_ipv4 ifs =
     (case ifs of None \<Rightarrow> INADDR_ANY | Some is \<Rightarrow> guess_loop is INADDR_ANY False)"

text \<open>The dotted notation of an address in network byte order.\<close>

fun nat_digits :: "nat \<Rightarrow> string" where
  "nat_digits n = (if n < 10 then [char_of (48 + n)] else nat_digits (n div 10) @ [char_of (48 + n mod 10)])"

definition inet_ntoa :: "u32 \<Rightarrow> string" where
  "inet_ntoa a =
     (case map (\<lambda>b. nat_digits (unat b)) (put_le 4 (unat a)) of
        [b0, b1, b2, b3] \<Rightarrow> b0 @ ''.'' @ b1 @ ''.'' @ b2 @ ''.'' @ b3
      | _ \<Rightarrow> [])"

section \<open>Dotted addresses\<close>

text \<open>The address \<open>a.b.c.d\<close> as it lies in memory.\<close>

definition ip4 :: "byte \<Rightarrow> byte \<Rightarrow> byte \<Rightarrow> byte \<Rightarrow> u32" where
  "ip4 a b c d = ucast a OR push_bit 8 (ucast b) OR push_bit 16 (ucast c) OR push_bit 24 (ucast d)"

lemma byte_bit: "bit (x :: byte) n \<Longrightarrow> n < 8"
  using bit_imp_le_length [of x n] by simp

lemma bit_ip4:
  "bit (ip4 a b c d) n \<longleftrightarrow>
     (if n < 8 then bit a n else if n < 16 then bit b (n - 8)
      else if n < 24 then bit c (n - 16) else bit d (n - 24))"
proof -
  have *: "bit (ip4 a b c d) n \<longleftrightarrow> bit a n \<or> 8 \<le> n \<and> bit b (n - 8)
      \<or> 16 \<le> n \<and> bit c (n - 16) \<or> 24 \<le> n \<and> bit d (n - 24)"
    by (auto simp: ip4_def bit_or_iff bit_push_bit_iff bit_ucast_iff dest: byte_bit)
  show ?thesis unfolding * by (auto dest: byte_bit)
qed

lemma ip4_and: "ip4 a b c d AND ip4 p q r s = ip4 (a AND p) (b AND q) (c AND r) (d AND s)"
  by (rule bit_word_eqI) (simp add: bit_ip4 bit_and_iff)

lemma ip4_eq_iff: "ip4 a b c d = ip4 p q r s \<longleftrightarrow> a = p \<and> b = q \<and> c = r \<and> d = s"
proof
  assume "ip4 a b c d = ip4 p q r s"
  then have *: "bit (ip4 a b c d) n = bit (ip4 p q r s) n" for n by simp
  have "bit a n = bit p n" "bit b n = bit q n" "bit c n = bit r n" "bit d n = bit s n" if "n < 8" for n
    using that * [of n] * [of "n + 8"] * [of "n + 16"] * [of "n + 24"] by (simp_all add: bit_ip4)
  then show "a = p \<and> b = q \<and> c = r \<and> d = s" by (auto intro!: bit_word_eqI)
qed simp

lemma htonl_consts:
  "PREFIX4 = ip4 0xF0 0 0 0" "PREFIX8 = ip4 0xFF 0 0 0" "PREFIX12 = ip4 0xFF 0xF0 0 0"
  "PREFIX16 = ip4 0xFF 0xFF 0 0" "MAKEIP 10 0 0 0 = ip4 10 0 0 0" "MAKEIP 127 0 0 0 = ip4 127 0 0 0"
  "MAKEIP 169 254 0 0 = ip4 169 254 0 0" "MAKEIP 172 16 0 0 = ip4 172 16 0 0"
  "MAKEIP 192 168 0 0 = ip4 192 168 0 0" "MAKEIP 224 0 0 0 = ip4 224 0 0 0"
  "MAKEIP 240 0 0 0 = ip4 240 0 0 0" "INADDR_BROADCAST = ip4 0xFF 0xFF 0xFF 0xFF"
  by code_simp+

lemma ip4_zero: "ip4 a b c d = 0 \<longleftrightarrow> a = 0 \<and> b = 0 \<and> c = 0 \<and> d = 0"
  using ip4_eq_iff [of a b c d 0 0 0 0] by (simp add: ip4_def)

lemma and_F0: "(x :: byte) AND 0xF0 = push_bit 4 (drop_bit 4 x)"
proof (rule bit_word_eqI)
  fix n assume "n < LENGTH(8)"
  then have "n = 0 \<or> n = 1 \<or> n = 2 \<or> n = 3 \<or> n = 4 \<or> n = 5 \<or> n = 6 \<or> n = 7" by auto
  then show "bit (x AND 0xF0) n = bit (push_bit 4 (drop_bit 4 x)) n"
    by (elim disjE) (simp_all add: bit_and_iff bit_push_bit_iff bit_drop_bit_eq)
qed

lemma unat_and_F0: "unat ((x :: byte) AND 0xF0) = 16 * (unat x div 16)"
proof -
  have "unat x < 256" by (rule order.strict_trans2 [OF unsigned_less]) simp
  moreover have "unat x div 16 * 16 \<le> unat x" by simp
  ultimately have "unat x div 16 * 16 < 256" by linarith
  then show ?thesis
    by (simp add: and_F0 drop_bit_eq_div push_bit_eq_mult unat_word_ariths unat_div)
qed

lemma and_F0_eq:
  "(x :: byte) AND 0xF0 = 0xE0 \<longleftrightarrow> 224 \<le> x \<and> x < 240"
  "(x :: byte) AND 0xF0 = 0xF0 \<longleftrightarrow> 240 \<le> x"
  "(x :: byte) AND 0xF0 = 0x10 \<longleftrightarrow> 16 \<le> x \<and> x < 32"
proof -
  have "unat x < 256" by (rule order.strict_trans2 [OF unsigned_less]) simp
  then show "x AND 0xF0 = 0xE0 \<longleftrightarrow> 224 \<le> x \<and> x < 240" "x AND 0xF0 = 0xF0 \<longleftrightarrow> 240 \<le> x"
    "x AND 0xF0 = 0x10 \<longleftrightarrow> 16 \<le> x \<and> x < 32"
    by (auto simp: word_unat_eq_iff unat_and_F0 word_le_nat_alt word_less_nat_alt)
qed

lemma and_FF: "(x :: byte) AND 0xFF = x"
proof -
  have "(0xFF :: byte) = - 1" by simp
  then show ?thesis by (simp only: and.right_neutral)
qed

section \<open>Properties\<close>

text \<open>C40. An IPv4 address is taken for reserved exactly if it lies in one of the blocks
  0.0.0.0/8, 10.0.0.0/8, 127.0.0.0/8, 169.254.0.0/16, 172.16.0.0/12, 192.168.0.0/16 or is
  at least 224.0.0.0.\<close>

theorem is_reserved_addr_ipv4_correct:
  "PICA_is_reserved_addr_ipv4 (ip4 a b c d) \<longleftrightarrow>
     a = 0 \<or> a = 10 \<or> a = 127 \<or> (a = 169 \<and> b = 254) \<or> (a = 172 \<and> 16 \<le> b \<and> b < 32) \<or>
     (a = 192 \<and> b = 168) \<or> 224 \<le> a"
proof -
  have ge: "224 \<le> a \<longleftrightarrow> 224 \<le> a \<and> a < 240 \<or> 240 \<le> a"
    by (auto simp: word_le_nat_alt word_less_nat_alt)
  have "PICA_is_reserved_addr_ipv4 (ip4 a b c d) \<longleftrightarrow>
     a = 0 \<or> a = 10 \<or> a = 127 \<or> (a = 169 \<and> b = 254) \<or> (a = 172 \<and> 16 \<le> b \<and> b < 32) \<or>
     (a = 192 \<and> b = 168) \<or> (224 \<le> a \<and> a < 240) \<or> 240 \<le> a \<or> (a = 255 \<and> b = 255 \<and> c = 255 \<and> d = 255)"
    unfolding PICA_is_reserved_addr_ipv4_def htonl_consts ip4_and ip4_eq_iff ip4_zero and_FF and_F0_eq
    by simp
  then show ?thesis using ge by auto
qed

lemma guess_loop_found: "guess_loop is a True = a"
  by (induction "is") (auto split: option.splits)

lemma guess_loop_spec:
  "guess_loop is r False =
     (let as = map (\<lambda>i. the (ifa_addr i)) (filter ifa_usable is); gs = filter (\<lambda>a. \<not> PICA_is_reserved_addr_ipv4 a) as in
      if gs \<noteq> [] then hd gs else if as \<noteq> [] then last as else r)"
proof (induction "is" arbitrary: r)
  case (Cons i "is")
  show ?case
  proof (cases "ifa_usable i")
    case True
    then obtain a where a: "ifa_addr i = Some a" by (auto simp: ifa_usable_def)
    have "guess_loop (i # is) r False = guess_loop is a (\<not> PICA_is_reserved_addr_ipv4 a)"
      using True a by (simp add: ifa_usable_def)
    then show ?thesis
      using True a Cons [of a]
      by (cases "PICA_is_reserved_addr_ipv4 a") (simp_all add: guess_loop_found Let_def)
  next
    case False
    then have "guess_loop (i # is) r False = guess_loop is r False"
      by (auto simp: ifa_usable_def split: option.split)
    with False Cons [of r] show ?thesis by simp
  qed
qed simp

text \<open>The listening address is the first usable address of an interface that is not
  reserved; if all usable ones are reserved it is the last of them, and the wildcard
  address if there is none.\<close>

theorem guess_listening_addr_correct:
  "PICA_guess_listening_addr_ipv4 ifs =
     (let as = map (\<lambda>i. the (ifa_addr i)) (filter ifa_usable (case ifs of None \<Rightarrow> [] | Some is \<Rightarrow> is));
          gs = filter (\<lambda>a. \<not> PICA_is_reserved_addr_ipv4 a) as in
      if gs \<noteq> [] then hd gs else if as \<noteq> [] then last as else INADDR_ANY)"
  by (cases ifs) (simp_all add: PICA_guess_listening_addr_ipv4_def guess_loop_spec)

end
