(* ===== verification/Msgproc.thy ===== *)
theory Msgproc
  imports Pica_Proto
begin

text \<open>
  \<open>PICA_msgproc.c\<close>: a connection's read buffer is split into packets by a table of
  message descriptions, and each complete packet is handed to its handler. The handlers
  are functions of the buffer, the packet size and a state; \<open>None\<close> is a handler without a
  defined result.

  \<open>PICA_msggetsize\<close>, \<open>PICA_processmsg\<close> and \<open>PICA_processdatastream\<close> are translated
  line by line, with the buffer as the whole allocated block and the positions as 32-bit
  words. \<open>deliver\<close> is the specification: the pending bytes alone, without the block they
  sit in. The locale \<open>msg_table\<close> states what a table of handlers promises; its lemmas
  are that the buffer code refines the specification and that the result does not depend
  on how the byte stream was cut into reads.
\<close>

section \<open>Model\<close>

abbreviation (input) PICA_MSG_FIXED_SIZE :: u32 where "PICA_MSG_FIXED_SIZE \<equiv> 0"
abbreviation (input) PICA_MSG_VAR_SIZE :: u32 where "PICA_MSG_VAR_SIZE \<equiv> 1"
abbreviation (input) PICA_MSG_VARSIZE_INT8 :: u32 where "PICA_MSG_VARSIZE_INT8 \<equiv> 1"
abbreviation (input) PICA_MSG_VARSIZE_INT16 :: u32 where "PICA_MSG_VARSIZE_INT16 \<equiv> 2"

type_synonym ('a, 's) handler = "byte list \<Rightarrow> u32 \<Rightarrow> 'a \<Rightarrow> 's \<Rightarrow> (u32 \<times> 's) option"

record ('a, 's) PICA_msginfo =
  msgid :: u32
  fixedsz :: u32
  sz :: u32
  msgprocfn :: "('a, 's) handler"

fun msggetsize_loop :: "byte list \<Rightarrow> u32 \<Rightarrow> ('a, 's) PICA_msginfo list \<Rightarrow> u32" where
  "msggetsize_loop buf nb [] = 0"
| "msggetsize_loop buf nb (m # msgs) =
     (if buf ! 0 = ucast (msgid m) then
        (if fixedsz m = PICA_MSG_FIXED_SIZE then sz m
         else if fixedsz m = PICA_MSG_VAR_SIZE then
           (if nb \<ge> sz m + 2
            then 2 + sz m + of_nat (le_nat (take (unat (sz m)) (drop 2 buf)))
            else UINT_MAX)
         else msggetsize_loop buf nb msgs)
      else msggetsize_loop buf nb msgs)"

definition PICA_msggetsize :: "byte list \<Rightarrow> u32 \<Rightarrow> ('a, 's) PICA_msginfo list \<Rightarrow> u32" where
  "PICA_msggetsize buf nb msgs =
     (if nb < 2 then UINT_MAX
      else if buf ! 0 \<noteq> buf ! 1 then 0
      else msggetsize_loop buf nb msgs)"

fun processmsg_loop :: "byte list \<Rightarrow> u32 \<Rightarrow> 'a \<Rightarrow> 's \<Rightarrow> ('a, 's) PICA_msginfo list \<Rightarrow> (u32 \<times> 's) option" where
  "processmsg_loop buf msz arg s [] = Some (0, s)"
| "processmsg_loop buf msz arg s (m # msgs) =
     (if buf ! 0 = ucast (msgid m) then msgprocfn m buf msz arg s
      else processmsg_loop buf msz arg s msgs)"

definition PICA_processmsg :: "byte list \<Rightarrow> u32 \<Rightarrow> 'a \<Rightarrow> 's \<Rightarrow> ('a, 's) PICA_msginfo list \<Rightarrow> (u32 \<times> 's) option" where
  "PICA_processmsg buf msz arg s msgs =
     (if buf ! 0 \<noteq> buf ! 1 then Some (0, s) else processmsg_loop buf msz arg s msgs)"

function PICA_processdatastream ::
  "byte list \<Rightarrow> u32 \<Rightarrow> 'a \<Rightarrow> 's \<Rightarrow> ('a, 's) PICA_msginfo list \<Rightarrow> (u32 \<times> byte list \<times> u32 \<times> 's) option" where
  "PICA_processdatastream buf read_pos arg s msgs =
     (if read_pos = 0 then Some (1, buf, read_pos, s)
      else let uret = PICA_msggetsize buf read_pos msgs in
        if uret = 0 then Some (0, buf, read_pos, s)
        else if uret > read_pos then Some (1, buf, read_pos, s)
        else case PICA_processmsg buf uret arg s msgs of
            None \<Rightarrow> None
          | Some (ret, s') \<Rightarrow>
              if ret = 0 then Some (0, buf, read_pos, s')
              else PICA_processdatastream
                     (memmove_down (unat uret) (unat (read_pos - uret)) buf)
                     (read_pos - uret) arg s' msgs)"
  by pat_completeness auto
termination
proof (relation "measure (\<lambda>(buf, read_pos, arg, s, msgs). unat read_pos)", goal_cases)
  case (2 buf read_pos arg s msgs x xa a b)
  then have "0 < x" "x \<le> read_pos" by (auto simp: word_neq_0_conv)
  then show ?case by (simp add: unat_sub word_less_nat_alt word_le_nat_alt)
qed simp

declare PICA_processdatastream.simps [simp del]

section \<open>Specification\<close>

text \<open>The same on the pending bytes alone: \<open>deliver\<close> returns what is left of them.\<close>

function deliver :: "('a, 's) PICA_msginfo list \<Rightarrow> 'a \<Rightarrow> byte list \<Rightarrow> 's \<Rightarrow> (u32 \<times> byte list \<times> 's) option" where
  "deliver msgs arg bs s =
     (if bs = [] then Some (1, bs, s)
      else let n = unat (PICA_msggetsize bs (of_nat (length bs)) msgs) in
        if n = 0 then Some (0, bs, s)
        else if n > length bs then Some (1, bs, s)
        else case PICA_processmsg (take n bs) (of_nat n) arg s msgs of
            None \<Rightarrow> None
          | Some (ret, s') \<Rightarrow>
              if ret = 0 then Some (0, bs, s') else deliver msgs arg (drop n bs) s')"
  by pat_completeness auto
termination
  by (relation "measure (\<lambda>(msgs, arg, bs, s). length bs)") auto

declare deliver.simps [simp del]

text \<open>The whole run of a connection: the reads arrive one after the other.\<close>

fun deliver_reads :: "('a, 's) PICA_msginfo list \<Rightarrow> 'a \<Rightarrow> byte list \<Rightarrow> byte list list \<Rightarrow> 's \<Rightarrow> (u32 \<times> byte list \<times> 's) option" where
  "deliver_reads msgs arg pend [] s = Some (1, pend, s)"
| "deliver_reads msgs arg pend (r # rs) s =
     (case deliver msgs arg (pend @ r) s of
        None \<Rightarrow> None
      | Some (ret, pend', s') \<Rightarrow>
          if ret = 0 then Some (0, pend', s') else deliver_reads msgs arg pend' rs s')"

text \<open>
  The run of the buffer code over a sequence of reads, the way the event handlers drive it:
  each read lands behind the bytes that are pending and the buffer is processed.
\<close>

fun stream_reads :: "('a, 's) PICA_msginfo list \<Rightarrow> 'a \<Rightarrow> byte list \<Rightarrow> u32 \<Rightarrow> byte list list \<Rightarrow> 's
    \<Rightarrow> (u32 \<times> byte list \<times> u32 \<times> 's) option" where
  "stream_reads msgs arg buf pos [] s = Some (1, buf, pos, s)"
| "stream_reads msgs arg buf pos (r # rs) s =
     (case PICA_processdatastream (take (unat pos) buf @ r) (pos + of_nat (length r)) arg s msgs of
        None \<Rightarrow> None
      | Some (ret, buf', pos', s') \<Rightarrow>
          if ret = 0 then Some (0, buf', pos', s') else stream_reads msgs arg buf' pos' rs s')"

text \<open>The handlers run over a list of packets, until one refuses.\<close>

fun run_handlers :: "('a, 's) PICA_msginfo list \<Rightarrow> 'a \<Rightarrow> byte list list \<Rightarrow> 's \<Rightarrow> (u32 \<times> 's) option" where
  "run_handlers msgs arg [] s = Some (1, s)"
| "run_handlers msgs arg (p # ps) s =
     (case PICA_processmsg p (of_nat (length p)) arg s msgs of
        None \<Rightarrow> None
      | Some (ret, s') \<Rightarrow> if ret = 0 then Some (0, s') else run_handlers msgs arg ps s')"

definition complete_packet :: "('a, 's) PICA_msginfo list \<Rightarrow> byte list \<Rightarrow> bool" where
  "complete_packet msgs p \<longleftrightarrow>
     p \<noteq> [] \<and> length p < 65540 \<and> unat (PICA_msggetsize p (of_nat (length p)) msgs) = length p"

section \<open>Lemmas\<close>

text \<open>
  A table whose handlers look at their own packet only, and whose entries give every
  packet a positive size below the size of a read buffer's index type.
\<close>

definition msg_size_ok :: "('a, 's) PICA_msginfo \<Rightarrow> byte list \<Rightarrow> bool" where
  "msg_size_ok m bs \<longleftrightarrow>
     (fixedsz m = PICA_MSG_FIXED_SIZE \<and> length bs = unat (sz m)) \<or>
     (fixedsz m = PICA_MSG_VAR_SIZE \<and> 4 \<le> length bs \<and> length bs = 4 + le_nat (take 2 (drop 2 bs)))"

definition table_entry_ok :: "('a, 's) PICA_msginfo \<Rightarrow> bool" where
  "table_entry_ok m \<longleftrightarrow>
     (fixedsz m = PICA_MSG_FIXED_SIZE \<and> 2 \<le> sz m \<and> sz m < 65536) \<or>
     (fixedsz m = PICA_MSG_VAR_SIZE \<and> sz m = PICA_MSG_VARSIZE_INT16)"

lemma le_nat_take2_less: "le_nat (take 2 bs) < 65536"
proof -
  have "length (take 2 bs) \<le> 2" by simp
  then have "(256::nat) ^ length (take 2 bs) \<le> 256 ^ 2" by (rule power_increasing) simp
  with le_nat_less [of "take 2 bs"] show ?thesis by simp
qed

lemma msggetsize_short [simp]: "nb < 2 \<Longrightarrow> PICA_msggetsize buf nb msgs = UINT_MAX"
  by (simp add: PICA_msggetsize_def)

text \<open>The size depends on the pending bytes only, not on the rest of the block.\<close>

lemma msggetsize_loop_take:
  assumes "\<forall>m\<in>set msgs. table_entry_ok m" and "2 \<le> nb" and "unat nb \<le> length buf"
  shows "msggetsize_loop (take (unat nb) buf) nb msgs = msggetsize_loop buf nb msgs"
  using assms(1)
proof (induction msgs)
  case (Cons m msgs)
  have n: "2 \<le> unat nb" using assms(2) by (simp add: word_le_nat_alt)
  have hd: "take (unat nb) buf ! 0 = buf ! 0" using n by simp
  have var: "take 2 (drop 2 (take (unat nb) buf)) = take 2 (drop 2 buf)"
    if "nb \<ge> PICA_MSG_VARSIZE_INT16 + 2"
    using that by (simp add: drop_take word_le_nat_alt min_def)
  show ?case using Cons hd var by (auto simp: table_entry_ok_def)
qed simp

lemma msggetsize_take:
  assumes "\<forall>m\<in>set msgs. table_entry_ok m" and "unat nb \<le> length buf"
  shows "PICA_msggetsize (take (unat nb) buf) nb msgs = PICA_msggetsize buf nb msgs"
proof (cases "nb < 2")
  case False
  then have "2 \<le> unat nb" by (simp add: word_less_nat_alt)
  with assms False show ?thesis
    by (simp add: PICA_msggetsize_def msggetsize_loop_take leI)
qed simp

text \<open>
  A packet whose size is known is at most 65539 octets long; \<open>UINT_MAX\<close> only means that
  the size is not known yet.
\<close>

lemma var_size_unat:
  "unat (2 + PICA_MSG_VARSIZE_INT16 + of_nat (le_nat (take 2 bs)) :: u32) = 4 + le_nat (take 2 bs)"
  using le_nat_take2_less [of bs] by (simp add: unat_word_ariths unat_of_nat)

lemma msggetsize_loop_known:
  assumes "\<forall>m\<in>set msgs. table_entry_ok m"
  shows "msggetsize_loop buf nb msgs = UINT_MAX \<or> unat (msggetsize_loop buf nb msgs) \<le> 65539"
  using assms
proof (induction msgs)
  case (Cons m msgs)
  have var: "unat (2 + PICA_MSG_VARSIZE_INT16 + of_nat (le_nat (take 2 (drop 2 buf))) :: u32) \<le> 65539"
    using le_nat_take2_less [of "drop 2 buf"] by (subst var_size_unat) simp
  have fx: "sz m < 65536 \<Longrightarrow> unat (sz m) \<le> 65539" by (simp add: word_less_nat_alt)
  show ?case using Cons var fx by (auto simp: table_entry_ok_def)
qed simp

lemma msggetsize_known:
  assumes "\<forall>m\<in>set msgs. table_entry_ok m"
  shows "PICA_msggetsize buf nb msgs = UINT_MAX \<or> unat (PICA_msggetsize buf nb msgs) \<le> 65539"
  using msggetsize_loop_known [OF assms] by (simp add: PICA_msggetsize_def)

lemma msggetsize_loop_ext:
  assumes "\<forall>m\<in>set msgs. table_entry_ok m" and "2 \<le> nb" "nb \<le> nb'" and "unat nb \<le> length xs"
    and "msggetsize_loop xs nb msgs \<noteq> UINT_MAX"
  shows "msggetsize_loop (xs @ ys) nb' msgs = msggetsize_loop xs nb msgs"
  using assms(1,5)
proof (induction msgs)
  case (Cons m msgs)
  have n: "2 \<le> length xs" using assms(2,4) by (simp add: word_le_nat_alt)
  then have hd: "(xs @ ys) ! 0 = xs ! 0" by (cases xs) auto
  have var: "take 2 (drop 2 (xs @ ys)) = take 2 (drop 2 xs)" if "nb \<ge> PICA_MSG_VARSIZE_INT16 + 2"
    using that assms(4) by (simp add: word_le_nat_alt)
  show ?case
    using Cons hd var assms(3) by (auto simp: table_entry_ok_def split: if_splits)
qed simp

text \<open>Once the size of the first packet is known, more bytes do not change it.\<close>

lemma msggetsize_ext:
  assumes "\<forall>m\<in>set msgs. table_entry_ok m" and "length (xs @ ys) < 2 ^ 32"
    and "PICA_msggetsize xs (of_nat (length xs)) msgs \<noteq> UINT_MAX"
  shows "PICA_msggetsize (xs @ ys) (of_nat (length (xs @ ys))) msgs
       = PICA_msggetsize xs (of_nat (length xs)) msgs"
proof -
  from assms(2) have u: "unat (of_nat (length xs) :: u32) = length xs"
    "unat (of_nat (length (xs @ ys)) :: u32) = length (xs @ ys)"
    by (simp_all only: unat_of_nat take_bit_nat_eq_self) (simp_all add: take_bit_nat_eq_self)
  from assms(3) have ge: "\<not> (of_nat (length xs) :: u32) < 2" by auto
  then have n: "2 \<le> length xs" using u by (simp add: word_less_nat_alt)
  have le: "(of_nat (length xs) :: u32) \<le> of_nat (length (xs @ ys))"
    unfolding word_le_nat_alt u by simp
  have ge': "\<not> (of_nat (length (xs @ ys)) :: u32) < 2"
    unfolding word_less_nat_alt u using n by simp
  from n have hd: "(xs @ ys) ! 0 = xs ! 0" "(xs @ ys) ! 1 = xs ! 1"
    by (auto simp: nth_append)
  have loop: "msggetsize_loop (xs @ ys) (of_nat (length (xs @ ys))) msgs
      = msggetsize_loop xs (of_nat (length xs)) msgs" if "xs ! 0 = xs ! 1"
    using assms(3) that ge
    by (intro msggetsize_loop_ext [OF assms(1) _ le]) (simp_all add: u leI PICA_msggetsize_def)
  show ?thesis
    using ge ge' loop unfolding PICA_msggetsize_def hd by simp
qed

lemma processdatastream_stop:
  "PICA_processdatastream buf 0 arg s msgs = Some (1, buf, 0, s)"
  "pos \<noteq> 0 \<Longrightarrow> PICA_msggetsize buf pos msgs = 0 \<Longrightarrow>
     PICA_processdatastream buf pos arg s msgs = Some (0, buf, pos, s)"
  "pos \<noteq> 0 \<Longrightarrow> PICA_msggetsize buf pos msgs > pos \<Longrightarrow>
     PICA_processdatastream buf pos arg s msgs = Some (1, buf, pos, s)"
  by (subst PICA_processdatastream.simps, auto simp: Let_def)+

lemma processdatastream_go:
  assumes "pos \<noteq> 0" and "PICA_msggetsize buf pos msgs = n" "n \<noteq> 0" "n \<le> pos"
  shows "PICA_processdatastream buf pos arg s msgs =
     (case PICA_processmsg buf n arg s msgs of
        None \<Rightarrow> None
      | Some (ret, s') \<Rightarrow>
          if ret = 0 then Some (0, buf, pos, s')
          else PICA_processdatastream (memmove_down (unat n) (unat (pos - n)) buf) (pos - n) arg s' msgs)"
  using assms by (subst PICA_processdatastream.simps) (auto simp: Let_def dest: leD)

lemma deliver_stop:
  "deliver msgs arg [] s = Some (1, [], s)"
  "bs \<noteq> [] \<Longrightarrow> PICA_msggetsize bs (of_nat (length bs)) msgs = 0 \<Longrightarrow>
     deliver msgs arg bs s = Some (0, bs, s)"
  "bs \<noteq> [] \<Longrightarrow> unat (PICA_msggetsize bs (of_nat (length bs)) msgs) > length bs \<Longrightarrow>
     deliver msgs arg bs s = Some (1, bs, s)"
  by (subst deliver.simps, force)+

lemma deliver_go:
  assumes "bs \<noteq> []" and "unat (PICA_msggetsize bs (of_nat (length bs)) msgs) = n" "n \<noteq> 0" "n \<le> length bs"
  shows "deliver msgs arg bs s =
     (case PICA_processmsg (take n bs) (of_nat n) arg s msgs of
        None \<Rightarrow> None
      | Some (ret, s') \<Rightarrow> if ret = 0 then Some (0, bs, s') else deliver msgs arg (drop n bs) s')"
  using assms by (subst deliver.simps) (auto simp: Let_def not_less)

lemma deliver_cases:
  obtains "bs = []" | "bs \<noteq> []" "PICA_msggetsize bs (of_nat (length bs)) msgs = 0"
  | "bs \<noteq> []" "unat (PICA_msggetsize bs (of_nat (length bs)) msgs) > length bs"
  | n where "bs \<noteq> []" "PICA_msggetsize bs (of_nat (length bs)) msgs = n" "n \<noteq> 0" "unat n \<le> length bs"
  by (meson not_less)

text \<open>
  A packet whose size is known and which is complete has an entry in the table, fits the
  size the entry gives, and is handed to the entry's handler.
\<close>

lemma entry_size:
  assumes "table_entry_ok m" "buf ! 0 = ucast (msgid m)" "msggetsize_loop buf nb (m # l) = n"
    and "n \<noteq> UINT_MAX" "unat n \<le> length buf"
  shows "2 \<le> unat n \<and> msg_size_ok m (take (unat n) buf)"
proof (cases "fixedsz m = PICA_MSG_FIXED_SIZE")
  case True
  with assms(2,3) have "n = sz m" by simp
  with assms True show ?thesis by (auto simp: table_entry_ok_def msg_size_ok_def word_le_nat_alt)
next
  case False
  with assms(1) have v: "fixedsz m = PICA_MSG_VAR_SIZE" "sz m = PICA_MSG_VARSIZE_INT16"
    by (auto simp: table_entry_ok_def)
  with assms(2-4) have n: "n = 2 + PICA_MSG_VARSIZE_INT16 + of_nat (le_nat (take 2 (drop 2 buf)))"
    by (auto split: if_splits)
  have un: "unat n = 4 + le_nat (take 2 (drop 2 buf))" unfolding n by (rule var_size_unat)
  have "take 2 (drop 2 (take (unat n) buf)) = take 2 (drop 2 buf)"
    by (simp add: drop_take un numeral_2_eq_2)
  with v un assms(5) show ?thesis by (auto simp: msg_size_ok_def)
qed

lemma processmsg_loop_entry:
  assumes "\<forall>m\<in>set l. table_entry_ok m" "msggetsize_loop buf nb l = n" "n \<noteq> 0" "n \<noteq> UINT_MAX" "unat n \<le> length buf"
  shows "\<exists>m\<in>set l. buf ! 0 = ucast (msgid m) \<and> 2 \<le> unat n \<and> msg_size_ok m (take (unat n) buf) \<and>
     (\<forall>buf' arg s. buf' ! 0 = buf ! 0 \<longrightarrow> processmsg_loop buf' n arg s l = msgprocfn m buf' n arg s)"
  using assms(1,2)
proof (induction l)
  case (Cons m l)
  show ?case
  proof (cases "buf ! 0 = ucast (msgid m)")
    case True
    with entry_size [OF _ True Cons.prems(2) assms(4,5)] Cons.prems(1) show ?thesis by auto
  next
    case False
    with Cons show ?thesis by auto
  qed
qed (use assms(3) in simp)

lemma processmsg_entry:
  assumes "\<forall>m\<in>set msgs. table_entry_ok m"
    and "PICA_msggetsize buf nb msgs = n" "n \<noteq> 0" "n \<le> nb" "nb < UINT_MAX" "unat nb \<le> length buf"
  shows "\<exists>m\<in>set msgs. buf ! 0 = ucast (msgid m) \<and> 2 \<le> unat n \<and> msg_size_ok m (take (unat n) buf) \<and>
     (\<forall>buf' arg s. buf' ! 0 = buf ! 0 \<longrightarrow> buf' ! 1 = buf ! 1 \<longrightarrow>
        PICA_processmsg buf' n arg s msgs = msgprocfn m buf' n arg s)"
proof -
  have nU: "n \<noteq> UINT_MAX" using assms(4,5) by auto
  then have ge: "\<not> nb < 2" using assms(2) by auto
  have hd: "buf ! 0 = buf ! 1" and loop: "msggetsize_loop buf nb msgs = n"
    using assms(2,3) ge by (auto simp: PICA_msggetsize_def split: if_splits)
  have "unat n \<le> length buf" using assms(4,6) by (simp add: word_le_nat_alt)
  from processmsg_loop_entry [OF assms(1) loop assms(3) nU this] hd show ?thesis
    by (auto simp: PICA_processmsg_def)
qed

text \<open>The size of a complete packet, from its entry.\<close>

lemma size_var:
  assumes "msg_size_ok \<lparr>msgid = i, fixedsz = PICA_MSG_VAR_SIZE, sz = k, msgprocfn = f\<rparr> (take (unat n) buf)"
    and "unat n \<le> length buf"
  shows "\<exists>k. rd16 buf 2 = Some k \<and> unat n = 4 + k"
proof -
  from assms have n: "unat n = 4 + le_nat (take 2 (drop 2 (take (unat n) buf)))" "4 \<le> unat n"
    by (auto simp: msg_size_ok_def)
  then have "take 2 (drop 2 (take (unat n) buf)) = take 2 (drop 2 buf)"
    by (simp add: drop_take min_def)
  with n assms(2) show ?thesis by (simp add: rd16_def)
qed

lemma size_fixed:
  "msg_size_ok \<lparr>msgid = i, fixedsz = PICA_MSG_FIXED_SIZE, sz = k, msgprocfn = f\<rparr> (take (unat n) buf)
     \<Longrightarrow> unat n \<le> length buf \<Longrightarrow> unat n = unat k"
  by (simp add: msg_size_ok_def)

section \<open>Tables of handlers\<close>

text \<open>
  What a table promises to the stream code: every entry has a usable size, and a handler
  reads no byte outside the packet it is given, in a buffer of less than 4 GiB.
\<close>

locale msg_table =
  fixes msgs :: "('a, 's) PICA_msginfo list"
  assumes entry_ok: "m \<in> set msgs \<Longrightarrow> table_entry_ok m"
    and handler_local: "m \<in> set msgs \<Longrightarrow> unat n \<le> length buf \<Longrightarrow> length buf < 2 ^ 32 \<Longrightarrow> msg_size_ok m (take (unat n) buf)
      \<Longrightarrow> msgprocfn m buf n arg s = msgprocfn m (take (unat n) buf) n arg s"
begin

lemma entries_ok: "\<forall>m\<in>set msgs. table_entry_ok m"
  by (simp add: entry_ok)

lemma processmsg_local:
  assumes "PICA_msggetsize buf nb msgs = n" and "n \<noteq> 0" "n \<le> nb" "nb < UINT_MAX" "unat nb \<le> length buf"
    and bnd: "length buf < 2 ^ 32"
  shows "PICA_processmsg buf n arg s msgs = PICA_processmsg (take (unat n) buf) n arg s msgs"
proof -
  from processmsg_entry [OF entries_ok assms(1-5)] obtain m where
    m: "m \<in> set msgs" "2 \<le> unat n" "msg_size_ok m (take (unat n) buf)"
      "\<forall>buf' arg s. buf' ! 0 = buf ! 0 \<longrightarrow> buf' ! 1 = buf ! 1 \<longrightarrow>
         PICA_processmsg buf' n arg s msgs = msgprocfn m buf' n arg s"
    by blast
  have n: "unat n \<le> length buf" using assms(3,5) by (simp add: word_le_nat_alt)
  have "take (unat n) buf ! 0 = buf ! 0" "take (unat n) buf ! 1 = buf ! 1" using m(2) by simp_all
  with m(4) have "PICA_processmsg (take (unat n) buf) n arg s msgs = msgprocfn m (take (unat n) buf) n arg s"
    "PICA_processmsg buf n arg s msgs = msgprocfn m buf n arg s"
    by blast+
  then show ?thesis using handler_local [OF m(1) n bnd m(3), of arg s] by (simp only:)
qed

text \<open>
  Refinement: on a block that holds the pending bytes, \<open>PICA_processdatastream\<close> does
  what \<open>deliver\<close> does on the pending bytes, and stays inside the block.
\<close>

lemma processdatastream_refines:
  assumes "unat read_pos \<le> length buf" and "read_pos < UINT_MAX" and "length buf < 2 ^ 32"
  shows "map_option (\<lambda>(r, buf', pos', s'). (r, take (unat pos') buf', s'))
           (PICA_processdatastream buf read_pos arg s msgs)
       = deliver msgs arg (take (unat read_pos) buf) s"
  using assms
proof (induction "unat read_pos" arbitrary: buf read_pos s rule: less_induct)
  case less
  let ?bs = "take (unat read_pos) buf"
  have len: "length ?bs = unat read_pos" using less.prems by simp
  have n: "PICA_msggetsize ?bs (of_nat (length ?bs)) msgs = PICA_msggetsize buf read_pos msgs"
    unfolding len using less.prems by (simp add: msggetsize_take [OF entries_ok])
  show ?case
  proof (cases rule: deliver_cases [where bs = ?bs and msgs = msgs])
    case (4 n)
    let ?buf' = "memmove_down (unat n) (unat (read_pos - n)) buf"
    have pos: "read_pos \<noteq> 0" and nn: "unat n \<le> unat read_pos" using 4 len by auto
    then have le: "n \<le> read_pos" by (simp add: word_le_nat_alt)
    then have sub: "unat (read_pos - n) = unat read_pos - unat n" by (simp add: unat_sub)
    have sz: "PICA_msggetsize buf read_pos msgs = n" using 4 n by simp
    have loc: "PICA_processmsg buf n arg s msgs = PICA_processmsg (take (unat n) ?bs) n arg s msgs"
      using processmsg_local [OF sz] 4 le less.prems nn by (simp add: min_def)
    have fit: "length ?buf' = length buf" "take (unat (read_pos - n)) ?buf' = drop (unat n) ?bs"
      using less.prems nn by (simp_all add: sub drop_take)
    have dec: "unat (read_pos - n) < unat read_pos"
      using 4(3) pos nn by (simp add: sub unat_gt_0)
    then have "unat (read_pos - n) \<le> length ?buf'" "read_pos - n < UINT_MAX" "length ?buf' < 2 ^ 32"
      using fit less.prems by (auto simp: word_less_nat_alt)
    from less.hyps [OF dec this] show ?thesis
      unfolding processdatastream_go [OF pos sz 4(3) le]
      by (subst deliver_go [OF 4(1) arg_cong [OF 4(2)] _ 4(4)])
        (use 4 loc fit in \<open>auto simp: unat_eq_zero split: option.splits\<close>)
  next
    case 1
    with less.prems have "read_pos = 0" by (auto simp: unat_eq_zero)
    with 1 show ?thesis by (simp add: processdatastream_stop deliver_stop)
  next
    case 2
    then have "read_pos \<noteq> 0" by auto
    with 2 n show ?thesis by (simp add: processdatastream_stop deliver_stop)
  next
    case 3
    then have "read_pos \<noteq> 0" by auto
    with 3 n len show ?thesis by (simp add: processdatastream_stop deliver_stop word_less_nat_alt)
  qed
qed


text \<open>
  Cutting the stream: delivering \<open>xs\<close> first and then \<open>ys\<close> with what was left over
  does what delivering \<open>xs @ ys\<close> does.
\<close>

lemma deliver_append:
  assumes "length (xs @ ys) < 2 ^ 32 - 1"
  shows "deliver msgs arg (xs @ ys) s =
    (case deliver msgs arg xs s of
       None \<Rightarrow> None
     | Some (ret, rest, s') \<Rightarrow>
         if ret = 0 then Some (0, rest @ ys, s') else deliver msgs arg (rest @ ys) s')"
  using assms
proof (induction "length xs" arbitrary: xs s rule: less_induct)
  case less
  have lt: "length (xs @ ys) < 2 ^ 32" using less.prems by simp
  show ?case
  proof (cases rule: deliver_cases [where bs = xs and msgs = msgs])
    case (4 n)
    have "n \<noteq> UINT_MAX" using 4(4) less.prems by auto
    with msggetsize_ext [OF entries_ok lt] 4(2)
    have sz: "unat (PICA_msggetsize (xs @ ys) (of_nat (length (xs @ ys))) msgs) = unat n" by simp
    have dec: "length (drop (unat n) xs) < length xs" using 4 by (simp add: unat_gt_0)
    have ih: "deliver msgs arg (drop (unat n) (xs @ ys)) s' =
      (case deliver msgs arg (drop (unat n) xs) s' of
         None \<Rightarrow> None
       | Some (ret, rest, s') \<Rightarrow>
           if ret = 0 then Some (0, rest @ ys, s') else deliver msgs arg (rest @ ys) s')" for s'
      using less.hyps [OF dec, of s'] less.prems 4(4) by simp
    show ?thesis
      using 4 ih
      by (subst deliver_go [OF _ sz], simp_all add: unat_eq_zero)
        (subst deliver_go [OF 4(1) arg_cong [OF 4(2)] _ 4(4)], auto simp: unat_eq_zero split: option.splits)
  next
    case 2
    then have "PICA_msggetsize (xs @ ys) (of_nat (length (xs @ ys))) msgs = 0"
      using msggetsize_ext [OF entries_ok lt] by simp
    with 2 show ?thesis by (simp add: deliver_stop del: length_append of_nat_add)
  qed (simp_all add: deliver_stop)
qed

lemma deliver_ret: "deliver msgs arg bs s = Some (ret, rest, s') \<Longrightarrow> ret = 0 \<or> ret = 1"
proof (induction "length bs" arbitrary: bs s rule: less_induct)
  case less
  show ?case
  proof (cases rule: deliver_cases [where bs = bs and msgs = msgs])
    case (4 n)
    have "length (drop (unat n) bs) < length bs" using 4 by (simp add: unat_gt_0)
    note ih = less.hyps [OF this]
    have "deliver msgs arg bs s = Some (ret, rest, s')" by fact
    then show ?thesis
      by (subst (asm) deliver_go [OF 4(1) arg_cong [OF 4(2)] _ 4(4)])
        (use 4 ih in \<open>auto simp: unat_eq_zero split: option.splits if_splits\<close>)
  qed (use less.prems in \<open>auto simp: deliver_stop\<close>)
qed

text \<open>What is left over holds no complete packet.\<close>

lemma deliver_rest:
  "deliver msgs arg bs s = Some (1, rest, s') \<Longrightarrow>
     length rest \<le> length bs \<and> deliver msgs arg rest s'' = Some (1, rest, s'')"
proof (induction "length bs" arbitrary: bs s rule: less_induct)
  case less
  show ?case
  proof (cases rule: deliver_cases [where bs = bs and msgs = msgs])
    case (4 n)
    have dec: "length (drop (unat n) bs) < length bs" using 4 by (simp add: unat_gt_0)
    from less.prems obtain t where "deliver msgs arg (drop (unat n) bs) t = Some (1, rest, s')"
      by (subst (asm) deliver_go [OF 4(1) arg_cong [OF 4(2)] _ 4(4)])
        (use 4 in \<open>auto simp: unat_eq_zero split: option.splits if_splits\<close>)
    from less.hyps [OF dec this] dec show ?thesis by simp
  qed (use less.prems in \<open>auto simp: deliver_stop\<close>)
qed

text \<open>Any way of cutting the stream into reads gives the result of one big read.\<close>

lemma deliver_reads_concat:
  assumes "length pend + length (concat rs) < 2 ^ 32 - 1"
    and "deliver msgs arg pend s = Some (1, pend, s)"
  shows "map_option (\<lambda>(r, rest, s'). (r, s')) (deliver_reads msgs arg pend rs s) =
    map_option (\<lambda>(r, rest, s'). (r, s')) (deliver msgs arg (pend @ concat rs) s)"
  using assms
proof (induction rs arbitrary: pend s)
  case (Cons r rs)
  have "length ((pend @ r) @ concat rs) < 2 ^ 32 - 1" using Cons.prems by simp
  note app = deliver_append [OF this, where arg = arg and s = s]
  show ?case
  proof (cases "deliver msgs arg (pend @ r) s")
    case (Some x)
    obtain ret pend' s' where x: "x = (ret, pend', s')" by (cases x)
    show ?thesis
    proof (cases "ret = 0")
      case False
      with Some x have "deliver msgs arg (pend @ r) s = Some (1, pend', s')"
        using deliver_ret by blast
      note rest = deliver_rest [OF this]
      have "length pend' + length (concat rs) < 2 ^ 32 - 1"
        using conjunct1 [OF rest] Cons.prems(1) by simp
      from Cons.IH [OF this conjunct2 [OF rest]] False Some x app show ?thesis by simp
    qed (use Some x app in simp)
  qed (use app in simp)
qed simp


lemma processdatastream_left:
  assumes "unat pos \<le> length buf" "pos < UINT_MAX"
    and "PICA_processdatastream buf pos arg s msgs = Some (r, buf', pos', s')"
  shows "length buf' = length buf \<and> unat pos' \<le> unat pos"
  using assms
proof (induction "unat pos" arbitrary: buf pos s rule: less_induct)
  case less
  let ?n = "PICA_msggetsize buf pos msgs"
  show ?case
  proof (cases "pos = 0 \<or> ?n = 0 \<or> ?n > pos")
    case True
    then show ?thesis
      using less.prems(3) processdatastream_stop(1) [of buf arg s msgs]
        processdatastream_stop(2,3) [of pos buf msgs arg s] by (cases "pos = 0") auto
  next
    case False
    then have n: "pos \<noteq> 0" "?n \<noteq> 0" "?n \<le> pos" by auto
    then have sub: "unat (pos - ?n) = unat pos - unat ?n" "0 < unat ?n" "unat ?n \<le> unat pos"
      by (simp_all add: unat_sub word_le_nat_alt unat_gt_0)
    let ?b = "memmove_down (unat ?n) (unat (pos - ?n)) buf"
    have b: "length ?b = length buf" using less.prems(1) sub by simp
    have dec: "unat (pos - ?n) < unat pos" "unat (pos - ?n) \<le> length ?b" "pos - ?n < UINT_MAX"
      using sub b less.prems by (simp_all add: word_less_nat_alt)
    from less.prems(3) n have "buf' = buf \<and> pos' = pos \<or> (\<exists>t. PICA_processdatastream ?b (pos - ?n) arg t msgs = Some (r, buf', pos', s'))"
      unfolding processdatastream_go [OF n(1) refl n(2,3)] by (auto split: option.splits if_splits)
    then show ?thesis
    proof (elim disjE exE)
      fix t
      assume "PICA_processdatastream ?b (pos - ?n) arg t msgs = Some (r, buf', pos', s')"
      from less.hyps [OF dec this] b sub(1) show ?thesis by linarith
    qed simp
  qed
qed

lemma stream_reads_deliver:
  assumes "unat pos + length (concat rs) < 2 ^ 32 - 1" "unat pos \<le> length buf"
  shows "map_option (\<lambda>(r, b, q, s'). (r, take (unat q) b, s')) (stream_reads msgs arg buf pos rs s) =
    deliver_reads msgs arg (take (unat pos) buf) rs s"
  using assms
proof (induction rs arbitrary: buf pos s)
  case (Cons r rs)
  let ?b = "take (unat pos) buf @ r" and ?p = "pos + of_nat (length r)"
  have p: "unat ?p = unat pos + length r" using Cons.prems by (simp add: unat_word_ariths unat_of_nat take_bit_nat_eq_self)
  then have l: "unat ?p \<le> length ?b" "?p < UINT_MAX" using Cons.prems by (simp_all add: word_less_nat_alt)
  have "length ?b < 2 ^ 32" using Cons.prems by simp
  note ref = processdatastream_refines [OF l this, where arg = arg and s = s]
  show ?case
  proof (cases "PICA_processdatastream ?b ?p arg s msgs")
    case None
    with ref p Cons.prems show ?thesis by simp
  next
    case (Some x)
    obtain ret b' p' s' where x: "x = (ret, b', p', s')" by (metis prod_cases4)
    from processdatastream_left [OF l Some [unfolded x]] have b': "length b' = length ?b" "unat p' \<le> unat ?p"
      by blast+
    have "unat p' + length (concat rs) < 2 ^ 32 - 1" using b'(2) Cons.prems(1) p by simp
    moreover have "unat p' \<le> length b'" using b' l(1) by linarith
    ultimately have "unat p' + length (concat rs) < 2 ^ 32 - 1" "unat p' \<le> length b'" by blast+
    note ih = Cons.IH [OF this, of s']
    have "deliver msgs arg (take (unat pos) buf @ r) s = Some (ret, take (unat p') b', s')"
      using ref Some x p Cons.prems(2) by (simp add: take_all)
    with ih Some x show ?thesis by simp
  qed
qed simp

text \<open>The event handlers see the same messages however the bytes arrive.\<close>

lemma stream_reads_concat:
  assumes "length (concat rs) < 2 ^ 32 - 1"
  shows "map_option (\<lambda>(r, b, q, s'). (r, s')) (stream_reads msgs arg [] 0 rs s) =
    map_option (\<lambda>(r, b, q, s'). (r, s')) (PICA_processdatastream (concat rs) (of_nat (length (concat rs))) arg s msgs)"
proof -
  let ?f = "map_option (\<lambda>(r :: u32, rest :: byte list, s'). (r, s'))"
  let ?l = "of_nat (length (concat rs)) :: u32"
  have l: "unat ?l = length (concat rs)" using assms by (simp add: unat_of_nat take_bit_nat_eq_self)
  then have "unat ?l \<le> length (concat rs)" "?l < UINT_MAX" using assms by (simp_all add: word_less_nat_alt)
  moreover have "length (concat rs) < 2 ^ 32" using assms by simp
  ultimately have ref: "map_option (\<lambda>(r, buf', pos', s'). (r, take (unat pos') buf', s'))
      (PICA_processdatastream (concat rs) ?l arg s msgs) = deliver msgs arg (take (unat ?l) (concat rs)) s"
    by (rule processdatastream_refines)
  have "deliver msgs arg [] s = Some (1, [], s)" by (simp add: deliver_stop)
  then have "?f (deliver_reads msgs arg [] rs s) = ?f (deliver msgs arg (concat rs) s)"
    using deliver_reads_concat [of "[]" rs arg s] assms by simp
  moreover have "map_option (\<lambda>(r, b, q, s'). (r, take (unat q) b, s')) (stream_reads msgs arg [] 0 rs s) =
      deliver_reads msgs arg [] rs s"
    using stream_reads_deliver [of 0 rs "[]" arg s] assms by simp
  moreover have "map_option (\<lambda>(r, b, q, s'). (r, take (unat q) b, s'))
      (PICA_processdatastream (concat rs) ?l arg s msgs) = deliver msgs arg (concat rs) s"
    using ref l by simp
  moreover have "?f (map_option (\<lambda>(r, b, q, s'). (r, take (unat q) b, s')) x) = map_option (\<lambda>(r, b, q, s'). (r, s')) x"
    for x :: "(u32 \<times> byte list \<times> u32 \<times> 's) option" by (cases x) auto
  ultimately show ?thesis by metis
qed

text \<open>Every packet of a stream reaches its handler once, in order.\<close>

lemma deliver_packets:
  assumes "\<forall>p\<in>set ps. complete_packet msgs p" and "length (concat ps) < 2 ^ 32 - 1"
  shows "map_option (\<lambda>(r, rest, s'). (r, s')) (deliver msgs arg (concat ps) s) = run_handlers msgs arg ps s"
  using assms
proof (induction ps arbitrary: s)
  case (Cons p ps)
  then have p: "p \<noteq> []" "unat (PICA_msggetsize p (of_nat (length p)) msgs) = length p" "length p < 65540"
    by (auto simp: complete_packet_def)
  have "PICA_msggetsize p (of_nat (length p)) msgs \<noteq> UINT_MAX"
    using p(2,3) by auto
  then have "unat (PICA_msggetsize (p @ concat ps) (of_nat (length (p @ concat ps))) msgs) = length p"
    using msggetsize_ext [OF entries_ok, of p "concat ps"] Cons.prems(2) p(2) by simp
  note go = deliver_go [OF _ this, where arg = arg and s = s]
  show ?case
    using go p Cons by (auto split: option.splits)
qed (simp add: deliver_stop)

lemma stream_reads_packets:
  assumes "\<forall>p\<in>set ps. complete_packet msgs p" and "concat rs = concat ps" "length (concat ps) < 2 ^ 32 - 1"
  shows "map_option (\<lambda>(r, b, q, s'). (r, s')) (stream_reads msgs arg [] 0 rs s) = run_handlers msgs arg ps s"
proof -
  have pre: "deliver msgs arg [] s = Some (1, [], s)" by (simp add: deliver_stop)
  have "map_option (\<lambda>(r, rest, s'). (r, s')) (deliver_reads msgs arg [] rs s) = run_handlers msgs arg ps s"
    using deliver_reads_concat [OF _ pre, of rs] deliver_packets [OF assms(1,3), of arg s] assms(2,3) by simp
  moreover have "map_option (\<lambda>(r, b, q, s'). (r, take (unat q) b, s')) (stream_reads msgs arg [] 0 rs s) =
      deliver_reads msgs arg [] rs s"
    using stream_reads_deliver [of 0 rs "[]" arg s] assms by simp
  moreover have "map_option (\<lambda>(r, rest, s'). (r, s')) (map_option (\<lambda>(r, b, q, s'). (r, take (unat q) b, s')) x)
      = map_option (\<lambda>(r, b, q, s'). (r, s')) x"
    for x :: "(u32 \<times> byte list \<times> u32 \<times> 's) option" by (cases x) auto
  ultimately show ?thesis by metis
qed

end

section \<open>Safe tables\<close>

text \<open>
  A table whose handlers never fault on a complete packet and keep an invariant: then a
  whole read is processed without a fault, inside the buffer, and the invariant is kept.
\<close>

locale safe_table =
  fixes msgs :: "('a, 's) PICA_msginfo list" and inv :: "'a \<Rightarrow> 's \<Rightarrow> bool"
  assumes entry_ok: "m \<in> set msgs \<Longrightarrow> table_entry_ok m"
    and handler_safe: "m \<in> set msgs \<Longrightarrow> inv arg s \<Longrightarrow> unat n \<le> length buf \<Longrightarrow> 2 \<le> unat n
      \<Longrightarrow> msg_size_ok m (take (unat n) buf) \<Longrightarrow> buf ! 0 = ucast (msgid m)
      \<Longrightarrow> \<exists>r s'. msgprocfn m buf n arg s = Some (r, s') \<and> inv arg s'"
begin

lemma processmsg_safe:
  assumes "inv arg s" "PICA_msggetsize buf nb msgs = n" "n \<noteq> 0" "n \<le> nb" "nb < UINT_MAX" "unat nb \<le> length buf"
  shows "\<exists>r s'. PICA_processmsg buf n arg s msgs = Some (r, s') \<and> inv arg s'"
proof -
  have "\<forall>m\<in>set msgs. table_entry_ok m" by (simp add: entry_ok)
  from processmsg_entry [OF this assms(2-6)] obtain m where
    m: "m \<in> set msgs" "buf ! 0 = ucast (msgid m)" "2 \<le> unat n" "msg_size_ok m (take (unat n) buf)"
      "PICA_processmsg buf n arg s msgs = msgprocfn m buf n arg s"
    by blast
  have "unat n \<le> length buf" using assms(4,6) by (simp add: word_le_nat_alt)
  from handler_safe [OF m(1) assms(1) this m(3,4,2)] m(5) show ?thesis by simp
qed

lemma stream_safe:
  assumes "inv arg s" "unat pos \<le> length buf" "pos < UINT_MAX"
  shows "\<exists>r buf' pos' s'. PICA_processdatastream buf pos arg s msgs = Some (r, buf', pos', s') \<and>
     inv arg s' \<and> length buf' = length buf \<and> pos' \<le> pos"
  using assms
proof (induction "unat pos" arbitrary: buf pos s rule: less_induct)
  case less
  show ?case
  proof (cases "pos = 0 \<or> PICA_msggetsize buf pos msgs = 0 \<or> PICA_msggetsize buf pos msgs > pos")
    case True
    then show ?thesis using less.prems by (cases "pos = 0") (auto simp: processdatastream_stop)
  next
    case False
    define n where "n = PICA_msggetsize buf pos msgs"
    have n: "PICA_msggetsize buf pos msgs = n" "n \<noteq> 0" "n \<le> pos" "pos \<noteq> 0" using False by (auto simp: n_def)
    from processmsg_safe [OF less.prems(1) n(1-3) less.prems(3,2)] obtain r s1 where
      1: "PICA_processmsg buf n arg s msgs = Some (r, s1)" "inv arg s1" by blast
    have sub: "unat (pos - n) = unat pos - unat n" "unat n \<le> unat pos"
      using n(3) by (simp_all add: unat_sub word_le_nat_alt)
    have dec: "unat (pos - n) < unat pos" using sub n by (simp add: unat_gt_0)
    let ?b = "memmove_down (unat n) (unat (pos - n)) buf"
    have b: "length ?b = length buf" using sub less.prems(2) by simp
    have "unat (pos - n) \<le> length ?b" "pos - n < UINT_MAX"
      using b dec less.prems by (auto simp: word_less_nat_alt)
    from less.hyps [OF dec 1(2) this] b have "\<exists>r buf' pos' s'.
        PICA_processdatastream ?b (pos - n) arg s1 msgs = Some (r, buf', pos', s') \<and>
        inv arg s' \<and> length buf' = length buf \<and> pos' \<le> pos - n" by simp
    moreover have "pos - n \<le> pos" using sub by (simp add: word_le_nat_alt)
    ultimately show ?thesis
      using 1 processdatastream_go [OF n(4) n(1) n(2,3), of arg s]
      by (cases "r = 0") (auto intro: order.trans)
  qed
qed

end

end
