(* ===== verification/NodeHandlers.thy ===== *)
theory NodeHandlers
  imports NodeConn Netconf Msgproc
begin

text \<open>
  The message handlers of the node (\<open>procmsg_*\<close> of \<open>PICA_node.c\<close>) and the four tables
  that dispatch to them. A handler gets the read buffer from the packet on, the size of
  the packet and the connection it came from (the index of a new connection, the pointer
  of a client or of a node link); it returns 0 to have the connection closed.
\<close>

section \<open>New connections\<close>

definition procmsg_INITREQ :: "byte list \<Rightarrow> u32 \<Rightarrow> nat \<Rightarrow> node \<Rightarrow> (u32 \<times> node) option" where
  "procmsg_INITREQ buf msz nc s =
     do { s \<leftarrow> set_newconn nc (\<lambda>n. n\<lparr>n_type := NEWCONN_C2N\<rparr>) s;
          b2 \<leftarrow> rd8 buf 2; b3 \<leftarrow> rd8 buf 3;
          if b2 = PICA_PROTO_VER_HIGH \<and> b3 = PICA_PROTO_VER_LOW then
            (case client_list_addnew (newconns s ! nc) s of
               (None, s) \<Rightarrow> Some (0, s)
             | (Some c, s) \<Rightarrow>
                 do { s \<leftarrow> upd_client c (\<lambda>x. x\<lparr>c_state := PICA_CLSTATE_WAITANONTLSSHUTDOWN\<rparr>) s;
                      s \<leftarrow> set_newconn nc (\<lambda>n. n\<lparr>n_iconn := Some c, n_state := PICA_NEWCONN_SENDINGOK\<rparr>) s;
                      Some (1, s) })
          else do { s \<leftarrow> set_newconn nc (\<lambda>n. n\<lparr>n_state := PICA_NEWCONN_SENDINGREJECT\<rparr>) s; Some (1, s) } }"

definition procmsg_CONNID :: "byte list \<Rightarrow> u32 \<Rightarrow> nat \<Rightarrow> node \<Rightarrow> (u32 \<times> node) option" where
  "procmsg_CONNID buf msz nc s =
     do { s \<leftarrow> set_newconn nc (\<lambda>n. n\<lparr>n_type := NEWCONN_C2C\<rparr>) s;
          caller_id \<leftarrow> rd_bytes buf 2 PICA_ID_SIZE;
          callee_id \<leftarrow> rd_bytes buf (2 + PICA_ID_SIZE) PICA_ID_SIZE;
          r \<leftarrow> cclink_list_search s caller_id callee_id;
          case r of
            None \<Rightarrow> Some (0, s)
          | Some link \<Rightarrow>
              do { l \<leftarrow> cclinks s link;
                   if l_state l \<notin> {PICA_CCLINK_LOCAL_WAITCONNCLE, PICA_CCLINK_LOCAL_WAITCONNCLR,
                                   PICA_CCLINK_N2NCLR_WAITCONNCLR, PICA_CCLINK_N2NCLE_WAITCONNCLE}
                   then Some (0, s)
                   else
                     do { c \<leftarrow> deref (clients s)
                              (if l_state l = PICA_CCLINK_LOCAL_WAITCONNCLE \<or> l_state l = PICA_CCLINK_N2NCLE_WAITCONNCLE
                               then l_p2 l else l_p1 l);
                          if n_addr (newconns s ! nc) \<noteq> c_addr c then Some (0, s)
                          else do { s \<leftarrow> cclink_setwaitanontlsshutdown link nc s; Some (1, s) } } } }"

definition procmsg_NODECONNREQ :: "byte list \<Rightarrow> u32 \<Rightarrow> nat \<Rightarrow> node \<Rightarrow> (u32 \<times> node) option" where
  "procmsg_NODECONNREQ buf msz nc s =
     do { s \<leftarrow> set_newconn nc (\<lambda>n. n\<lparr>n_type := NEWCONN_N2N\<rparr>) s;
          b2 \<leftarrow> rd8 buf 2; b3 \<leftarrow> rd8 buf 3;
          s \<leftarrow> set_newconn nc (\<lambda>n. n\<lparr>n_state :=
                  (if b2 = PICA_PROTO_VER_HIGH \<and> b3 = PICA_PROTO_VER_LOW
                   then PICA_NEWCONN_SENDINGOK else PICA_NEWCONN_SENDINGREJECT)\<rparr>) s;
          Some (1, s) }"

section \<open>Sending to every node\<close>

text \<open>\<open>LISTMAP\<close> over the node links.\<close>

fun listmap :: "(nat \<Rightarrow> node \<Rightarrow> node option) \<Rightarrow> nat list \<Rightarrow> node \<Rightarrow> node option" where
  "listmap f [] s = Some s"
| "listmap f (p # ps) s = do { s \<leftarrow> f p s; listmap f ps s }"

definition mapfunc_sendmultilogin :: "byte list \<Rightarrow> nat \<Rightarrow> node \<Rightarrow> node option" where
  "mapfunc_sendmultilogin msgbuf p s =
     do { payload_size \<leftarrow> rd16 msgbuf 2;
          tail \<leftarrow> rd_bytes msgbuf 2 (payload_size + 2);
          (ok, s) \<leftarrow> nodelink_send p PICA_PROTO_MULTILOGIN (of_nat (payload_size + 4)) tail s;
          Some s }"

definition mapfunc_sendsearchreq :: "pid \<Rightarrow> nat \<Rightarrow> node \<Rightarrow> node option" where
  "mapfunc_sendsearchreq uid p s =
     do { (ok, s) \<leftarrow> nodelink_send p PICA_PROTO_SEARCH PICA_PROTO_SEARCH_SIZE uid s; Some s }"

definition nodelink_send_searchreq :: "pid \<Rightarrow> node \<Rightarrow> (bool \<times> node) option" where
  "nodelink_send_searchreq uid s =
     (if nodelink_list_count s = 0 then Some (False, s)
      else do { s \<leftarrow> listmap (mapfunc_sendsearchreq uid) (nodelink_list s) s; Some (True, s) })"

section \<open>Clients\<close>

definition procmsg_CONNREQOUTG :: "byte list \<Rightarrow> u32 \<Rightarrow> nat \<Rightarrow> node \<Rightarrow> (u32 \<times> node) option" where
  "procmsg_CONNREQOUTG buf msz i s =
     do { callee_id \<leftarrow> rd_bytes buf 2 PICA_ID_SIZE;
          ic \<leftarrow> clients s i;
          r \<leftarrow> client_tree_search (clients s) (client_tree_root s) callee_id;
          case r of
            Some o' \<Rightarrow>
              do { dup \<leftarrow> cclink_list_search s (c_id ic) callee_id;
                   if dup \<noteq> None then Some (1, s)
                   else if memcmp (c_id ic) callee_id = 0 then Some (1, s)
                   else
                     do { (ok, s) \<leftarrow> client_send o' PICA_PROTO_CONNREQINC PICA_PROTO_CONNREQINC_SIZE (c_id ic) s;
                          if ok then
                            do { s \<leftarrow> cclink_list_addlocal i o' s;
                                 s \<leftarrow> upd_client o' (\<lambda>c. c\<lparr>c_tmst := now (nenv s), c_disconnect_ticking := True\<rparr>) s;
                                 Some (1, s) }
                          else Some (1, s) } }
          | None \<Rightarrow>
              do { w \<leftarrow> cclink_list_findwaitsearch s callee_id;
                   (searching, s) \<leftarrow> (if w \<noteq> None then Some (True, s) else nodelink_send_searchreq callee_id s);
                   if searching then do { s \<leftarrow> cclink_list_addn2nclr i callee_id s; Some (1, s) }
                   else
                     do { (ok, s) \<leftarrow> client_send i PICA_PROTO_NOTFOUND PICA_PROTO_NOTFOUND_SIZE callee_id s;
                          Some (1, s) } } }"

definition procmsg_CONNALLOW :: "byte list \<Rightarrow> u32 \<Rightarrow> nat \<Rightarrow> node \<Rightarrow> (u32 \<times> node) option" where
  "procmsg_CONNALLOW buf msz callee s =
     do { caller_id \<leftarrow> rd_bytes buf 2 PICA_ID_SIZE;
          s \<leftarrow> upd_client callee (\<lambda>c. c\<lparr>c_disconnect_ticking := False, c_tmst := now (nenv s)\<rparr>) s;
          c \<leftarrow> clients s callee;
          r \<leftarrow> cclink_list_search s caller_id (c_id c);
          case r of
            None \<Rightarrow> Some (0, s)
          | Some link \<Rightarrow>
              do { l \<leftarrow> cclinks s link;
                   if l_state l \<noteq> PICA_CCLINK_LOCAL_WAITREP \<and> l_state l \<noteq> PICA_CCLINK_N2NCLE_WAITREP
                   then Some (0, s)
                   else do { s \<leftarrow> cclink_setwaitconn link s; Some (1, s) } } }"

definition procmsg_CONNDENY :: "byte list \<Rightarrow> u32 \<Rightarrow> nat \<Rightarrow> node \<Rightarrow> (u32 \<times> node) option" where
  "procmsg_CONNDENY buf msz callee s =
     do { caller_id \<leftarrow> rd_bytes buf 2 PICA_ID_SIZE;
          s \<leftarrow> upd_client callee (\<lambda>c. c\<lparr>c_disconnect_ticking := False, c_tmst := now (nenv s)\<rparr>) s;
          c \<leftarrow> clients s callee;
          r \<leftarrow> cclink_list_search s caller_id (c_id c);
          case r of
            None \<Rightarrow> Some (0, s)
          | Some link \<Rightarrow>
              do { l \<leftarrow> cclinks s link;
                   if l_state l = PICA_CCLINK_LOCAL_WAITREP then
                     do { caller \<leftarrow> l_p1 l;
                          (ok, s) \<leftarrow> client_send caller PICA_PROTO_NOTFOUND PICA_PROTO_NOTFOUND_SIZE (c_id c) s;
                          s \<leftarrow> cclink_list_delete link s;
                          Some (1, s) }
                   else if l_state l = PICA_CCLINK_N2NCLE_WAITREP then
                     do { n \<leftarrow> l_caller_node l;
                          (ok, s) \<leftarrow> nodelink_send n PICA_PROTO_N2NNOTFOUND PICA_PROTO_N2NNOTFOUND_SIZE
                                      (caller_id @ c_id c) s;
                          s \<leftarrow> cclink_list_delete link s;
                          Some (1, s) }
                   else do { s \<leftarrow> cclink_list_delete link s; Some (0, s) } } }"

text \<open>A push whose tail is two random octets.\<close>

definition client_send_rand :: "nat \<Rightarrow> u32 \<Rightarrow> u32 \<Rightarrow> node \<Rightarrow> (bool \<times> node) option" where
  "client_send_rand p i msz s =
     do { (ok, s') \<leftarrow> client_send p i msz (fst (RAND_pseudo_bytes 2 (nenv s))) s;
          Some (ok, if ok then s'\<lparr>nenv := snd (RAND_pseudo_bytes 2 (nenv s'))\<rparr> else s') }"

definition nodelink_send_rand :: "nat \<Rightarrow> u32 \<Rightarrow> u32 \<Rightarrow> node \<Rightarrow> (bool \<times> node) option" where
  "nodelink_send_rand p i msz s =
     do { (ok, s') \<leftarrow> nodelink_send p i msz (fst (RAND_pseudo_bytes 2 (nenv s))) s;
          Some (ok, if ok then s'\<lparr>nenv := snd (RAND_pseudo_bytes 2 (nenv s'))\<rparr> else s') }"

definition procmsg_PINGREQ_client :: "byte list \<Rightarrow> u32 \<Rightarrow> nat \<Rightarrow> node \<Rightarrow> (u32 \<times> node) option" where
  "procmsg_PINGREQ_client buf msz c s =
     do { (ok, s) \<leftarrow> client_send_rand c PICA_PROTO_PINGREP PICA_PROTO_PINGREP_SIZE s;
          Some (if ok then 1 else 0, s) }"

definition procmsg_PINGREP_client :: "byte list \<Rightarrow> u32 \<Rightarrow> nat \<Rightarrow> node \<Rightarrow> (u32 \<times> node) option" where
  "procmsg_PINGREP_client buf msz c s =
     do { s \<leftarrow> upd_client c (\<lambda>x. x\<lparr>c_disconnect_ticking := False, c_tmst := now (nenv s)\<rparr>) s;
          Some (1, s) }"

text \<open>The chain of a user's connections; \<open>skip\<close> is the one that is not sent to.\<close>

partial_function (option) relay_multi ::
  "nat option \<Rightarrow> u32 \<Rightarrow> byte list \<Rightarrow> nat option \<Rightarrow> node \<Rightarrow> node option" where
  "relay_multi skip msz tail q s =
     (case q of
        None \<Rightarrow> Some s
      | Some p \<Rightarrow>
          do { s \<leftarrow> (if skip = Some p then Some s
                     else do { (ok, s) \<leftarrow> client_send p PICA_PROTO_MULTILOGIN msz tail s; Some s });
               c \<leftarrow> clients s p;
               relay_multi skip msz tail (c_next_multi c) s })"

definition procmsg_MULTILOGIN_client :: "byte list \<Rightarrow> u32 \<Rightarrow> nat \<Rightarrow> node \<Rightarrow> (u32 \<times> node) option" where
  "procmsg_MULTILOGIN_client buf msz me s =
     do { c \<leftarrow> clients s me;
          other \<leftarrow> client_tree_search (clients s) (client_tree_root s) (c_id c);
          tail \<leftarrow> rd_bytes buf 2 (unat (msz - 2));
          s \<leftarrow> relay_multi (Some me) msz tail other s;
          s \<leftarrow> listmap (mapfunc_sendmultilogin buf) (nodelink_list s) s;
          Some (1, s) }"

definition procmsg_dummy_multi_c2n :: "byte list \<Rightarrow> u32 \<Rightarrow> nat \<Rightarrow> node \<Rightarrow> (u32 \<times> node) option" where
  "procmsg_dummy_multi_c2n buf msz p s = Some (1, s)"

section \<open>Nodes\<close>

text \<open>
  \<open>PICA_signverify\<close> with the public key of a client's certificate is a parameter: the
  client, the signed blocks, the memory at the signature and its length.
\<close>

type_synonym verifier = "nat \<Rightarrow> byte list list \<Rightarrow> byte list \<Rightarrow> u64 \<Rightarrow> bool"

fun multilogin_find :: "verifier \<Rightarrow> byte list \<Rightarrow> nat \<Rightarrow> nat \<Rightarrow> node \<Rightarrow> nat list \<Rightarrow> nat option option" where
  "multilogin_find verify buf payload_len addrlen s [] = Some None"
| "multilogin_find verify buf payload_len addrlen s (p # ps) =
     do { c \<leftarrow> clients s p;
          if c_state c = PICA_CLSTATE_CONNECTED then
            do { tmst \<leftarrow> rd_bytes buf 4 8;
                 na \<leftarrow> rd_bytes buf 12 addrlen;
                 if verify p [c_id c, tmst, na] (drop (12 + addrlen) buf)
                      (of_nat payload_len - 8 - of_nat addrlen)
                 then Some (Some p)
                 else multilogin_find verify buf payload_len addrlen s ps }
          else multilogin_find verify buf payload_len addrlen s ps }"

definition procmsg_MULTILOGIN_node :: "verifier \<Rightarrow> byte list \<Rightarrow> u32 \<Rightarrow> nat \<Rightarrow> node \<Rightarrow> (u32 \<times> node) option" where
  "procmsg_MULTILOGIN_node verify buf msz n s =
     do { payload_len \<leftarrow> rd16 buf 2;
          if payload_len \<le> 8 + PICA_PROTO_NODELIST_ITEM_IPV4_SIZE then Some (0, s)
          else
            do { ty \<leftarrow> rd8 buf 12;
                 if ty \<noteq> ucast PICA_PROTO_NEWNODE_IPV4 \<and> ty \<noteq> ucast PICA_PROTO_NEWNODE_IPV6 then Some (1, s)
                 else
                   do { c \<leftarrow> multilogin_find verify buf payload_len
                               (if ty = ucast PICA_PROTO_NEWNODE_IPV4 then PICA_PROTO_NODELIST_ITEM_IPV4_SIZE
                                else PICA_PROTO_NODELIST_ITEM_IPV6_SIZE) s (client_list s);
                        tail \<leftarrow> rd_bytes buf 2 (unat (msz - 2));
                        s \<leftarrow> relay_multi None msz tail c s;
                        Some (1, s) } } }"

definition procmsg_PINGREQ_node :: "byte list \<Rightarrow> u32 \<Rightarrow> nat \<Rightarrow> node \<Rightarrow> (u32 \<times> node) option" where
  "procmsg_PINGREQ_node buf msz n s =
     do { (ok, s) \<leftarrow> nodelink_send_rand n PICA_PROTO_PINGREP PICA_PROTO_PINGREP_SIZE s;
          Some (if ok then 1 else 0, s) }"

definition procmsg_PINGREP_node :: "byte list \<Rightarrow> u32 \<Rightarrow> nat \<Rightarrow> node \<Rightarrow> (u32 \<times> node) option" where
  "procmsg_PINGREP_node buf msz n s =
     do { s \<leftarrow> upd_nodelink n (\<lambda>x. x\<lparr>k_disconnect_ticking := False, k_tmst := now (nenv s)\<rparr>) s;
          Some (1, s) }"

text \<open>An IPv4 address and a port, both in network byte order, as they lie in memory.\<close>

definition put_na :: "u32 \<Rightarrow> u16 \<Rightarrow> byte list" where
  "put_na addr port = put_le 4 (unat addr) @ put_le 2 (unat port)"

definition rd_na :: "byte list \<Rightarrow> nat \<Rightarrow> (u32 \<times> u16) option" where
  "rd_na buf i =
     do { a \<leftarrow> rd_bytes buf i 4; p \<leftarrow> rd_bytes buf (i + 4) 2;
          Some (of_nat (le_nat a), of_nat (le_nat p)) }"

definition procmsg_NODERESP :: "byte list \<Rightarrow> u32 \<Rightarrow> nat \<Rightarrow> node \<Rightarrow> (u32 \<times> node) option" where
  "procmsg_NODERESP buf msz n s =
     do { b0 \<leftarrow> rd8 buf 0; b2 \<leftarrow> rd8 buf 2; b3 \<leftarrow> rd8 buf 3;
          if b0 = ucast PICA_PROTO_INITRESPOK then
            (if b2 \<noteq> 0x4F \<or> b3 \<noteq> 0x4B then Some (0, s)
             else
               do { (ok, s) \<leftarrow> nodelink_send n PICA_PROTO_NEWNODE_IPV4 PICA_PROTO_NEWNODE_IPV4_SIZE
                                (put_na (announced_addr s) (listen_port s)) s;
                    if \<not> ok then Some (0, s)
                    else
                      do { (ok, s) \<leftarrow> nodelink_send_rand n PICA_PROTO_NODELISTREQ PICA_PROTO_NODELISTREQ_SIZE s;
                           Some (if ok then 1 else 0, s) } })
          else if b0 = ucast PICA_PROTO_VERDIFFER then Some (0, s)
          else Some (1, s) }"

text \<open>Only \<open>PICA_PROTO_NEWNODE_IPV4\<close> is dispatched here; the database is \<open>saved_addrs\<close>.\<close>

definition procmsg_NEWNODE :: "byte list \<Rightarrow> u32 \<Rightarrow> nat \<Rightarrow> node \<Rightarrow> (u32 \<times> node) option" where
  "procmsg_NEWNODE buf msz n s =
     do { na \<leftarrow> rd_na buf 2;
          r \<leftarrow> nodelink_search_by_ipv4addr (fst na) (snd na) s;
          if r \<noteq> None then Some (0, s)
          else if disable_reserved_addrs s \<and> PICA_is_reserved_addr_ipv4 (fst na) then Some (0, s)
          else
            do { (ok, s) \<leftarrow> nodelink_attach_nodeaddr n PICA_PROTO_NEWNODE_IPV4 na s;
                 Some (1, s\<lparr>saved_addrs := saved_addrs s @ [na]\<rparr>) } }"

definition nl_item :: "u32 \<times> u16 \<Rightarrow> byte list" where
  "nl_item na = ucast PICA_PROTO_NEWNODE_IPV4 # put_na (fst na) (snd na)"

text \<open>The loop over the node links; \<open>req\<close> is the requesting link of a node's request.\<close>

fun nodelist_loop :: "node \<Rightarrow> nat option \<Rightarrow> byte list \<Rightarrow> nat list \<Rightarrow> byte list option" where
  "nodelist_loop s req acc [] = Some acc"
| "nodelist_loop s req acc (p # ps) =
     (if length acc < 65532 then
        do { k \<leftarrow> nodelinks s p;
             if k_addr_type k = PICA_PROTO_NEWNODE_IPV4 then
               do { na \<leftarrow> k_node_addr k;
                    own \<leftarrow> (case req of
                              None \<Rightarrow> Some False
                            | Some n \<Rightarrow> do { kn \<leftarrow> nodelinks s n; nna \<leftarrow> k_node_addr kn; Some (na = nna) });
                    nodelist_loop s req (if own then acc else acc @ nl_item na) ps }
             else nodelist_loop s req acc ps }
      else Some acc)"

definition procmsg_NODELISTREQ :: "byte list \<Rightarrow> u32 \<Rightarrow> nat \<Rightarrow> node \<Rightarrow> (u32 \<times> node) option" where
  "procmsg_NODELISTREQ buf msz p s =
     do { b0 \<leftarrow> rd8 buf 0;
          let from_node = (b0 = ucast PICA_PROTO_NODELISTREQ);
          let (ok, e) = env_alloc (nenv s);
          let s = s\<lparr>nenv := e\<rparr>;
          if \<not> ok then Some (0, s)
          else
            do { nl \<leftarrow> nodelist_loop s (if from_node then Some p else None)
                        (nl_item (my_addr s, listen_port s)) (nodelink_list s);
                 (ok, s) \<leftarrow>
                   (if from_node
                    then nodelink_send p PICA_PROTO_NODELIST (of_nat (length nl) + 4) (put16 (length nl) @ nl) s
                    else client_send p PICA_PROTO_CLNODELIST (of_nat (length nl) + 4) (put16 (length nl) @ nl) s);
                 Some (1, s) } }"

text \<open>
  \<open>procmsg_NODELIST\<close>: the loop ends when the 32-bit counter \<open>listleft\<close> is zero; an item
  of another type leaves it as it is.
\<close>

partial_function (option) nodelist_read ::
  "byte list \<Rightarrow> u32 \<Rightarrow> nat \<Rightarrow> u32 \<Rightarrow> node \<Rightarrow> node option" where
  "nodelist_read buf msz n listleft s =
     (if listleft = 0 then Some s
      else
        do { ty \<leftarrow> rd8 buf (unat (msz - listleft));
             if ty = ucast PICA_PROTO_NEWNODE_IPV4 then
               do { na \<leftarrow> rd_na buf (unat (msz - listleft) + 1);
                    s \<leftarrow> (if listleft = msz - 4
                          then do { (ok, s) \<leftarrow> nodelink_attach_nodeaddr n PICA_PROTO_NEWNODE_IPV4 na s; Some s }
                          else if disable_reserved_addrs s \<and> PICA_is_reserved_addr_ipv4 (fst na) then Some s
                          else Some (s\<lparr>saved_addrs := saved_addrs s @ [na]\<rparr>));
                    nodelist_read buf msz n (listleft - of_nat PICA_PROTO_NODELIST_ITEM_IPV4_SIZE) s }
             else nodelist_read buf msz n listleft s })"

definition procmsg_NODELIST :: "byte list \<Rightarrow> u32 \<Rightarrow> nat \<Rightarrow> node \<Rightarrow> (u32 \<times> node) option" where
  "procmsg_NODELIST buf msz n s =
     do { s \<leftarrow> nodelist_read buf msz n (msz - 2 - PICA_MSG_VARSIZE_INT16) s; Some (1, s) }"

partial_function (option) n2nfound_loop :: "pid \<Rightarrow> nat \<Rightarrow> node \<Rightarrow> node option" where
  "n2nfound_loop callee_id n s =
     do { r \<leftarrow> cclink_list_findwaitsearch s callee_id;
          case r of
            None \<Rightarrow> Some s
          | Some cc \<Rightarrow>
              do { s \<leftarrow> cclink_attach_remotecle_node cc n s;
                   l \<leftarrow> cclinks s cc;
                   clr \<leftarrow> rd_id s (l_caller_id l);
                   (ok, s) \<leftarrow> nodelink_send n PICA_PROTO_N2NCONNREQOUTG PICA_PROTO_N2NCONNREQOUTG_SIZE
                               (clr @ callee_id) s;
                   n2nfound_loop callee_id n s } }"

definition procmsg_N2NFOUND :: "byte list \<Rightarrow> u32 \<Rightarrow> nat \<Rightarrow> node \<Rightarrow> (u32 \<times> node) option" where
  "procmsg_N2NFOUND buf msz n s =
     do { callee_id \<leftarrow> rd_bytes buf 2 PICA_ID_SIZE; s \<leftarrow> n2nfound_loop callee_id n s; Some (1, s) }"

definition procmsg_SEARCH :: "byte list \<Rightarrow> u32 \<Rightarrow> nat \<Rightarrow> node \<Rightarrow> (u32 \<times> node) option" where
  "procmsg_SEARCH buf msz n s =
     do { callee_id \<leftarrow> rd_bytes buf 2 PICA_ID_SIZE;
          r \<leftarrow> client_tree_search (clients s) (client_tree_root s) callee_id;
          if r \<noteq> None then
            do { (ok, s) \<leftarrow> nodelink_send n PICA_PROTO_N2NFOUND PICA_PROTO_N2NFOUND_SIZE callee_id s; Some (1, s) }
          else Some (1, s) }"

definition procmsg_N2NCONNREQOUTG :: "byte list \<Rightarrow> u32 \<Rightarrow> nat \<Rightarrow> node \<Rightarrow> (u32 \<times> node) option" where
  "procmsg_N2NCONNREQOUTG buf msz n s =
     do { caller_id \<leftarrow> rd_bytes buf 2 PICA_ID_SIZE;
          callee_id \<leftarrow> rd_bytes buf (2 + PICA_ID_SIZE) PICA_ID_SIZE;
          r \<leftarrow> client_tree_search (clients s) (client_tree_root s) callee_id;
          case r of
            Some callee \<Rightarrow>
              do { (ok, s) \<leftarrow> client_send callee PICA_PROTO_CONNREQINC PICA_PROTO_CONNREQINC_SIZE caller_id s;
                   s \<leftarrow> (if ok then cclink_list_addn2ncle caller_id n callee s else Some s);
                   Some (1, s) }
          | None \<Rightarrow>
              do { (ok, s) \<leftarrow> nodelink_send n PICA_PROTO_N2NNOTFOUND PICA_PROTO_N2NNOTFOUND_SIZE
                               (caller_id @ callee_id) s;
                   Some (1, s) } }"

definition procmsg_N2NALLOW :: "byte list \<Rightarrow> u32 \<Rightarrow> nat \<Rightarrow> node \<Rightarrow> (u32 \<times> node) option" where
  "procmsg_N2NALLOW buf msz n s =
     do { caller_id \<leftarrow> rd_bytes buf 2 PICA_ID_SIZE;
          callee_id \<leftarrow> rd_bytes buf (2 + PICA_ID_SIZE) PICA_ID_SIZE;
          r \<leftarrow> cclink_list_search s caller_id callee_id;
          case r of
            None \<Rightarrow> Some (1, s)
          | Some cc \<Rightarrow>
              do { l \<leftarrow> cclinks s cc;
                   p1 \<leftarrow> l_p1 l;
                   (ok, s) \<leftarrow> client_send p1 PICA_PROTO_FOUND PICA_PROTO_FOUND_SIZE callee_id s;
                   s \<leftarrow> (if ok then cclink_setwaitconn cc s else Some s);
                   Some (1, s) } }"

definition procmsg_N2NNOTFOUND :: "byte list \<Rightarrow> u32 \<Rightarrow> nat \<Rightarrow> node \<Rightarrow> (u32 \<times> node) option" where
  "procmsg_N2NNOTFOUND buf msz n s =
     do { caller_id \<leftarrow> rd_bytes buf 2 PICA_ID_SIZE;
          callee_id \<leftarrow> rd_bytes buf (2 + PICA_ID_SIZE) PICA_ID_SIZE;
          r \<leftarrow> cclink_list_search s caller_id callee_id;
          case r of
            None \<Rightarrow> Some (1, s)
          | Some cc \<Rightarrow>
              do { l \<leftarrow> cclinks s cc;
                   p1 \<leftarrow> l_p1 l;
                   (ok, s) \<leftarrow> client_send p1 PICA_PROTO_NOTFOUND PICA_PROTO_NOTFOUND_SIZE callee_id s;
                   s \<leftarrow> cclink_list_delete cc s;
                   Some (1, s) } }"

text \<open>Storing the payload of an N2NMSG in a link's buffer; a full buffer ends the link.\<close>

fun buf_append :: "bufptr \<Rightarrow> nat \<Rightarrow> byte list \<Rightarrow> bufptr option" where
  "buf_append (Buf m) pos bs = (if pos + length bs \<le> length m then Some (Buf (blit pos bs m)) else None)"
| "buf_append b pos bs = None"

definition procmsg_N2NMSG :: "byte list \<Rightarrow> u32 \<Rightarrow> nat \<Rightarrow> node \<Rightarrow> (u32 \<times> node) option" where
  "procmsg_N2NMSG buf msz n s =
     do { len \<leftarrow> rd16 buf 2;
          if len < 2 * PICA_ID_SIZE then Some (0, s)
          else
            do { sender_id \<leftarrow> rd_bytes buf 4 PICA_ID_SIZE;
                 receiver_id \<leftarrow> rd_bytes buf (4 + PICA_ID_SIZE) PICA_ID_SIZE;
                 bs \<leftarrow> rd_bytes buf (4 + 2 * PICA_ID_SIZE) (len - 2 * PICA_ID_SIZE);
                 r1 \<leftarrow> cclink_list_search s sender_id receiver_id;
                 case Option.bind r1 (\<lambda>cc. Option.bind (cclinks s cc) (\<lambda>l. 
                        if l_state l = PICA_CCLINK_N2NCLE_ACTIVE then Some (cc, l) else None)) of
                   Some (cc, l) \<Rightarrow>
                     if length bs + l_bufpos_p1p2 l > l_buflen_p1p2 l
                     then do { s \<leftarrow> cclink_list_delete cc s; Some (1, s) }
                     else
                       do { b \<leftarrow> buf_append (l_buf_p1p2 l) (l_bufpos_p1p2 l) bs;
                            s \<leftarrow> upd_cclink cc (\<lambda>l. l\<lparr>l_buf_p1p2 := b,
                                    l_bufpos_p1p2 := l_bufpos_p1p2 l + length bs\<rparr>) s;
                            Some (1, s) }
                 | None \<Rightarrow>
                     do { r2 \<leftarrow> cclink_list_search s receiver_id sender_id;
                          case Option.bind r2 (\<lambda>cc. Option.bind (cclinks s cc) (\<lambda>l. 
                                 if l_state l = PICA_CCLINK_N2NCLR_ACTIVE then Some (cc, l) else None)) of
                            Some (cc, l) \<Rightarrow>
                              if length bs + l_bufpos_p2p1 l > l_buflen_p2p1 l
                              then do { s \<leftarrow> cclink_list_delete cc s; Some (1, s) }
                              else
                                do { b \<leftarrow> buf_append (l_buf_p2p1 l) (l_bufpos_p2p1 l) bs;
                                     s \<leftarrow> upd_cclink cc (\<lambda>l. l\<lparr>l_buf_p2p1 := b,
                                             l_bufpos_p2p1 := l_bufpos_p2p1 l + length bs\<rparr>) s;
                                     Some (1, s) }
                          | None \<Rightarrow>
                              do { (ok, s) \<leftarrow> nodelink_send n PICA_PROTO_N2NNOTFOUND PICA_PROTO_N2NNOTFOUND_SIZE
                                               (sender_id @ receiver_id) s;
                                   Some (1, s) } } } }"

section \<open>Dispatch tables\<close>

abbreviation (input) fixed_msg ::
  "u32 \<Rightarrow> u32 \<Rightarrow> ('a, 's) handler \<Rightarrow> ('a, 's) PICA_msginfo" where
  "fixed_msg i n f \<equiv> \<lparr>msgid = i, fixedsz = PICA_MSG_FIXED_SIZE, sz = n, msgprocfn = f\<rparr>"

abbreviation (input) var_msg :: "u32 \<Rightarrow> ('a, 's) handler \<Rightarrow> ('a, 's) PICA_msginfo" where
  "var_msg i f \<equiv> \<lparr>msgid = i, fixedsz = PICA_MSG_VAR_SIZE, sz = PICA_MSG_VARSIZE_INT16, msgprocfn = f\<rparr>"

definition msginfo_comm :: "(nat, node) PICA_msginfo list" where
  "msginfo_comm =
     [fixed_msg PICA_PROTO_CONNREQOUTG PICA_PROTO_CONNREQOUTG_SIZE procmsg_CONNREQOUTG,
      fixed_msg PICA_PROTO_CONNALLOW PICA_PROTO_CONNALLOW_SIZE procmsg_CONNALLOW,
      fixed_msg PICA_PROTO_CONNDENY PICA_PROTO_CONNDENY_SIZE procmsg_CONNDENY,
      fixed_msg PICA_PROTO_CLNODELISTREQ PICA_PROTO_CLNODELISTREQ_SIZE procmsg_NODELISTREQ,
      fixed_msg PICA_PROTO_PINGREQ PICA_PROTO_PINGREQ_SIZE procmsg_PINGREQ_client,
      fixed_msg PICA_PROTO_PINGREP PICA_PROTO_PINGREP_SIZE procmsg_PINGREP_client,
      var_msg PICA_PROTO_MULTILOGIN procmsg_MULTILOGIN_client]"

definition msginfo_node :: "verifier \<Rightarrow> (nat, node) PICA_msginfo list" where
  "msginfo_node verify =
     [fixed_msg PICA_PROTO_INITRESPOK PICA_PROTO_INITRESPOK_SIZE procmsg_NODERESP,
      fixed_msg PICA_PROTO_VERDIFFER PICA_PROTO_VERDIFFER_SIZE procmsg_NODERESP,
      fixed_msg PICA_PROTO_NEWNODE_IPV4 PICA_PROTO_NEWNODE_IPV4_SIZE procmsg_NEWNODE,
      fixed_msg PICA_PROTO_NODELISTREQ PICA_PROTO_NODELISTREQ_SIZE procmsg_NODELISTREQ,
      var_msg PICA_PROTO_NODELIST procmsg_NODELIST,
      fixed_msg PICA_PROTO_SEARCH PICA_PROTO_SEARCH_SIZE procmsg_SEARCH,
      fixed_msg PICA_PROTO_N2NFOUND PICA_PROTO_N2NFOUND_SIZE procmsg_N2NFOUND,
      var_msg PICA_PROTO_N2NFOUNDCACHE procmsg_N2NFOUND,
      fixed_msg PICA_PROTO_N2NCONNREQOUTG PICA_PROTO_N2NCONNREQOUTG_SIZE procmsg_N2NCONNREQOUTG,
      fixed_msg PICA_PROTO_N2NALLOW PICA_PROTO_N2NALLOW_SIZE procmsg_N2NALLOW,
      fixed_msg PICA_PROTO_N2NNOTFOUND PICA_PROTO_N2NNOTFOUND_SIZE procmsg_N2NNOTFOUND,
      var_msg PICA_PROTO_N2NMSG procmsg_N2NMSG,
      fixed_msg PICA_PROTO_PINGREQ PICA_PROTO_PINGREQ_SIZE procmsg_PINGREQ_node,
      fixed_msg PICA_PROTO_PINGREP PICA_PROTO_PINGREP_SIZE procmsg_PINGREP_node,
      var_msg PICA_PROTO_MULTILOGIN (procmsg_MULTILOGIN_node verify)]"

definition msginfo_newconn :: "(nat, node) PICA_msginfo list" where
  "msginfo_newconn =
     [fixed_msg PICA_PROTO_INITREQ PICA_PROTO_INITREQ_SIZE procmsg_INITREQ,
      fixed_msg PICA_PROTO_CONNID PICA_PROTO_CONNID_SIZE procmsg_CONNID,
      fixed_msg PICA_PROTO_NODECONNREQ PICA_PROTO_NODECONNREQ_SIZE procmsg_NODECONNREQ]"

definition msginfo_multi :: "(nat, node) PICA_msginfo list" where
  "msginfo_multi =
     [fixed_msg PICA_PROTO_CONNREQOUTG PICA_PROTO_CONNREQOUTG_SIZE procmsg_dummy_multi_c2n,
      fixed_msg PICA_PROTO_CONNALLOW PICA_PROTO_CONNALLOW_SIZE procmsg_dummy_multi_c2n,
      fixed_msg PICA_PROTO_CONNDENY PICA_PROTO_CONNDENY_SIZE procmsg_dummy_multi_c2n,
      fixed_msg PICA_PROTO_CLNODELISTREQ PICA_PROTO_CLNODELISTREQ_SIZE procmsg_NODELISTREQ,
      fixed_msg PICA_PROTO_PINGREQ PICA_PROTO_PINGREQ_SIZE procmsg_PINGREQ_client,
      fixed_msg PICA_PROTO_PINGREP PICA_PROTO_PINGREP_SIZE procmsg_PINGREP_client,
      var_msg PICA_PROTO_MULTILOGIN procmsg_MULTILOGIN_client]"

end
