(* ===== verification/NodeEvents.thy ===== *)
theory NodeEvents
  imports NodeHandlers
begin

text \<open>
  The event handlers of the node (\<open>process_*\<close> of \<open>PICA_node.c\<close>): what happens when a
  socket becomes readable or writable and when the one-second timer fires. The results
  of the TLS and socket calls are arguments: a positive \<open>SSL_read\<close> or \<open>recv\<close> is the
  bytes it delivered, everything else a return value with its error.
\<close>

section \<open>TLS results\<close>

datatype ssl_data = SslData "byte list" | SslFail int ssl_error

definition process_async_ssl_readwrite :: "int \<Rightarrow> ssl_error \<Rightarrow> bool" where
  "process_async_ssl_readwrite ret err =
     (if ret = 0 then False
      else if ret < 0 then err = SSL_ERROR_WANT_WRITE \<or> err = SSL_ERROR_WANT_READ
      else True)"

section \<open>New connections\<close>

definition process_newconn_write :: "nat \<Rightarrow> int \<times> ssl_error \<Rightarrow> node \<Rightarrow> node option" where
  "process_newconn_write nc wr s =
     (let (ret, err) = wr in
      case n_state (newconns s ! nc) of
        PICA_NEWCONN_SENDINGOK \<Rightarrow>
          if ret < 0 \<and> process_async_ssl_readwrite ret err then Some s
          else if ret \<le> 0 then newconn_close nc s
          else if ret = 4 then
            (if n_type (newconns s ! nc) = NEWCONN_N2N then
               (let (r, n', s) = nodelink_list_addnew (newconns s ! nc) s in
                do { s \<leftarrow> set_newconn nc (\<lambda>_. n') s;
                     s \<leftarrow> (if r = None then newconn_close nc s else Some s);
                     newconn_free nc s })
             else set_newconn nc (\<lambda>n. n\<lparr>n_state := PICA_NEWCONN_WAITANONTLSSHUTDOWN\<rparr>) s)
          else Some s
      | PICA_NEWCONN_SENDINGREJECT \<Rightarrow>
          if ret < 0 \<and> process_async_ssl_readwrite ret err then Some s
          else newconn_close nc s
      | _ \<Rightarrow> Some s)"

record newconn_io =
  io_accept :: "int \<times> ssl_error"
  io_read :: ssl_data
  io_shutdown :: "int \<times> ssl_error"
  io_write :: "int \<times> ssl_error"

definition newconn_read_request :: "nat \<Rightarrow> ssl_data \<Rightarrow> node \<Rightarrow> node option" where
  "newconn_read_request nc rd s =
     (case rd of
        SslFail ret err \<Rightarrow>
          if ret < 0 \<and> process_async_ssl_readwrite ret err then Some s else newconn_close nc s
      | SslData bs \<Rightarrow>
          (let n = newconns s ! nc; pos = unat (n_pos n) in
           if pos + length bs \<le> length (n_buf n) then
             do { (ret, buf, pos, s) \<leftarrow>
                    PICA_processdatastream (blit pos bs (n_buf n)) (n_pos n + of_nat (length bs)) nc s msginfo_newconn;
                  s \<leftarrow> set_newconn nc (\<lambda>n. n\<lparr>n_buf := buf, n_pos := pos\<rparr>) s;
                  if ret = 0 then newconn_close nc s else Some s }
           else None))"

definition newconn_shutdown_done :: "nat \<Rightarrow> node \<Rightarrow> node option" where
  "newconn_shutdown_done nc s =
     (let n = newconns s ! nc in
      case n_iconn n of
        None \<Rightarrow> Some s
      | Some p \<Rightarrow>
          if n_type n = NEWCONN_C2N then
            do { s \<leftarrow> upd_client p (\<lambda>c. c\<lparr>c_state := PICA_CLSTATE_TLSNEGOTIATION, c_ev_read := Some True,
                        c_w := (c_w c)\<lparr>ev_write := True\<rparr>\<rparr>) s;
                 newconn_free nc s }
          else if n_type n = NEWCONN_C2C then
            do { s \<leftarrow> cclink_sendcleconnected p s;
                 s \<leftarrow> cclink_activate p s;
                 newconn_free nc s }
          else Some s)"

definition newconn_switch :: "nat \<Rightarrow> newconn_io \<Rightarrow> node \<Rightarrow> node option" where
  "newconn_switch nc io s =
     (case n_state (newconns s ! nc) of
        PICA_NEWCONN_WAITANONTLSACCEPT \<Rightarrow>
          (let (ret, err) = io_accept io in
           if ret < 0 \<and> process_async_ssl_readwrite ret err then Some s
           else if ret \<le> 0 then newconn_close nc s
           else
             do { s \<leftarrow> (if ret = 1 then set_newconn nc (\<lambda>n. n\<lparr>n_state := PICA_NEWCONN_WAITREQUEST\<rparr>) s else Some s);
                  newconn_read_request nc (io_read io) s })
      | PICA_NEWCONN_WAITREQUEST \<Rightarrow> newconn_read_request nc (io_read io) s
      | PICA_NEWCONN_WAITANONTLSSHUTDOWN \<Rightarrow>
          (let (ret, err) = io_shutdown io in
           if ret = 0 then Some s
           else if ret < 0 \<and> process_async_ssl_readwrite ret err then Some s
           else if ret < 0 then newconn_close nc s
           else if ret = 1 then newconn_shutdown_done nc s
           else Some s)
      | _ \<Rightarrow> Some s)"

definition process_newconn_read :: "nat \<Rightarrow> newconn_io \<Rightarrow> node \<Rightarrow> node option" where
  "process_newconn_read nc io s =
     (if nc < length (newconns s) then
        do { s \<leftarrow> newconn_switch nc io s;
             s \<leftarrow> (if n_sck (newconns s ! nc) \<noteq> -1 then process_newconn_write nc (io_write io) s else Some s);
             if n_sck (newconns s ! nc) \<noteq> -1 then set_newconn nc (\<lambda>n. n\<lparr>n_ev := Some True\<rparr>) s else Some s }
      else None)"

text \<open>Accepted sockets: descriptor, address, port, the results of \<open>SSL_new\<close> and
  \<open>SSL_set_fd\<close>. At most \<open>MAX_NEWCONNS / 4\<close> are taken per event.\<close>

type_synonym accepted = "int \<times> u32 \<times> u16 \<times> bool \<times> bool"

fun listen_loop :: "nat \<Rightarrow> accepted list \<Rightarrow> node \<Rightarrow> node option" where
  "listen_loop 0 as s = Some s"
| "listen_loop (Suc k) [] s = Some s"
| "listen_loop (Suc k) ((sck, addr, port, ssl_new, set_fd) # as) s =
     do { (i, s) \<leftarrow> newconn_add s;
          s \<leftarrow> set_newconn i (\<lambda>n. n\<lparr>n_anonssl := ssl_new \<and> set_fd\<rparr>) s;
          if \<not> (ssl_new \<and> set_fd) then Some s
          else
            do { s \<leftarrow> set_newconn i (\<lambda>n. n\<lparr>n_sck := sck, n_addr := addr, n_port := port,
                         n_state := PICA_NEWCONN_WAITANONTLSACCEPT, n_ev := Some True\<rparr>) s;
                 listen_loop k as s } }"

definition process_listen_read :: "accepted list \<Rightarrow> node \<Rightarrow> node option" where
  "process_listen_read as s = listen_loop (MAX_NEWCONNS div 4) as s"

section \<open>Clients\<close>

record c2n_io =
  io_sslread :: ssl_data
  io_sslwrite :: "int \<times> ssl_error"
  io_sslconnect :: "int \<times> ssl_error"
  io_cert_id :: "pid option"

text \<open>
  The handshake is complete: the identifier is taken from the certificate (\<open>None\<close>: there
  is none), and the client enters the tree, or becomes a further connection of a user who
  is there already. The first result says whether the connection is to be closed.
\<close>

definition c2n_established :: "nat \<Rightarrow> pid option \<Rightarrow> node \<Rightarrow> (bool \<times> node) option" where
  "c2n_established p cert_id s =
     do { s \<leftarrow> upd_client p (\<lambda>c. case cert_id of None \<Rightarrow> c | Some i \<Rightarrow> c\<lparr>c_id := i\<rparr>) s;
          c \<leftarrow> clients s p;
          let kill = (cert_id = None \<or> c_id c = replicate PICA_ID_SIZE 0);
          primary \<leftarrow> (if kill then Some None
                      else client_tree_search (clients s) (client_tree_root s) (c_id c));
          case primary of
            Some q \<Rightarrow>
              do { s \<leftarrow> upd_client p (\<lambda>c. c\<lparr>c_state := PICA_CLSTATE_MULTILOGIN_SECONDARY\<rparr>) s;
                   h \<leftarrow> client_attach_multi_secondary (clients s) q p;
                   Some (False, s\<lparr>clients := h\<rparr>) }
          | None \<Rightarrow>
              do { (ret, h, root) \<leftarrow> client_tree_add (clients s) (client_tree_root s) p;
                   s \<leftarrow> upd_client p (\<lambda>c. c\<lparr>c_state := PICA_CLSTATE_CONNECTED\<rparr>)
                          (s\<lparr>clients := h, client_tree_root := root\<rparr>);
                   Some (kill \<or> ret = 0, s) } }"

definition c2n_write_switch :: "nat \<Rightarrow> c2n_io \<Rightarrow> node \<Rightarrow> (bool \<times> node) option" where
  "c2n_write_switch p io s =
     do { c \<leftarrow> clients s p;
          case c_state c of
            PICA_CLSTATE_TLSNEGOTIATION \<Rightarrow>
              (let (ret, err) = io_sslconnect io in
               do { s \<leftarrow> upd_client p (\<lambda>c. c\<lparr>c_w := (c_w c)\<lparr>w_pos :=
                             (if ret < 0 \<and> err = SSL_ERROR_WANT_WRITE then 1 else 0)\<rparr>\<rparr>) s;
                    if ret = 1 then c2n_established p (io_cert_id io) s
                    else Some (ret = 0 \<or> ret < 0 \<and> err = SSL_ERROR_OTHER, s) })
          | PICA_CLSTATE_WAITANONTLSSHUTDOWN \<Rightarrow> Some (False, s)
          | PICA_CLSTATE_UNSET \<Rightarrow> Some (False, s)
          | _ \<Rightarrow>
              (let (ret, err) = io_sslwrite io in
               if w_pos (c_w c) = 0 then Some (False, s)
               else
                 do { s \<leftarrow> upd_client p (\<lambda>c. c\<lparr>c_w := buf_written ret (buf_set_btw (c_w c))\<rparr>) s;
                      Some (ret = 0 \<or> ret < 0 \<and> err = SSL_ERROR_OTHER, s) }) }"

definition process_c2n_write :: "nat \<Rightarrow> c2n_io \<Rightarrow> node \<Rightarrow> node option" where
  "process_c2n_write p io s =
     do { (kill, s) \<leftarrow> c2n_write_switch p io s;
          if kill then client_list_delete p s
          else
            do { c \<leftarrow> clients s p;
                 if w_pos (c_w c) \<noteq> 0 then upd_client p (\<lambda>c. c\<lparr>c_w := (c_w c)\<lparr>ev_write := True\<rparr>\<rparr>) s
                 else Some s } }"

definition c2n_read_data :: "nat \<Rightarrow> byte list \<Rightarrow> node \<Rightarrow> (bool \<times> node) option" where
  "c2n_read_data p bs s =
     do { c \<leftarrow> clients s p;
          let pos = unat (c_r_pos c);
          if pos + length bs \<le> length (c_r_buf c) then
            do { (ret, buf, pos, s) \<leftarrow>
                   PICA_processdatastream (blit pos bs (c_r_buf c)) (c_r_pos c + of_nat (length bs)) p s
                     (if c_state c = PICA_CLSTATE_MULTILOGIN_SECONDARY then msginfo_multi else msginfo_comm);
                 s \<leftarrow> upd_client p (\<lambda>c. c\<lparr>c_r_buf := buf, c_r_pos := pos\<rparr>) s;
                 if of_nat (length buf) = pos then
                   do { (ok, s) \<leftarrow> client_rbuf_grow p s; Some (ret = 0 \<or> \<not> ok, s) }
                 else Some (ret = 0, s) }
          else None }"

definition process_c2n_read :: "nat \<Rightarrow> c2n_io \<Rightarrow> node \<Rightarrow> node option" where
  "process_c2n_read p io s =
     do { c \<leftarrow> clients s p;
          (kill, s) \<leftarrow>
            (case c_state c of
               PICA_CLSTATE_TLSNEGOTIATION \<Rightarrow>
                 do { s \<leftarrow> upd_client p (\<lambda>c. c\<lparr>c_w := (c_w c)\<lparr>w_pos := 1\<rparr>\<rparr>) s; Some (False, s) }
             | PICA_CLSTATE_WAITANONTLSSHUTDOWN \<Rightarrow> Some (False, s)
             | PICA_CLSTATE_UNSET \<Rightarrow> Some (False, s)
             | _ \<Rightarrow>
                 (case io_sslread io of
                    SslData bs \<Rightarrow> c2n_read_data p bs s
                  | SslFail ret err \<Rightarrow> Some (ret = 0 \<or> ret < 0 \<and> err = SSL_ERROR_OTHER, s)));
          if kill then client_list_delete p s
          else
            do { c \<leftarrow> clients s p;
                 if w_pos (c_w c) \<noteq> 0 then process_c2n_write p io s else Some s } }"

section \<open>Client-to-client relay\<close>

text \<open>
  One direction of a link: its buffer, the reading event of the sender and the writing
  event of the receiver, their sockets, and for a receiver on another node the node link
  and the two identifiers in the order they are sent.
\<close>

record dirn =
  d_buf :: bufptr
  d_pos :: nat
  d_jam :: bool
  d_ev_read :: "bool option"
  d_ev_write :: "bool option"
  d_src :: int
  d_dst :: int
  d_remote :: bool
  d_node :: "nat option"
  d_from :: "idptr option"
  d_to :: "idptr option"

definition get_p1p2 :: "cclink \<Rightarrow> dirn" where
  "get_p1p2 l =
     \<lparr>d_buf = l_buf_p1p2 l, d_pos = l_bufpos_p1p2 l, d_jam = l_jam_p1p2 l,
      d_ev_read = l_ev_read_p1 l, d_ev_write = l_ev_write_p2 l, d_src = l_sck_p1 l, d_dst = l_sck_p2 l,
      d_remote = (l_state l = PICA_CCLINK_N2NCLR_ACTIVE), d_node = l_callee_node l,
      d_from = l_caller_id l, d_to = l_callee_id l\<rparr>"

definition put_p1p2 :: "dirn \<Rightarrow> cclink \<Rightarrow> cclink" where
  "put_p1p2 d l =
     l\<lparr>l_buf_p1p2 := d_buf d, l_bufpos_p1p2 := d_pos d, l_jam_p1p2 := d_jam d,
       l_ev_read_p1 := d_ev_read d, l_ev_write_p2 := d_ev_write d\<rparr>"

definition get_p2p1 :: "cclink \<Rightarrow> dirn" where
  "get_p2p1 l =
     \<lparr>d_buf = l_buf_p2p1 l, d_pos = l_bufpos_p2p1 l, d_jam = l_jam_p2p1 l,
      d_ev_read = l_ev_read_p2 l, d_ev_write = l_ev_write_p1 l, d_src = l_sck_p2 l, d_dst = l_sck_p1 l,
      d_remote = (l_state l = PICA_CCLINK_N2NCLE_ACTIVE), d_node = l_caller_node l,
      d_from = l_callee_id l, d_to = l_caller_id l\<rparr>"

definition put_p2p1 :: "dirn \<Rightarrow> cclink \<Rightarrow> cclink" where
  "put_p2p1 d l =
     l\<lparr>l_buf_p2p1 := d_buf d, l_bufpos_p2p1 := d_pos d, l_jam_p2p1 := d_jam d,
       l_ev_read_p2 := d_ev_read d, l_ev_write_p1 := d_ev_write d\<rparr>"

abbreviation (input) EAGAIN :: int where "EAGAIN \<equiv> 11"
abbreviation (input) ENOBUFS :: int where "ENOBUFS \<equiv> 105"

fun buf_read :: "bufptr \<Rightarrow> nat \<Rightarrow> byte list option" where
  "buf_read (Buf m) n = rd_bytes m 0 n"
| "buf_read b n = None"

text \<open>\<open>memmove(buf, buf + ret, pos - ret)\<close>.\<close>

fun buf_shift :: "bufptr \<Rightarrow> nat \<Rightarrow> nat \<Rightarrow> bufptr option" where
  "buf_shift (Buf m) k n = (if k + n \<le> length m then Some (Buf (memmove_down k n m)) else None)"
| "buf_shift b k n = None"

definition sub32 :: "nat \<Rightarrow> nat \<Rightarrow> nat" where
  "sub32 a b = (a + 2 ^ 32 - b) mod 2 ^ 32"

definition ev_add :: "bool option \<Rightarrow> bool option option" where
  "ev_add e = (case e of None \<Rightarrow> None | Some _ \<Rightarrow> Some (Some True))"

text \<open>What \<open>ret\<close> is: the variable keeps its value where neither branch assigns it
  (\<open>None\<close>: it has none yet). A send to a node queues one N2NMSG.\<close>

definition c2c_send :: "int \<Rightarrow> int \<times> int \<Rightarrow> dirn \<Rightarrow> int option \<Rightarrow> node \<Rightarrow> (int option \<times> node) option" where
  "c2c_send sck res d ret s =
     (if d_remote d then
        (let sendlen = min (d_pos d) PICA_PROTO_N2NMSG_MAXDATASIZE in
         do { n \<leftarrow> d_node d;
              from \<leftarrow> rd_id s (d_from d);
              to \<leftarrow> rd_id s (d_to d);
              bs \<leftarrow> buf_read (d_buf d) sendlen;
              (ok, s) \<leftarrow> nodelink_send n PICA_PROTO_N2NMSG (of_nat (sendlen + 4 + 2 * PICA_ID_SIZE))
                          (put16 (2 * PICA_ID_SIZE + sendlen) @ from @ to @ bs) s;
              Some (Some (if ok then int sendlen else 0), s) })
      else if sck = d_dst d then
        do { bs \<leftarrow> buf_read (d_buf d) (d_pos d); Some (Some (fst res), s) }
      else Some (ret, s))"

text \<open>The bookkeeping after a send; \<open>ret\<close> becomes \<open>errno\<close> after an error.\<close>

definition c2c_sent :: "int \<Rightarrow> int \<Rightarrow> int \<Rightarrow> dirn \<Rightarrow> bool \<Rightarrow> (int \<times> bool \<times> dirn) option" where
  "c2c_sent sck errno ret d kill =
     do { (ret, kill, d) \<leftarrow>
            (if ret > 0 then
               do { b \<leftarrow> (if ret < int (d_pos d) then buf_shift (d_buf d) (nat ret) (d_pos d - nat ret) else Some (d_buf d));
                    let pos = sub32 (d_pos d) (nat ret);
                    e \<leftarrow> (if pos = 0 \<and> d_src d \<noteq> -1 then ev_add (d_ev_read d) else Some (d_ev_read d));
                    Some (ret, kill, d\<lparr>d_buf := b, d_pos := pos, d_ev_read := e, d_jam := False\<rparr>) }
             else if ret = 0 then Some (ret, True, d)
             else if ret = -1 then
               (if errno = EAGAIN \<or> errno = ENOBUFS then Some (errno, kill, d\<lparr>d_jam := True\<rparr>)
                else Some (errno, True, d))
             else Some (ret, kill, d));
          e \<leftarrow> (if \<not> kill \<and> d_pos d \<noteq> 0 \<and> sck \<noteq> -1 then ev_add (d_ev_write d) else Some (d_ev_write d));
          Some (ret, kill, d\<lparr>d_ev_write := e\<rparr>) }"

definition c2c_half ::
  "int \<Rightarrow> int \<times> int \<Rightarrow> dirn \<Rightarrow> int option \<Rightarrow> bool \<Rightarrow> node \<Rightarrow> (int option \<times> bool \<times> dirn \<times> node) option" where
  "c2c_half sck res d ret kill s =
     (if d_pos d = 0 then Some (ret, kill, d, s)
      else
        do { (r, s) \<leftarrow> c2c_send sck res d ret s;
             ret \<leftarrow> r;
             (ret, kill, d) \<leftarrow> c2c_sent sck (snd res) ret d kill;
             Some (Some ret, kill, d, s) })"

text \<open>\<open>process_c2c_write\<close>: \<open>res1\<close> and \<open>res2\<close> are the results (return value, \<open>errno\<close>)
  of a \<open>send\<close> to the callee and to the caller.\<close>

definition process_c2c_write :: "int \<Rightarrow> nat \<Rightarrow> int \<times> int \<Rightarrow> int \<times> int \<Rightarrow> node \<Rightarrow> node option" where
  "process_c2c_write sck cc res1 res2 s =
     do { l \<leftarrow> cclinks s cc;
          (ret, kill, d, s) \<leftarrow> c2c_half sck res1 (get_p1p2 l) None False s;
          s \<leftarrow> upd_cclink cc (put_p1p2 d) s;
          l \<leftarrow> cclinks s cc;
          (ret, kill, d, s) \<leftarrow> c2c_half sck res2 (get_p2p1 l) ret kill s;
          s \<leftarrow> upd_cclink cc (put_p2p1 d) s;
          if kill then cclink_list_delete cc s else Some s }"

text \<open>A \<open>recv\<close>: the bytes, or nothing when it returned zero or an error.\<close>

definition c2c_recv :: "byte list option \<Rightarrow> dirn \<Rightarrow> nat \<Rightarrow> (bool \<times> dirn) option" where
  "c2c_recv r d buflen =
     (case r of
        None \<Rightarrow> Some (False, d)
      | Some bs \<Rightarrow>
          do { b \<leftarrow> (if d_pos d + length bs \<le> buflen then buf_append (d_buf d) (d_pos d) bs else None);
               let full = (d_pos d + length bs = buflen);
               if full \<and> d_ev_read d = None then None
               else Some (True, d\<lparr>d_buf := b, d_pos := d_pos d + length bs,
                                  d_ev_read := (if full then Some False else d_ev_read d),
                                  d_jam := (full \<or> d_jam d)\<rparr>) })"

definition c2c_read_p1 :: "int \<Rightarrow> nat \<Rightarrow> byte list option \<Rightarrow> int \<times> int \<Rightarrow> int \<times> int \<Rightarrow> node \<Rightarrow> (bool \<times> node) option" where
  "c2c_read_p1 sck cc r res1 res2 s =
     do { l \<leftarrow> cclinks s cc;
          if (l_state l = PICA_CCLINK_LOCAL_ACTIVE \<or> l_state l = PICA_CCLINK_N2NCLR_ACTIVE)
             \<and> l_sck_p1 l = sck \<and> \<not> l_jam_p1p2 l then
            do { (ok, d) \<leftarrow> c2c_recv r (get_p1p2 l) (l_buflen_p1p2 l);
                 s \<leftarrow> upd_cclink cc (put_p1p2 d) s;
                 if \<not> ok then Some (True, s)
                 else if l_state l = PICA_CCLINK_LOCAL_ACTIVE then
                   do { e \<leftarrow> ev_add (d_ev_write d);
                        s \<leftarrow> upd_cclink cc (\<lambda>l. l\<lparr>l_ev_write_p2 := e\<rparr>) s;
                        Some (False, s) }
                 else do { s \<leftarrow> process_c2c_write (-1) cc res1 res2 s; Some (False, s) } }
          else Some (False, s) }"

definition c2c_read_p2 :: "int \<Rightarrow> nat \<Rightarrow> byte list option \<Rightarrow> int \<times> int \<Rightarrow> int \<times> int \<Rightarrow> node \<Rightarrow> (bool \<times> node) option" where
  "c2c_read_p2 sck cc r res1 res2 s =
     do { l \<leftarrow> cclinks s cc;
          if (l_state l = PICA_CCLINK_LOCAL_ACTIVE \<or> l_state l = PICA_CCLINK_N2NCLE_ACTIVE)
             \<and> l_sck_p2 l = sck \<and> \<not> l_jam_p2p1 l then
            do { (ok, d) \<leftarrow> c2c_recv r (get_p2p1 l) (l_buflen_p2p1 l);
                 s \<leftarrow> upd_cclink cc (put_p2p1 d) s;
                 if \<not> ok then Some (True, s)
                 else if l_state l = PICA_CCLINK_LOCAL_ACTIVE then
                   do { e \<leftarrow> ev_add (d_ev_write d);
                        s \<leftarrow> upd_cclink cc (\<lambda>l. l\<lparr>l_ev_write_p1 := e\<rparr>) s;
                        Some (False, s) }
                 else do { s \<leftarrow> process_c2c_write (-1) cc res1 res2 s; Some (False, s) } }
          else Some (False, s) }"

text \<open>After the first half the link is looked at again, deleted or not.\<close>

definition process_c2c_read ::
  "int \<Rightarrow> nat \<Rightarrow> byte list option \<Rightarrow> byte list option \<Rightarrow> int \<times> int \<Rightarrow> int \<times> int \<Rightarrow> node \<Rightarrow> node option" where
  "process_c2c_read sck cc r1 r2 res1 res2 s =
     do { (kill1, s) \<leftarrow> c2c_read_p1 sck cc r1 res1 res2 s;
          (kill2, s) \<leftarrow> c2c_read_p2 sck cc r2 res1 res2 s;
          if kill1 \<or> kill2 then cclink_list_delete cc s else Some s }"

section \<open>Nodes\<close>

definition n2n_read_data :: "verifier \<Rightarrow> nat \<Rightarrow> byte list \<Rightarrow> node \<Rightarrow> (bool \<times> node) option" where
  "n2n_read_data verify p bs s =
     do { k \<leftarrow> nodelinks s p;
          let pos = unat (k_r_pos k);
          if pos + length bs \<le> length (k_r_buf k) then
            do { (ret, buf, pos, s) \<leftarrow>
                   PICA_processdatastream (blit pos bs (k_r_buf k)) (k_r_pos k + of_nat (length bs)) p s
                     (msginfo_node verify);
                 s \<leftarrow> upd_nodelink p (\<lambda>k. k\<lparr>k_r_buf := buf, k_r_pos := pos\<rparr>) s;
                 if of_nat (length buf) = pos then
                   do { (ok, s) \<leftarrow> nodelink_rbuf_grow p s; Some (ret = 0 \<or> \<not> ok, s) }
                 else Some (ret = 0, s) }
          else None }"

definition process_n2n_read :: "verifier \<Rightarrow> nat \<Rightarrow> ssl_data \<Rightarrow> node \<Rightarrow> node option" where
  "process_n2n_read verify p rd s =
     do { (kill, s) \<leftarrow>
            (case rd of
               SslData bs \<Rightarrow> n2n_read_data verify p bs s
             | SslFail ret err \<Rightarrow> Some (ret = 0 \<or> \<not> process_async_ssl_readwrite ret err, s));
          if kill then nodelink_list_delete p s else Some s }"

definition process_n2n_write :: "nat \<Rightarrow> int \<times> ssl_error \<Rightarrow> node \<Rightarrow> node option" where
  "process_n2n_write p wr s =
     (let (ret, err) = wr in
      do { k \<leftarrow> nodelinks s p;
           if w_pos (k_w k) = 0 then Some s
           else
             do { let w = buf_written ret (buf_set_btw (k_w k));
                  if ret = 0 \<or> ret < 0 \<and> \<not> process_async_ssl_readwrite ret err
                  then nodelink_list_delete p (s\<lparr>nodelinks := (nodelinks s)(p \<mapsto> k\<lparr>k_w := w\<rparr>)\<rparr>)
                  else Some (s\<lparr>nodelinks := (nodelinks s)(p \<mapsto> k\<lparr>k_w :=
                          (if w_pos w > 0 then w\<lparr>ev_write := True\<rparr> else w)\<rparr>)\<rparr>) } })"

section \<open>Timeouts\<close>

abbreviation (input) NOREPLY_TIMEOUT :: int where "NOREPLY_TIMEOUT \<equiv> 15"
abbreviation (input) KEEPALIVE_TIMEOUT :: int where "KEEPALIVE_TIMEOUT \<equiv> 60"
abbreviation (input) TMO_CCLINK_WAITACTIVE :: int where "TMO_CCLINK_WAITACTIVE \<equiv> 15"

definition newconn_expired :: "int \<Rightarrow> newconn \<Rightarrow> bool" where
  "newconn_expired t n \<longleftrightarrow>
     n_sck n \<noteq> -1 \<and>
     (if n_tmst n < t then t - n_tmst n > NEWCONN_TIMEOUT else n_tmst n - t > NEWCONN_TIMEOUT)"

fun timeouts_newconn_loop :: "int \<Rightarrow> nat list \<Rightarrow> node \<Rightarrow> node option" where
  "timeouts_newconn_loop t [] s = Some s"
| "timeouts_newconn_loop t (i # is) s =
     do { s \<leftarrow> (if newconn_expired t (newconns s ! i) then newconn_close i s else Some s);
          timeouts_newconn_loop t is s }"

definition process_timeouts_newconn :: "node \<Rightarrow> node option" where
  "process_timeouts_newconn s = timeouts_newconn_loop (now (nenv s)) [0..<MAX_NEWCONNS] s"

definition active_link :: "cclink \<Rightarrow> bool" where
  "active_link l \<longleftrightarrow> l_state l \<in> {PICA_CCLINK_LOCAL_ACTIVE, PICA_CCLINK_N2NCLR_ACTIVE, PICA_CCLINK_N2NCLE_ACTIVE}"

definition process_timeouts_c2c :: "node \<Rightarrow> node option" where
  "process_timeouts_c2c s =
     delete_links_loop (\<lambda>l. \<not> active_link l \<and> now (nenv s) - l_tmst l > TMO_CCLINK_WAITACTIVE) (cclink_list s) s"

text \<open>The two cases of the check, for a clock before and after the time stamp.\<close>

definition noreply_expired :: "int \<Rightarrow> int \<Rightarrow> bool" where
  "noreply_expired cur_time tmst \<longleftrightarrow>
     (if cur_time \<ge> tmst then cur_time - tmst > NOREPLY_TIMEOUT else tmst - cur_time > NOREPLY_TIMEOUT)"

definition timeout_client :: "int \<Rightarrow> nat \<Rightarrow> node \<Rightarrow> node option" where
  "timeout_client cur_time p s =
     do { c \<leftarrow> clients s p;
          (kill, s) \<leftarrow>
            (if c_disconnect_ticking c then Some (noreply_expired cur_time (c_tmst c), s)
             else if cur_time \<ge> c_tmst c \<and> cur_time - c_tmst c > KEEPALIVE_TIMEOUT then
               do { (ok, s) \<leftarrow> client_send_rand p PICA_PROTO_PINGREQ PICA_PROTO_PINGREQ_SIZE s;
                    if ok then
                      do { s \<leftarrow> upd_client p (\<lambda>c. c\<lparr>c_tmst := now (nenv s), c_disconnect_ticking := True\<rparr>) s;
                           Some (False, s) }
                    else Some (True, s) }
             else Some (False, s));
          if kill then client_list_delete p s else Some s }"

definition process_timeouts_c2n :: "node \<Rightarrow> node option" where
  "process_timeouts_c2n s = listmap (timeout_client (now (nenv s))) (client_list s) s"

definition timeout_nodelink :: "int \<Rightarrow> nat \<Rightarrow> node \<Rightarrow> node option" where
  "timeout_nodelink cur_time p s =
     do { k \<leftarrow> nodelinks s p;
          (kill, s) \<leftarrow>
            (if k_disconnect_ticking k then Some (noreply_expired cur_time (k_tmst k), s)
             else if cur_time \<ge> k_tmst k \<and> cur_time - k_tmst k > KEEPALIVE_TIMEOUT then
               do { (ok, s) \<leftarrow> nodelink_send_rand p PICA_PROTO_PINGREQ PICA_PROTO_PINGREQ_SIZE s;
                    if ok then
                      do { s \<leftarrow> upd_nodelink p (\<lambda>k. k\<lparr>k_tmst := now (nenv s), k_disconnect_ticking := True\<rparr>) s;
                           Some (False, s) }
                    else Some (True, s) }
             else Some (False, s));
          if kill then nodelink_list_delete p s else Some s }"

definition process_timeouts_n2n :: "node \<Rightarrow> node option" where
  "process_timeouts_n2n s = listmap (timeout_nodelink (now (nenv s))) (nodelink_list s) s"

end
