(* ===== verification/NodeInv.thy ===== *)
theory NodeInv
  imports NodeEvents
begin

text \<open>
  The invariant of the node's data structures: the lists hold exactly the live objects,
  the counters count them, and every link refers to live clients and nodes as its state
  demands. Most operations touch neither the lists nor what links refer to; \<open>same_core\<close>
  says so, and the invariant is carried over such steps in one go. A second relation
  \<open>same_tree\<close> does the same for the search tree and the chains of connections.
\<close>

section \<open>Links\<close>

fun is_local :: "cclink_state \<Rightarrow> bool" where
  "is_local PICA_CCLINK_LOCAL_WAITREP = True"
| "is_local PICA_CCLINK_LOCAL_WAITCONNCLE = True"
| "is_local PICA_CCLINK_LOCAL_WAITCONNCLEANONTLSSHUTDOWN = True"
| "is_local PICA_CCLINK_LOCAL_WAITCONNCLR = True"
| "is_local PICA_CCLINK_LOCAL_WAITCONNCLRANONTLSSHUTDOWN = True"
| "is_local PICA_CCLINK_LOCAL_ACTIVE = True"
| "is_local _ = False"

fun is_n2nclr :: "cclink_state \<Rightarrow> bool" where
  "is_n2nclr PICA_CCLINK_N2NCLR_WAITSEARCH = True"
| "is_n2nclr PICA_CCLINK_N2NCLR_WAITREP = True"
| "is_n2nclr PICA_CCLINK_N2NCLR_WAITCONNCLR = True"
| "is_n2nclr PICA_CCLINK_N2NCLR_WAITCONNCLRANONTLSSHUTDOWN = True"
| "is_n2nclr PICA_CCLINK_N2NCLR_ACTIVE = True"
| "is_n2nclr _ = False"

fun is_n2ncle :: "cclink_state \<Rightarrow> bool" where
  "is_n2ncle PICA_CCLINK_N2NCLE_WAITREP = True"
| "is_n2ncle PICA_CCLINK_N2NCLE_WAITCONNCLE = True"
| "is_n2ncle PICA_CCLINK_N2NCLE_WAITCONNCLEANONTLSSHUTDOWN = True"
| "is_n2ncle PICA_CCLINK_N2NCLE_ACTIVE = True"
| "is_n2ncle _ = False"

text \<open>The states in which the relay buffers are allocated.\<close>

definition has_bufs :: "cclink_state \<Rightarrow> bool" where
  "has_bufs st \<longleftrightarrow> st \<in> {PICA_CCLINK_LOCAL_WAITCONNCLRANONTLSSHUTDOWN, PICA_CCLINK_LOCAL_ACTIVE,
     PICA_CCLINK_N2NCLR_WAITCONNCLRANONTLSSHUTDOWN, PICA_CCLINK_N2NCLR_ACTIVE,
     PICA_CCLINK_N2NCLE_WAITCONNCLEANONTLSSHUTDOWN, PICA_CCLINK_N2NCLE_ACTIVE}"

fun end_ok :: "nat set \<Rightarrow> nat option \<Rightarrow> idptr option \<Rightarrow> bool" where
  "end_ok C (Some p) i \<longleftrightarrow> p \<in> C \<and> i = Some (IdOf p)"
| "end_ok C None i \<longleftrightarrow> (\<exists>x. i = Some (IdCopy x))"

definition buf_ok :: "bufptr \<Rightarrow> nat \<Rightarrow> nat \<Rightarrow> bool" where
  "buf_ok b len pos \<longleftrightarrow> (case b of Buf m \<Rightarrow> length m = len \<and> pos \<le> len | _ \<Rightarrow> False)"

definition state_ok :: "cclink \<Rightarrow> bool" where
  "state_ok l \<longleftrightarrow>
     (is_local (l_state l) \<and> l_p1 l \<noteq> None \<and> l_p2 l \<noteq> None
      \<or> is_n2nclr (l_state l) \<and> l_p1 l \<noteq> None \<and> l_p2 l = None
        \<and> (l_state l \<noteq> PICA_CCLINK_N2NCLR_WAITSEARCH \<longrightarrow> l_callee_node l \<noteq> None)
      \<or> is_n2ncle (l_state l) \<and> l_p1 l = None \<and> l_p2 l \<noteq> None \<and> l_caller_node l \<noteq> None)
     \<and> (has_bufs (l_state l) \<longrightarrow> buf_ok (l_buf_p1p2 l) (l_buflen_p1p2 l) (l_bufpos_p1p2 l)
          \<and> buf_ok (l_buf_p2p1 l) (l_buflen_p2p1 l) (l_bufpos_p2p1 l))"

text \<open>\<open>C\<close> and \<open>K\<close> are the live clients and node links.\<close>

definition link_ok :: "nat set \<Rightarrow> nat set \<Rightarrow> cclink \<Rightarrow> bool" where
  "link_ok C K l \<longleftrightarrow>
     end_ok C (l_p1 l) (l_caller_id l) \<and> end_ok C (l_p2 l) (l_callee_id l)
     \<and> set_option (l_caller_node l) \<subseteq> K \<and> set_option (l_callee_node l) \<subseteq> K
     \<and> l_buf_p1p2 l \<noteq> FreedBuf \<and> l_buf_p2p1 l \<noteq> FreedBuf \<and> state_ok l"

section \<open>The invariant\<close>

definition heap_list :: "nat \<Rightarrow> (nat \<rightharpoonup> 'a) \<Rightarrow> nat list \<Rightarrow> bool" where
  "heap_list b h xs \<longleftrightarrow> distinct xs \<and> set xs = dom h \<and> (\<forall>p\<in>dom h. p < b)"

definition nodelink_ok :: "nodelink \<Rightarrow> bool" where
  "nodelink_ok k \<longleftrightarrow> (k_addr_type k = PICA_PROTO_NEWNODE_IPV4 \<longrightarrow> k_node_addr k \<noteq> None)"

definition links_inv :: "node \<Rightarrow> bool" where
  "links_inv s \<longleftrightarrow>
     heap_list (next_ptr s) (cclinks s) (cclink_list s)
     \<and> cclink_list_count s = of_nat (length (cclink_list s))
     \<and> (\<forall>l\<in>ran (cclinks s). link_ok (dom (clients s)) (dom (nodelinks s)) l)"

definition node_inv :: "node \<Rightarrow> bool" where
  "node_inv s \<longleftrightarrow>
     links_inv s
     \<and> heap_list (next_ptr s) (clients s) (client_list s)
     \<and> heap_list (next_ptr s) (nodelinks s) (nodelink_list s)
     \<and> nodelink_list_count s = of_nat (length (nodelink_list s))
     \<and> length (newconns s) = MAX_NEWCONNS
     \<and> (\<forall>k\<in>ran (nodelinks s). nodelink_ok k)"

lemma node_inv_links: "node_inv s \<Longrightarrow> links_inv s"
  by (simp add: node_inv_def)

text \<open>Every allocation succeeds from now on.\<close>

definition mem_ok :: "node \<Rightarrow> bool" where
  "mem_ok s \<longleftrightarrow> alloc_ok (nenv s) = (\<lambda>_. True)"

text \<open>A step that changes neither the lists nor what the invariant says about objects.\<close>

definition same_core :: "node \<Rightarrow> node \<Rightarrow> bool" where
  "same_core s s' \<longleftrightarrow>
     dom (clients s') = dom (clients s) \<and> client_list s' = client_list s
     \<and> cclinks s' = cclinks s \<and> cclink_list s' = cclink_list s \<and> cclink_list_count s' = cclink_list_count s
     \<and> dom (nodelinks s') = dom (nodelinks s) \<and> nodelink_list s' = nodelink_list s
     \<and> nodelink_list_count s' = nodelink_list_count s \<and> next_ptr s' = next_ptr s
     \<and> length (newconns s') = length (newconns s)
     \<and> ((\<forall>k\<in>ran (nodelinks s). nodelink_ok k) \<longrightarrow> (\<forall>k\<in>ran (nodelinks s'). nodelink_ok k))
     \<and> (mem_ok s \<longrightarrow> mem_ok s')"

lemma same_core_refl [simp]: "same_core s s"
  by (simp add: same_core_def)

lemma same_core_trans [trans]: "same_core s s' \<Longrightarrow> same_core s' s'' \<Longrightarrow> same_core s s''"
  by (auto simp: same_core_def)

lemma node_inv_same_core [pica_inv]: "node_inv s \<Longrightarrow> same_core s s' \<Longrightarrow> node_inv s'"
  by (auto simp: node_inv_def links_inv_def same_core_def heap_list_def)

section \<open>The tree and the chains of connections\<close>

text \<open>The fields of a client that the tree, the chains and the links read.\<close>

definition tree_fields :: "client \<Rightarrow> pid \<times> nat option \<times> nat option \<times> nat option \<times> nat option" where
  "tree_fields c = (c_id c, c_up c, c_left c, c_right c, c_next_multi c)"

definition same_tree :: "node \<Rightarrow> node \<Rightarrow> bool" where
  "same_tree s s' \<longleftrightarrow> client_tree_root s' = client_tree_root s
     \<and> (\<forall>p. map_option tree_fields (clients s' p) = map_option tree_fields (clients s p))"

lemma same_tree_refl [simp]: "same_tree s s"
  by (simp add: same_tree_def)

lemma same_tree_trans [trans]: "same_tree s s' \<Longrightarrow> same_tree s' s'' \<Longrightarrow> same_tree s s''"
  by (simp add: same_tree_def)

lemma same_tree_at:
  assumes "same_tree s s'" "clients s p = Some c"
  obtains c' where "clients s' p = Some c'" "tree_fields c' = tree_fields c"
proof -
  have "map_option tree_fields (clients s' p) = Some (tree_fields c)"
    using assms by (simp add: same_tree_def)
  with that show thesis by auto
qed

fun chain :: "cheap \<Rightarrow> nat option \<Rightarrow> nat list \<Rightarrow> bool" where
  "chain h q [] \<longleftrightarrow> q = None"
| "chain h q (p # ps) \<longleftrightarrow> q = Some p \<and> (\<exists>c. h p = Some c \<and> chain h (c_next_multi c) ps)"

definition tree_ok :: "node \<Rightarrow> bool" where
  "tree_ok s \<longleftrightarrow> (\<exists>t. shape (clients s) (client_tree_root s) t \<and> ordered (clients s) t)
     \<and> (\<forall>p c. clients s p = Some c \<longrightarrow> (\<exists>ps. chain (clients s) (c_next_multi c) ps))"

lemma chain_same_tree: "same_tree s s' \<Longrightarrow> chain (clients s) q ps \<Longrightarrow> chain (clients s') q ps"
proof (induction ps arbitrary: q)
  case (Cons p ps)
  then obtain c where c: "clients s p = Some c" "chain (clients s) (c_next_multi c) ps" "q = Some p" by auto
  from same_tree_at [OF Cons.prems(1) c(1)] obtain c' where
    "clients s' p = Some c'" "tree_fields c' = tree_fields c" by blast
  with c Cons.IH [OF Cons.prems(1) c(2)] show ?case by (auto simp: tree_fields_def)
qed simp

lemma shape_same_tree:
  assumes "same_tree s s'" "shape (clients s) q t"
  shows "shape (clients s') q t \<and> (ordered (clients s) t \<longrightarrow> ordered (clients s') t)"
proof -
  have *: "\<exists>c c'. clients s p = Some c \<and> clients s' p = Some c' \<and> tree_fields c' = tree_fields c"
    if p: "p \<in> set_tree t" for p
  proof -
    obtain c where "clients s p = Some c" using shape_dom [OF assms(2) p] by blast
    with same_tree_at [OF assms(1) this] show ?thesis by blast
  qed
  have "shape (clients s') q t = shape (clients s) q t"
    by (rule shape_frame) (use * in \<open>fastforce simp: tree_fields_def\<close>)
  moreover have "ordered (clients s') t = ordered (clients s) t"
    by (rule ordered_frame) (use * in \<open>fastforce simp: tree_fields_def id_at_def\<close>)
  ultimately show ?thesis using assms(2) by simp
qed

lemma tree_ok_same_tree [pica_inv]:
  assumes "tree_ok s" "same_tree s s'" shows "tree_ok s'"
  unfolding tree_ok_def
proof (intro conjI allI impI)
  show "\<exists>t. shape (clients s') (client_tree_root s') t \<and> ordered (clients s') t"
    using assms shape_same_tree unfolding tree_ok_def same_tree_def by metis
next
  fix p c' assume c': "clients s' p = Some c'"
  have "map_option tree_fields (clients s' p) = map_option tree_fields (clients s p)"
    using assms(2) by (simp add: same_tree_def)
  with c' obtain c where c: "clients s p = Some c" "tree_fields c' = tree_fields c"
    by (cases "clients s p") auto
  with assms(1) obtain ps where "chain (clients s) (c_next_multi c) ps" by (auto simp: tree_ok_def)
  from chain_same_tree [OF assms(2) this] c show "\<exists>ps. chain (clients s') (c_next_multi c') ps"
    by (auto simp: tree_fields_def)
qed

text \<open>A step that keeps everything but the contents of connections.\<close>

definition same :: "node \<Rightarrow> node \<Rightarrow> bool" where
  "same s s' \<longleftrightarrow> same_core s s' \<and> same_tree s s'"

lemma same_refl [simp]: "same s s"
  by (simp add: same_def)

lemma same_trans [trans]: "same s s' \<Longrightarrow> same s' s'' \<Longrightarrow> same s s''"
  using same_core_trans same_tree_trans by (auto simp: same_def)

lemma same_rd_id: "same s s' \<Longrightarrow> rd_id s' i = rd_id s i"
proof (cases i)
  case (Some a)
  assume s: "same s s'"
  show ?thesis
  proof (cases a)
    case (IdOf p)
    have m: "map_option tree_fields (clients s' p) = map_option tree_fields (clients s p)"
      using s by (simp add: same_def same_tree_def)
    then have "map_option fst (map_option tree_fields (clients s' p))
        = map_option fst (map_option tree_fields (clients s p))" by simp
    with Some IdOf show ?thesis by (simp add: option.map_comp comp_def tree_fields_def)
  qed (use Some in simp)
qed simp

section \<open>Steps\<close>

lemma push_alloc_ok: "push_fill client_wbuf_push e w i n t = (ok, w', e') \<Longrightarrow> alloc_ok e' = alloc_ok e"
  "push_fill nodelink_wbuf_push e w i n t = (ok, w', e') \<Longrightarrow> alloc_ok e' = alloc_ok e"
  by (auto simp: push_fill_def client_wbuf_push_def nodelink_wbuf_push_def buf_calloc_def buf_realloc_def
      buf_header_def env_alloc_def Let_def split: if_splits option.splits prod.splits)

lemma client_send_same:
  assumes "clients s p = Some c"
  obtains ok s' where "client_send p i n t s = Some (ok, s')" "same s s'"
proof -
  obtain ok w e where w: "push_fill client_wbuf_push (nenv s) (c_w c) i n t = (ok, w, e)" by (metis prod_cases3)
  let ?s = "s\<lparr>clients := (clients s)(p \<mapsto> c\<lparr>c_w := w\<rparr>), nenv := e\<rparr>"
  have "client_send p i n t s = Some (ok, ?s)" using assms w by (simp add: client_send_def)
  moreover have "same s ?s"
    using assms push_alloc_ok(1) [OF w]
    by (auto simp: same_def same_core_def same_tree_def tree_fields_def mem_ok_def)
  ultimately show thesis by (rule that)
qed

lemma nodelink_send_same:
  assumes "nodelinks s p = Some k"
  obtains ok s' where "nodelink_send p i n t s = Some (ok, s')" "same s s'"
proof -
  obtain ok w e where w: "push_fill nodelink_wbuf_push (nenv s) (k_w k) i n t = (ok, w, e)" by (metis prod_cases3)
  let ?s = "s\<lparr>nodelinks := (nodelinks s)(p \<mapsto> k\<lparr>k_w := w\<rparr>), nenv := e\<rparr>"
  have "nodelink_send p i n t s = Some (ok, ?s)" using assms w by (simp add: nodelink_send_def)
  moreover have "\<forall>k\<in>ran (nodelinks s). nodelink_ok k \<Longrightarrow> \<forall>k\<in>ran (nodelinks ?s). nodelink_ok k"
    using assms by (auto simp: ran_def nodelink_ok_def)
  then have "same s ?s"
    using assms push_alloc_ok(2) [OF w]
    by (auto simp: same_def same_core_def same_tree_def mem_ok_def)
  ultimately show thesis by (rule that)
qed

lemma upd_client_same:
  assumes "clients s p = Some c" "\<And>c. tree_fields (f c) = tree_fields c"
  obtains s' where "upd_client p f s = Some s'" "same s s'" "clients s' p = Some (f c)"
proof -
  have "same s (s\<lparr>clients := (clients s)(p \<mapsto> f c)\<rparr>)"
    using assms by (auto simp: same_def same_core_def same_tree_def mem_ok_def)
  with assms that show thesis by (simp add: upd_client_def)
qed

lemma same_env: "alloc_ok e = alloc_ok (nenv s) \<Longrightarrow> same s (s\<lparr>nenv := e\<rparr>)"
  by (auto simp: same_def same_core_def same_tree_def mem_ok_def)

lemma send_rand_same:
  shows "clients s p = Some c \<Longrightarrow> \<exists>ok s'. client_send_rand p i n s = Some (ok, s') \<and> same s s'"
    and "nodelinks s p = Some k \<Longrightarrow> \<exists>ok s'. nodelink_send_rand p i n s = Some (ok, s') \<and> same s s'"
proof -
  assume "clients s p = Some c"
  then obtain ok s' where s': "client_send p i n (fst (RAND_pseudo_bytes 2 (nenv s))) s = Some (ok, s')" "same s s'"
    by (rule client_send_same)
  have "same s' (s'\<lparr>nenv := snd (RAND_pseudo_bytes 2 (nenv s'))\<rparr>)"
    by (rule same_env) (simp add: RAND_pseudo_bytes_def)
  with s' same_trans show "\<exists>ok s'. client_send_rand p i n s = Some (ok, s') \<and> same s s'"
    by (auto simp: client_send_rand_def)
next
  assume "nodelinks s p = Some k"
  then obtain ok s' where s': "nodelink_send p i n (fst (RAND_pseudo_bytes 2 (nenv s))) s = Some (ok, s')" "same s s'"
    by (rule nodelink_send_same)
  have "same s' (s'\<lparr>nenv := snd (RAND_pseudo_bytes 2 (nenv s'))\<rparr>)"
    by (rule same_env) (simp add: RAND_pseudo_bytes_def)
  with s' same_trans show "\<exists>ok s'. nodelink_send_rand p i n s = Some (ok, s') \<and> same s s'"
    by (auto simp: nodelink_send_rand_def)
qed

section \<open>Links and the invariant\<close>

definition good :: "node \<Rightarrow> bool" where
  "good s \<longleftrightarrow> node_inv s \<and> tree_ok s \<and> mem_ok s"

lemma good_same: "good s \<Longrightarrow> same s s' \<Longrightarrow> good s'"
  using node_inv_same_core tree_ok_same_tree by (auto simp: good_def same_def same_core_def)

lemma inv_link: "links_inv s \<Longrightarrow> cclinks s p = Some l \<Longrightarrow> link_ok (dom (clients s)) (dom (nodelinks s)) l"
  by (auto simp: links_inv_def intro: ranI)

lemma inv_link_list: "links_inv s \<Longrightarrow> p \<in> set (cclink_list s) \<Longrightarrow> \<exists>l. cclinks s p = Some l"
  by (auto simp: links_inv_def heap_list_def)

lemma end_ok_rd_id: "end_ok (dom (clients s)) p i \<Longrightarrow> \<exists>x. rd_id s i = Some x"
  by (cases p) auto

lemma link_ids:
  assumes "link_ok (dom (clients s)) K l"
  obtains clr cle where "rd_id s (l_caller_id l) = Some clr" "rd_id s (l_callee_id l) = Some cle"
  using assms end_ok_rd_id unfolding link_ok_def by blast

text \<open>Searching the list always has a result, and it is right.\<close>

lemma cclink_search_loop_ok:
  assumes "\<forall>p\<in>set ps. \<exists>l. cclinks s p = Some l \<and> link_ok (dom (clients s)) K l"
  shows "\<exists>r. cclink_search_loop s a b ps = Some r \<and>
     (\<forall>p. r = Some p \<longrightarrow> p \<in> set ps \<and> (\<exists>l. cclinks s p = Some l \<and> rd_id s (l_caller_id l) = Some a
        \<and> rd_id s (l_callee_id l) = Some b))"
  using assms
proof (induction ps)
  case (Cons q ps)
  then obtain l where l: "cclinks s q = Some l" "link_ok (dom (clients s)) K l" by auto
  then obtain clr cle where "rd_id s (l_caller_id l) = Some clr" "rd_id s (l_callee_id l) = Some cle"
    by (rule_tac link_ids)
  with Cons l show ?case by auto
qed simp

lemma cclink_list_search_ok:
  assumes "node_inv s"
  obtains r where "cclink_list_search s a b = Some r"
    "\<forall>p. r = Some p \<longrightarrow> p \<in> set (cclink_list s) \<and> (\<exists>l. cclinks s p = Some l \<and> rd_id s (l_caller_id l) = Some a
        \<and> rd_id s (l_callee_id l) = Some b)"
proof -
  have "\<forall>p\<in>set (cclink_list s). \<exists>l. cclinks s p = Some l \<and> link_ok (dom (clients s)) (dom (nodelinks s)) l"
    using inv_link inv_link_list node_inv_links [OF assms] by blast
  from cclink_search_loop_ok [OF this, of a b] that show thesis
    unfolding cclink_list_search_def by blast
qed

lemma findwaitsearch_loop_ok:
  assumes "\<forall>p\<in>set ps. \<exists>l. cclinks s p = Some l \<and> link_ok (dom (clients s)) K l"
  shows "\<exists>r. findwaitsearch_loop s b ps = Some r \<and>
     (\<forall>p. r = Some p \<longrightarrow> p \<in> set ps \<and> (\<exists>l. cclinks s p = Some l \<and> rd_id s (l_callee_id l) = Some b
        \<and> l_state l = PICA_CCLINK_N2NCLR_WAITSEARCH))"
  using assms
proof (induction ps)
  case (Cons q ps)
  then obtain l where l: "cclinks s q = Some l" "link_ok (dom (clients s)) K l" by auto
  then obtain clr cle where "rd_id s (l_caller_id l) = Some clr" "rd_id s (l_callee_id l) = Some cle"
    by (rule_tac link_ids)
  with Cons l show ?case by auto
qed simp

lemma findwaitsearch_ok:
  assumes "node_inv s"
  obtains r where "cclink_list_findwaitsearch s b = Some r"
    "\<forall>p. r = Some p \<longrightarrow> p \<in> set (cclink_list s) \<and> (\<exists>l. cclinks s p = Some l \<and> rd_id s (l_callee_id l) = Some b
        \<and> l_state l = PICA_CCLINK_N2NCLR_WAITSEARCH)"
proof -
  have "\<forall>p\<in>set (cclink_list s). \<exists>l. cclinks s p = Some l \<and> link_ok (dom (clients s)) (dom (nodelinks s)) l"
    using inv_link inv_link_list node_inv_links [OF assms] by blast
  from findwaitsearch_loop_ok [OF this, of b] that show thesis
    unfolding cclink_list_findwaitsearch_def by blast
qed

text \<open>Deleting a link.\<close>

lemma heap_list_remove:
  "heap_list b h xs \<Longrightarrow> heap_list b (h(p := None)) (remove1 p xs)"
  by (auto simp: heap_list_def)

lemma of_nat_minus1: "0 < n \<Longrightarrow> (of_nat n :: u32) - 1 = of_nat (n - 1)"
  by (simp add: of_nat_diff)

lemma cclink_list_delete_ok:
  assumes inv: "links_inv s" and p: "cclinks s p = Some l"
  obtains s' where "cclink_list_delete p s = Some s'" "links_inv s'"
    "s' = s\<lparr>cclink_list := remove1 p (cclink_list s), closed_socks := closed_socks s @ link_sockets l,
       cclinks := (cclinks s)(p := None), cclink_list_count := cclink_list_count s - 1\<rparr>"
proof -
  let ?s = "s\<lparr>cclink_list := remove1 p (cclink_list s), closed_socks := closed_socks s @ link_sockets l,
     cclinks := (cclinks s)(p := None), cclink_list_count := cclink_list_count s - 1\<rparr>"
  have l: "l_buf_p1p2 l \<noteq> FreedBuf" "l_buf_p2p1 l \<noteq> FreedBuf" using inv_link [OF inv p] by (auto simp: link_ok_def)
  have mem: "p \<in> set (cclink_list s)" using inv p by (auto simp: links_inv_def heap_list_def)
  then have "0 < length (cclink_list s)" by (auto intro: length_pos_if_in_set)
  with inv have cnt: "cclink_list_count s - 1 = of_nat (length (remove1 p (cclink_list s)))"
    using mem by (simp add: links_inv_def of_nat_minus1 length_remove1)
  have "links_inv ?s"
    using inv cnt heap_list_remove by (auto simp: links_inv_def ran_def)
  with p l show thesis
    by (intro that [of ?s]) (simp_all add: cclink_list_delete_def)
qed

text \<open>The loops that delete every link with some property.\<close>

lemma delete_links_loop_ok:
  assumes "links_inv s" "distinct ps" "set ps \<subseteq> dom (cclinks s)"
  shows "\<exists>s'. delete_links_loop P ps s = Some s' \<and> links_inv s' \<and>
     (\<forall>q. cclinks s' q = (if q \<in> set ps \<and> P (the (cclinks s q)) then None else cclinks s q)) \<and>
     clients s' = clients s \<and> nodelinks s' = nodelinks s \<and> nenv s' = nenv s \<and> newconns s' = newconns s \<and>
     client_list s' = client_list s \<and> nodelink_list s' = nodelink_list s \<and> next_ptr s' = next_ptr s \<and>
     client_tree_root s' = client_tree_root s \<and> nodelink_list_count s' = nodelink_list_count s"
  using assms
proof (induction ps arbitrary: s)
  case (Cons p ps)
  then obtain l where l: "cclinks s p = Some l" by auto
  show ?case
  proof (cases "P l")
    case True
    obtain s1 where 1: "cclink_list_delete p s = Some s1" "links_inv s1"
      "s1 = s\<lparr>cclink_list := remove1 p (cclink_list s), closed_socks := closed_socks s @ link_sockets l,
         cclinks := (cclinks s)(p := None), cclink_list_count := cclink_list_count s - 1\<rparr>"
      by (rule cclink_list_delete_ok [OF Cons.prems(1) l])
    have "set ps \<subseteq> dom (cclinks s1)" using Cons.prems 1(3) by auto
    from Cons.IH [OF 1(2) _ this] Cons.prems True l 1 show ?thesis by auto
  next
    case False
    have eq: "q \<in> set (p # ps) \<and> P (the (cclinks s q)) \<longleftrightarrow> q \<in> set ps \<and> P (the (cclinks s q))" for q
      using False l by auto
    have step: "delete_links_loop P (p # ps) s = delete_links_loop P ps s" using False l by simp
    show ?thesis unfolding eq step using Cons.prems by (intro Cons.IH) auto
  qed
qed simp

text \<open>Adding a link.\<close>

lemma heap_list_add:
  "heap_list b h xs \<Longrightarrow> heap_list (Suc b) (h(b \<mapsto> x)) (xs @ [b])"
  unfolding heap_list_def by (fastforce simp: less_Suc_eq)

lemma heap_list_mono: "heap_list b h xs \<Longrightarrow> heap_list (Suc b) h xs"
  unfolding heap_list_def by (meson less_SucI)

lemma node_inv_new_link:
  assumes inv: "node_inv s" and l: "link_ok (dom (clients s)) (dom (nodelinks s)) l"
  shows "node_inv (s\<lparr>next_ptr := Suc (next_ptr s), cclinks := (cclinks s)(next_ptr s \<mapsto> l),
     cclink_list := cclink_list s @ [next_ptr s], cclink_list_count := cclink_list_count s + 1\<rparr>)"
  using inv l heap_list_add [of "next_ptr s" "cclinks s" "cclink_list s" l] unfolding node_inv_def links_inv_def
  by (auto simp: ran_def intro: heap_list_mono)

lemma mem_okD: "mem_ok s \<Longrightarrow> env_alloc (nenv s) = (True, (nenv s)\<lparr>n_alloc := Suc (n_alloc (nenv s))\<rparr>)"
  by (simp add: mem_ok_def env_alloc_def)

lemma good_env: "alloc_ok e = alloc_ok (nenv s) \<Longrightarrow> good s \<Longrightarrow> good (s\<lparr>nenv := e\<rparr>)"
  using good_same same_env by blast

lemma good_new_link:
  assumes "good s" and "link_ok (dom (clients s)) (dom (nodelinks s)) l" "alloc_ok e = alloc_ok (nenv s)"
  shows "good (s\<lparr>nenv := e, next_ptr := Suc (next_ptr s), cclinks := (cclinks s)(next_ptr s \<mapsto> l),
     cclink_list := cclink_list s @ [next_ptr s], cclink_list_count := cclink_list_count s + 1\<rparr>)"
proof -
  let ?s = "s\<lparr>nenv := e\<rparr>"
  have g: "good ?s" by (rule good_env [OF assms(3,1)])
  have "link_ok (dom (clients ?s)) (dom (nodelinks ?s)) l" using assms(2) by simp
  with g have n: "node_inv (?s\<lparr>next_ptr := Suc (next_ptr ?s), cclinks := (cclinks ?s)(next_ptr ?s \<mapsto> l),
     cclink_list := cclink_list ?s @ [next_ptr ?s], cclink_list_count := cclink_list_count ?s + 1\<rparr>)"
    by (intro node_inv_new_link) (auto simp: good_def)
  then show ?thesis using g by (auto simp: good_def mem_ok_def tree_ok_def)
qed

section \<open>Concrete nodes\<close>

text \<open>A node that has just started, and one with two connected clients.\<close>

definition empty_node :: node where
  "empty_node = \<lparr>nenv = calm_env, next_ptr = 0, newconns = replicate MAX_NEWCONNS empty_newconn, newconns_pos = 0,
     clients = Map.empty, client_list = [], client_tree_root = None, cclinks = Map.empty, cclink_list = [],
     cclink_list_count = 0, nodelinks = Map.empty, nodelink_list = [], nodelink_list_count = 0,
     closed_socks = [], saved_addrs = [], announced_addr = 0, listen_port = 0,
     disable_reserved_addrs = False, my_addr = 0\<rparr>"

definition id_a :: pid where "id_a = replicate PICA_ID_SIZE 1"
definition id_b :: pid where "id_b = replicate PICA_ID_SIZE 2"

definition pair_node :: node where
  "pair_node =
     empty_node\<lparr>next_ptr := 3,
       clients := [1 \<mapsto> blank_client\<lparr>c_id := id_a, c_right := Some 2\<rparr>,
                   2 \<mapsto> blank_client\<lparr>c_id := id_b, c_up := Some 1\<rparr>],
       client_list := [1, 2], client_tree_root := Some 1\<rparr>"

lemma pair_node_clients [simp]:
  "clients pair_node 1 = Some (blank_client\<lparr>c_id := id_a, c_right := Some 2\<rparr>)"
  "clients pair_node (Suc 0) = Some (blank_client\<lparr>c_id := id_a, c_right := Some 2\<rparr>)"
  "clients pair_node 2 = Some (blank_client\<lparr>c_id := id_b, c_up := Some 1\<rparr>)"
  by (simp_all add: pair_node_def)

lemma id_a_less_b: "id_a < id_b"
  by (simp add: id_a_def id_b_def numeral_eq_Suc)

lemma pair_node_tree: "tree_wf (clients pair_node) (client_tree_root pair_node) (Node Leaf 1 (Node Leaf 2 Leaf))"
  using id_a_less_b
  by (auto simp: tree_wf_def ordered_def id_at_def pair_node_def blank_client_def)

lemma pair_node_good: "good pair_node"
proof -
  have "node_inv pair_node"
    by (auto simp: node_inv_def links_inv_def heap_list_def pair_node_def empty_node_def)
  moreover have "\<exists>ps. chain (clients pair_node) (c_next_multi c) ps" if "clients pair_node p = Some c" for p c
  proof -
    have "c_next_multi c = None" using that by (auto simp: pair_node_def blank_client_def split: if_splits)
    then show ?thesis by (intro exI [of _ "[]"]) simp
  qed
  moreover have "mem_ok pair_node" by (simp add: mem_ok_def pair_node_def empty_node_def calm_env_def)
  ultimately show ?thesis using pair_node_tree unfolding good_def tree_ok_def tree_wf_def by blast
qed

end
