(* ===== verification/NodeSafety.thy ===== *)
theory NodeSafety
  imports NodeInv
begin

text \<open>
  Safety of the message handlers: in a state that satisfies the invariant no message of
  a client can make the node fault, and the invariant holds again afterwards.
\<close>

section \<open>Helper steps\<close>

text \<open>The invariant holds again and the connections are the same.\<close>

definition keeps :: "node \<Rightarrow> node \<Rightarrow> bool" where
  "keeps s s' \<longleftrightarrow> good s' \<and> dom (clients s') = dom (clients s) \<and> dom (nodelinks s') = dom (nodelinks s)"

lemma keeps_refl: "good s \<Longrightarrow> keeps s s"
  by (simp add: keeps_def)

lemma keeps_same: "good s \<Longrightarrow> same s s' \<Longrightarrow> keeps s s'"
  using good_same by (auto simp: keeps_def same_def same_core_def)

lemma keeps_trans: "keeps s s' \<Longrightarrow> keeps s' s'' \<Longrightarrow> keeps s s''"
  by (simp add: keeps_def)

lemma keeps_good: "keeps s s' \<Longrightarrow> good s'"
  by (simp add: keeps_def)

lemma keeps_delete:
  assumes "good s" "cclinks s p = Some l"
  obtains s' where "cclink_list_delete p s = Some s'" "keeps s s'"
proof -
  have "links_inv s" using assms(1) by (simp add: good_def node_inv_def)
  from cclink_list_delete_ok [OF this assms(2)] obtain s' where
    s': "cclink_list_delete p s = Some s'" "links_inv s'"
      "s' = s\<lparr>cclink_list := remove1 p (cclink_list s), closed_socks := closed_socks s @ link_sockets l,
         cclinks := (cclinks s)(p := None), cclink_list_count := cclink_list_count s - 1\<rparr>" .
  have "keeps s s'"
    using assms(1) s'(2,3) by (simp add: keeps_def good_def node_inv_def mem_ok_def tree_ok_def)
  with s'(1) that show thesis by blast
qed

lemma tree_search_live:
  assumes "tree_ok s"
  obtains r where "client_tree_search (clients s) (client_tree_root s) uid = Some r"
    "\<forall>q. r = Some q \<longrightarrow> (\<exists>c. clients s q = Some c \<and> c_id c = uid)"
proof -
  from assms obtain t where t: "shape (clients s) (client_tree_root s) t" "ordered (clients s) t"
    by (auto simp: tree_ok_def)
  from tree_search_loop_correct [OF this, of uid] obtain r where
    r: "tree_search_loop (clients s) uid (client_tree_root s) = Some r"
      "\<forall>q. r = Some q \<longleftrightarrow> q \<in> set_tree t \<and> id_at (clients s) q = uid"
    by (elim exE conjE)
  have "\<forall>q. r = Some q \<longrightarrow> (\<exists>c. clients s q = Some c \<and> c_id c = uid)"
  proof (intro allI impI)
    fix q assume "r = Some q"
    with r(2) have q: "q \<in> set_tree t" "id_at (clients s) q = uid" by blast+
    with shape_dom [OF t(1) q(1)] show "\<exists>c. clients s q = Some c \<and> c_id c = uid"
      by (auto simp: id_at_def)
  qed
  with r(1) that show thesis by (simp add: client_tree_search_def)
qed

lemma same_live: "same s s' \<Longrightarrow> clients s p = Some c \<Longrightarrow> \<exists>c'. clients s' p = Some c'"
  by (auto simp: same_def same_core_def)

lemma same_live_node: "same s s' \<Longrightarrow> nodelinks s p = Some c \<Longrightarrow> \<exists>c'. nodelinks s' p = Some c'"
  by (auto simp: same_def same_core_def)

lemma same_cclinks: "same s s' \<Longrightarrow> cclinks s' = cclinks s"
  by (simp add: same_def same_core_def)

lemma new_link_ok:
  assumes "clr \<in> dom (clients s)" "cle \<in> dom (clients s)"
  shows "link_ok (dom (clients s)) K ((new_cclink (Some clr) (Some cle) t)
      \<lparr>l_state := PICA_CCLINK_LOCAL_WAITREP, l_caller_id := Some (IdOf clr), l_callee_id := Some (IdOf cle)\<rparr>)"
    "link_ok (dom (clients s)) K ((new_cclink (Some clr) None t)
      \<lparr>l_state := PICA_CCLINK_N2NCLR_WAITSEARCH, l_caller_id := Some (IdOf clr), l_callee_id := Some (IdCopy i)\<rparr>)"
    "n \<in> K \<Longrightarrow> link_ok (dom (clients s)) K ((new_cclink None (Some cle) t)
      \<lparr>l_state := PICA_CCLINK_N2NCLE_WAITREP, l_caller_id := Some (IdCopy i), l_callee_id := Some (IdOf cle),
       l_caller_node := Some n\<rparr>)"
  using assms by (simp_all add: link_ok_def state_ok_def new_cclink_def has_bufs_def)

lemma cclink_list_add_mem:
  "mem_ok s \<Longrightarrow> cclink_list_add clr cle s = (Some (next_ptr s),
     s\<lparr>nenv := (nenv s)\<lparr>n_alloc := Suc (n_alloc (nenv s))\<rparr>, next_ptr := Suc (next_ptr s),
       cclinks := (cclinks s)(next_ptr s \<mapsto> new_cclink clr cle (now (nenv s))),
       cclink_list := cclink_list s @ [next_ptr s], cclink_list_count := cclink_list_count s + 1\<rparr>)"
  by (simp add: cclink_list_add_def mem_okD Let_def)

lemma addlocal_good:
  assumes "good s" "clients s clr = Some c1" "clients s cle = Some c2"
  obtains s' where "cclink_list_addlocal clr cle s = Some s'" "keeps s s'" "clients s' = clients s"
    "cclink_list s' = cclink_list s @ [next_ptr s]"
    "cclinks s' = (cclinks s)(next_ptr s \<mapsto> (new_cclink (Some clr) (Some cle) (now (nenv s)))
      \<lparr>l_state := PICA_CCLINK_LOCAL_WAITREP, l_caller_id := Some (IdOf clr), l_callee_id := Some (IdOf cle)\<rparr>)"
proof -
  let ?l = "(new_cclink (Some clr) (Some cle) (now (nenv s)))
      \<lparr>l_state := PICA_CCLINK_LOCAL_WAITREP, l_caller_id := Some (IdOf clr), l_callee_id := Some (IdOf cle)\<rparr>"
  let ?e = "(nenv s)\<lparr>n_alloc := Suc (n_alloc (nenv s))\<rparr>"
  let ?s = "s\<lparr>nenv := ?e, next_ptr := Suc (next_ptr s), cclinks := (cclinks s)(next_ptr s \<mapsto> ?l),
     cclink_list := cclink_list s @ [next_ptr s], cclink_list_count := cclink_list_count s + 1\<rparr>"
  have m: "mem_ok s" using assms(1) by (simp add: good_def)
  have "link_ok (dom (clients s)) (dom (nodelinks s)) ?l" using assms by (intro new_link_ok) auto
  then have "good ?s" by (rule good_new_link [OF assms(1)]) simp
  then have "keeps s ?s" by (simp add: keeps_def)
  then show thesis
    by (intro that [of ?s]) (simp_all add: cclink_list_addlocal_def upd_cclink_def cclink_list_add_mem [OF m])
qed

lemma addn2nclr_good:
  assumes "good s" "clients s clr = Some c1"
  obtains s' where "cclink_list_addn2nclr clr i s = Some s'" "keeps s s'"
proof -
  let ?l = "(new_cclink (Some clr) None (now (nenv s)))
      \<lparr>l_state := PICA_CCLINK_N2NCLR_WAITSEARCH, l_caller_id := Some (IdOf clr), l_callee_id := Some (IdCopy i)\<rparr>"
  let ?e = "(nenv s)\<lparr>n_alloc := Suc (Suc (n_alloc (nenv s)))\<rparr>"
  let ?s = "s\<lparr>nenv := ?e, next_ptr := Suc (next_ptr s), cclinks := (cclinks s)(next_ptr s \<mapsto> ?l),
     cclink_list := cclink_list s @ [next_ptr s], cclink_list_count := cclink_list_count s + 1\<rparr>"
  have m: "mem_ok s" using assms(1) by (simp add: good_def)
  have "link_ok (dom (clients s)) (dom (nodelinks s)) ?l" using assms new_link_ok(2) [of clr s clr] by auto
  then have "good ?s" by (rule good_new_link [OF assms(1)]) simp
  then have "keeps s ?s" by (simp add: keeps_def)
  then show thesis
    by (intro that [of ?s])
      (use m in \<open>simp_all add: cclink_list_addn2nclr_def upd_cclink_def cclink_list_add_mem [OF m] env_alloc_def mem_ok_def\<close>)
qed

lemma addn2ncle_good:
  assumes "good s" "clients s cle = Some c2" "nodelinks s n = Some k"
  obtains s' where "cclink_list_addn2ncle i n cle s = Some s'" "keeps s s'"
proof -
  let ?l = "(new_cclink None (Some cle) (now (nenv s)))
      \<lparr>l_state := PICA_CCLINK_N2NCLE_WAITREP, l_caller_id := Some (IdCopy i), l_callee_id := Some (IdOf cle),
       l_caller_node := Some n\<rparr>"
  let ?e = "(nenv s)\<lparr>n_alloc := Suc (Suc (n_alloc (nenv s)))\<rparr>"
  let ?s = "s\<lparr>nenv := ?e, next_ptr := Suc (next_ptr s), cclinks := (cclinks s)(next_ptr s \<mapsto> ?l),
     cclink_list := cclink_list s @ [next_ptr s], cclink_list_count := cclink_list_count s + 1\<rparr>"
  have m: "mem_ok s" using assms(1) by (simp add: good_def)
  have "link_ok (dom (clients s)) (dom (nodelinks s)) ?l"
    using assms new_link_ok(3) [of cle s cle n "dom (nodelinks s)"] by auto
  then have "good ?s" by (rule good_new_link [OF assms(1)]) simp
  then have "keeps s ?s" by (simp add: keeps_def)
  then show thesis
    by (intro that [of ?s])
      (use m in \<open>simp_all add: cclink_list_addn2ncle_def upd_cclink_def cclink_list_add_mem [OF m] env_alloc_def mem_ok_def\<close>)
qed

lemma listmap_same:
  assumes "\<And>p s. p \<in> dom (nodelinks s) \<Longrightarrow> \<exists>s'. f p s = Some s' \<and> same s s'"
  shows "set ps \<subseteq> dom (nodelinks s) \<Longrightarrow> \<exists>s'. listmap f ps s = Some s' \<and> same s s'"
proof (induction ps arbitrary: s)
  case (Cons p ps)
  then obtain s1 where 1: "f p s = Some s1" "same s s1" using assms [of p s] by auto
  then have "set ps \<subseteq> dom (nodelinks s1)" using Cons.prems by (auto simp: same_def same_core_def)
  from Cons.IH [OF this] 1 same_trans show ?case by auto
qed simp

lemma sendsearch_same: "p \<in> dom (nodelinks s) \<Longrightarrow> \<exists>s'. mapfunc_sendsearchreq uid p s = Some s' \<and> same s s'"
  by (auto simp: mapfunc_sendsearchreq_def elim!: nodelink_send_same)

lemma sendmultilogin_same:
  assumes "rd16 buf 2 = Some n" "4 + n \<le> length buf" "p \<in> dom (nodelinks s)"
  shows "\<exists>s'. mapfunc_sendmultilogin buf p s = Some s' \<and> same s s'"
proof -
  obtain k where "nodelinks s p = Some k" using assms(3) by auto
  then obtain ok s' where "nodelink_send p PICA_PROTO_MULTILOGIN (of_nat (n + 4)) (take (n + 2) (drop 2 buf)) s = Some (ok, s')"
    "same s s'" by (rule nodelink_send_same)
  with assms show ?thesis by (simp add: mapfunc_sendmultilogin_def)
qed

lemma relay_multi_same:
  "chain (clients s) q ps \<Longrightarrow> \<exists>s'. relay_multi skip n t q s = Some s' \<and> same s s'"
proof (induction ps arbitrary: q s)
  case Nil
  then show ?case by (subst relay_multi.simps) simp
next
  case (Cons p ps)
  then obtain c where c: "q = Some p" "clients s p = Some c" "chain (clients s) (c_next_multi c) ps" by auto
  obtain ok s1 where "client_send p PICA_PROTO_MULTILOGIN n t s = Some (ok, s1)" "same s s1"
    by (rule client_send_same [OF c(2)])
  then obtain s2 where 2: "(if skip = Some p then Some s else
      do { (ok, s) \<leftarrow> client_send p PICA_PROTO_MULTILOGIN n t s; Some s }) = Some s2" "same s s2"
    by (cases "skip = Some p") auto
  from 2(2) have st: "same_tree s s2" by (simp add: same_def)
  from same_tree_at [OF st c(2)] obtain c' where c': "clients s2 p = Some c'" "tree_fields c' = tree_fields c" .
  have "chain (clients s2) (c_next_multi c') ps"
    using chain_same_tree [OF st c(3)] c'(2) by (simp add: tree_fields_def)
  from Cons.IH [OF this] obtain s3 where "relay_multi skip n t (c_next_multi c') s2 = Some s3" "same s2 s3" by blast
  with 2 c c'(1) same_trans [OF 2(2)] show ?case by (subst relay_multi.simps) auto
qed

lemma nodelist_loop_total:
  assumes "set ps \<subseteq> dom (nodelinks s)" "\<forall>k\<in>ran (nodelinks s). nodelink_ok k"
  shows "\<exists>nl. nodelist_loop s None acc ps = Some nl"
  using assms(1)
proof (induction ps arbitrary: acc)
  case (Cons p ps)
  then obtain k where k: "nodelinks s p = Some k" by auto
  with assms(2) have "nodelink_ok k" by (auto intro: ranI)
  with k Cons show ?case by (auto simp: nodelink_ok_def)
qed simp

section \<open>Handlers of client messages\<close>

lemma inv_nodelist: "good s \<Longrightarrow> set (nodelink_list s) \<subseteq> dom (nodelinks s)"
  by (simp add: good_def node_inv_def heap_list_def)

lemma PINGREQ_client_good:
  "good s \<Longrightarrow> clients s p = Some c \<Longrightarrow> \<exists>r s'. procmsg_PINGREQ_client buf n p s = Some (r, s') \<and> keeps s s'"
proof -
  assume g: "good s" and "clients s p = Some c"
  then obtain ok s' where "client_send_rand p PICA_PROTO_PINGREP PICA_PROTO_PINGREP_SIZE s = Some (ok, s')" "same s s'"
    using send_rand_same(1) by blast
  with keeps_same [OF g] show ?thesis by (simp add: procmsg_PINGREQ_client_def)
qed

lemma PINGREP_client_good:
  assumes "good s" "clients s p = Some c"
  shows "\<exists>r s'. procmsg_PINGREP_client buf n p s = Some (r, s') \<and> keeps s s'"
proof -
  obtain s' where "upd_client p (\<lambda>x. x\<lparr>c_disconnect_ticking := False, c_tmst := now (nenv s)\<rparr>) s = Some s'" "same s s'"
    by (rule upd_client_same [OF assms(2), where f = "\<lambda>c. c\<lparr>c_disconnect_ticking := False, c_tmst := now (nenv s)\<rparr>"])
      (simp_all add: tree_fields_def)
  with keeps_same [OF assms(1)] show ?thesis by (simp add: procmsg_PINGREP_client_def)
qed

lemma searchreq_good:
  assumes "good s" shows "\<exists>b s'. nodelink_send_searchreq uid s = Some (b, s') \<and> same s s'"
proof (cases "nodelink_list_count s = 0")
  case False
  from listmap_same [where f = "mapfunc_sendsearchreq uid", OF sendsearch_same inv_nodelist [OF assms]]
  obtain s' where "listmap (mapfunc_sendsearchreq uid) (nodelink_list s) s = Some s'" "same s s'" by blast
  with False show ?thesis by (auto simp: nodelink_send_searchreq_def)
qed (auto simp: nodelink_send_searchreq_def)

lemma CONNREQOUTG_good:
  assumes g: "good s" and i: "clients s i = Some ic" and len: "30 \<le> length buf"
  shows "\<exists>r s'. procmsg_CONNREQOUTG buf n i s = Some (r, s') \<and> keeps s s'"
proof -
  let ?cid = "take 28 (drop 2 buf)"
  have inv: "node_inv s" "tree_ok s" using g by (auto simp: good_def)
  obtain r where r: "client_tree_search (clients s) (client_tree_root s) ?cid = Some r"
    "\<forall>q. r = Some q \<longrightarrow> (\<exists>c. clients s q = Some c \<and> c_id c = ?cid)" by (rule tree_search_live [OF inv(2)])
  show ?thesis
  proof (cases r)
    case (Some q)
    then obtain c where c: "clients s q = Some c" using r by blast
    obtain dup where dup: "cclink_list_search s (c_id ic) ?cid = Some dup" by (rule cclink_list_search_ok [OF inv(1)])
    obtain ok s1 where 1: "client_send q PICA_PROTO_CONNREQINC PICA_PROTO_CONNREQINC_SIZE (c_id ic) s = Some (ok, s1)"
      "same s s1" by (rule client_send_same [OF c])
    note k1 = keeps_same [OF g 1(2)]
    note g1 = keeps_good [OF k1]
    obtain c' ic' where c': "clients s1 q = Some c'" "clients s1 i = Some ic'" using same_live [OF 1(2)] c i by blast
    obtain s2 where 2: "cclink_list_addlocal i q s1 = Some s2" "keeps s1 s2" "clients s2 = clients s1"
      by (rule addlocal_good [OF g1 c'(2,1)])
    obtain s3 where 3: "upd_client q (\<lambda>c. c\<lparr>c_tmst := now (nenv s2), c_disconnect_ticking := True\<rparr>) s2 = Some s3" "same s2 s3"
      by (rule upd_client_same [of s2 q c' "\<lambda>c. c\<lparr>c_tmst := now (nenv s2), c_disconnect_ticking := True\<rparr>"]) (use c' 2 in \<open>simp_all add: tree_fields_def\<close>)
    show ?thesis
      using len i r(1) Some dup 1 2(1) 3 keeps_refl [OF g] k1
        keeps_trans [OF k1 keeps_trans [OF 2(2) keeps_same [OF keeps_good [OF 2(2)] 3(2)]]]
      by (simp add: procmsg_CONNREQOUTG_def)
  next
    case None
    obtain w where w: "cclink_list_findwaitsearch s ?cid = Some w" by (rule findwaitsearch_ok [OF inv(1)])
    from searchreq_good [OF g] obtain b0 s0 where "nodelink_send_searchreq ?cid s = Some (b0, s0)" "same s s0" by blast
    then obtain b s1 where 1: "(if w \<noteq> None then Some (True, s) else nodelink_send_searchreq ?cid s) = Some (b, s1)" "same s s1"
      by (cases "w = None") auto
    note k1 = keeps_same [OF g 1(2)]
    note g1 = keeps_good [OF k1]
    obtain ic' where i': "clients s1 i = Some ic'" using same_live [OF 1(2) i] by blast
    obtain s2 where 2: "cclink_list_addn2nclr i ?cid s1 = Some s2" "keeps s1 s2" by (rule addn2nclr_good [OF g1 i'])
    obtain ok s3 where 3: "client_send i PICA_PROTO_NOTFOUND PICA_PROTO_NOTFOUND_SIZE ?cid s1 = Some (ok, s3)" "same s1 s3"
      by (rule client_send_same [OF i'])
    show ?thesis
      using len i r(1) None w 1 2(1) 3(1) keeps_trans [OF k1 2(2)] keeps_trans [OF k1 keeps_same [OF g1 3(2)]]
      by (cases b) (simp_all add: procmsg_CONNREQOUTG_def)
  qed
qed

lemma upd_cclink_good:
  assumes "good s" "cclinks s p = Some l" "link_ok (dom (clients s)) (dom (nodelinks s)) (f l)"
  shows "\<exists>s'. upd_cclink p f s = Some s' \<and> keeps s s'"
proof -
  let ?s = "s\<lparr>cclinks := (cclinks s)(p \<mapsto> f l)\<rparr>"
  have "dom ((cclinks s)(p \<mapsto> f l)) = dom (cclinks s)" using assms(2) by auto
  moreover have "\<forall>l\<in>ran ((cclinks s)(p \<mapsto> f l)). link_ok (dom (clients s)) (dom (nodelinks s)) l"
    using assms by (auto simp: good_def node_inv_def links_inv_def ran_def)
  ultimately have "node_inv ?s" using assms(1) by (auto simp: good_def node_inv_def links_inv_def heap_list_def)
  then have "good ?s" using assms(1) by (simp add: good_def mem_ok_def tree_ok_def)
  with assms(2) show ?thesis by (simp add: upd_cclink_def keeps_def)
qed

lemma waitconn_link_ok:
  "link_ok C K l \<Longrightarrow> link_ok C K (l\<lparr>l_state := waitconn (l_state l)\<rparr>)"
  by (cases "l_state l") (auto simp: link_ok_def state_ok_def has_bufs_def)

lemma setwaitconn_good:
  assumes "good s" "cclinks s p = Some l"
  shows "\<exists>s'. cclink_setwaitconn p s = Some s' \<and> keeps s s'"
  unfolding cclink_setwaitconn_def
  using assms inv_link by (intro upd_cclink_good waitconn_link_ok) (auto simp: good_def node_inv_def)

lemma CONNALLOW_good:
  assumes g: "good s" and c: "clients s p = Some c" and len: "30 \<le> length buf"
  shows "\<exists>r s'. procmsg_CONNALLOW buf n p s = Some (r, s') \<and> keeps s s'"
proof -
  obtain s1 where 1: "upd_client p (\<lambda>c. c\<lparr>c_disconnect_ticking := False, c_tmst := now (nenv s)\<rparr>) s = Some s1"
    "same s s1" "clients s1 p = Some (c\<lparr>c_disconnect_ticking := False, c_tmst := now (nenv s)\<rparr>)"
    by (rule upd_client_same [OF c, where f = "\<lambda>c. c\<lparr>c_disconnect_ticking := False, c_tmst := now (nenv s)\<rparr>"])
      (simp_all add: tree_fields_def)
  note k1 = keeps_same [OF g 1(2)]
  note g1 = keeps_good [OF k1]
  obtain r where r: "cclink_list_search s1 (take 28 (drop 2 buf)) (c_id c) = Some r"
    "\<forall>q. r = Some q \<longrightarrow> (\<exists>l. cclinks s1 q = Some l)"
    using cclink_list_search_ok [of s1 "take 28 (drop 2 buf)" "c_id c"] g1 unfolding good_def by metis
  show ?thesis
  proof (cases r)
    case (Some q)
    then obtain l where l: "cclinks s1 q = Some l" using r by blast
    from setwaitconn_good [OF g1 this] show ?thesis
      using len 1 r Some l k1 keeps_trans [OF k1] by (auto simp: procmsg_CONNALLOW_def)
  qed (use len 1 r k1 in \<open>simp add: procmsg_CONNALLOW_def\<close>)
qed

lemma CONNDENY_good:
  assumes g: "good s" and c: "clients s p = Some c" and len: "30 \<le> length buf"
  shows "\<exists>r s'. procmsg_CONNDENY buf n p s = Some (r, s') \<and> keeps s s'"
proof -
  let ?cid = "take 28 (drop 2 buf)"
  obtain s1 where 1: "upd_client p (\<lambda>c. c\<lparr>c_disconnect_ticking := False, c_tmst := now (nenv s)\<rparr>) s = Some s1"
    "same s s1" "clients s1 p = Some (c\<lparr>c_disconnect_ticking := False, c_tmst := now (nenv s)\<rparr>)"
    by (rule upd_client_same [OF c, where f = "\<lambda>c. c\<lparr>c_disconnect_ticking := False, c_tmst := now (nenv s)\<rparr>"])
      (simp_all add: tree_fields_def)
  note k1 = keeps_same [OF g 1(2)]
  note g1 = keeps_good [OF k1]
  then have inv1: "node_inv s1" by (simp add: good_def)
  obtain r where r: "cclink_list_search s1 ?cid (c_id c) = Some r"
    "\<forall>q. r = Some q \<longrightarrow> (\<exists>l. cclinks s1 q = Some l)"
    using cclink_list_search_ok [OF inv1] by metis
  show ?thesis
  proof (cases r)
    case (Some q)
    then obtain l where l: "cclinks s1 q = Some l" using r by blast
    have lk: "link_ok (dom (clients s1)) (dom (nodelinks s1)) l" by (rule inv_link [OF node_inv_links [OF inv1] l])
    consider "l_state l = PICA_CCLINK_LOCAL_WAITREP" | "l_state l = PICA_CCLINK_N2NCLE_WAITREP"
      | "l_state l \<noteq> PICA_CCLINK_LOCAL_WAITREP" "l_state l \<noteq> PICA_CCLINK_N2NCLE_WAITREP" by blast
    then show ?thesis
    proof cases
      case loc: 1
      then obtain p1 c1 where p1: "l_p1 l = Some p1" "clients s1 p1 = Some c1"
        using lk by (auto simp: link_ok_def state_ok_def)
      obtain ok s2 where 2: "client_send p1 PICA_PROTO_NOTFOUND PICA_PROTO_NOTFOUND_SIZE (c_id c) s1 = Some (ok, s2)"
        "same s1 s2" by (rule client_send_same [OF p1(2)])
      obtain s3 where "cclink_list_delete q s2 = Some s3" "keeps s2 s3"
        by (rule keeps_delete [OF good_same [OF g1 2(2)]]) (use l same_cclinks [OF 2(2)] in auto)
      with len 1 r Some l p1 2 loc keeps_trans [OF k1 keeps_trans [OF keeps_same [OF g1 2(2)]]] show ?thesis by (simp add: procmsg_CONNDENY_def)
    next
      case rem: 2
      then obtain k kk where k: "l_caller_node l = Some k" "nodelinks s1 k = Some kk"
        using lk by (auto simp: link_ok_def state_ok_def)
      obtain ok s2 where 2: "nodelink_send k PICA_PROTO_N2NNOTFOUND PICA_PROTO_N2NNOTFOUND_SIZE (?cid @ c_id c) s1 = Some (ok, s2)"
        "same s1 s2" by (rule nodelink_send_same [OF k(2)])
      obtain s3 where "cclink_list_delete q s2 = Some s3" "keeps s2 s3"
        by (rule keeps_delete [OF good_same [OF g1 2(2)]]) (use l same_cclinks [OF 2(2)] in auto)
      with len 1 r Some l k 2 rem keeps_trans [OF k1 keeps_trans [OF keeps_same [OF g1 2(2)]]] show ?thesis by (simp add: procmsg_CONNDENY_def)
    next
      case 3
      obtain s3 where "cclink_list_delete q s1 = Some s3" "keeps s1 s3" by (rule keeps_delete [OF g1 l])
      with len 1 r Some l 3 keeps_trans [OF k1] show ?thesis by (simp add: procmsg_CONNDENY_def)
    qed
  qed (use len 1 r k1 in \<open>simp add: procmsg_CONNDENY_def\<close>)
qed

lemma CLNODELISTREQ_good:
  assumes g: "good s" and c: "clients s p = Some c" and b: "4 \<le> length buf" "buf ! 0 = ucast PICA_PROTO_CLNODELISTREQ"
  shows "\<exists>r s'. procmsg_NODELISTREQ buf n p s = Some (r, s') \<and> keeps s s'"
proof -
  define s1 where "s1 = s\<lparr>nenv := (nenv s)\<lparr>n_alloc := Suc (n_alloc (nenv s))\<rparr>\<rparr>"
  have m: "env_alloc (nenv s) = (True, (nenv s)\<lparr>n_alloc := Suc (n_alloc (nenv s))\<rparr>)"
    using g by (intro mem_okD) (simp add: good_def)
  have k1: "keeps s s1" unfolding s1_def by (rule keeps_same [OF g same_env]) simp
  note g1 = keeps_good [OF k1]
  have "set (nodelink_list s1) \<subseteq> dom (nodelinks s1)" "\<forall>k\<in>ran (nodelinks s1). nodelink_ok k"
    using inv_nodelist [OF g1] g1 by (auto simp: good_def node_inv_def)
  from nodelist_loop_total [OF this] obtain nl where
    nl: "nodelist_loop s1 None (nl_item (my_addr s1, listen_port s1)) (nodelink_list s1) = Some nl" by blast
  have s1: "my_addr s1 = my_addr s" "listen_port s1 = listen_port s" "nodelink_list s1 = nodelink_list s"
    by (simp_all add: s1_def)
  have "clients s1 p = Some c" using c by (simp add: s1_def)
  then obtain ok s2 where 2: "client_send p PICA_PROTO_CLNODELIST (of_nat (length nl) + 4) (put16 (length nl) @ nl) s1 = Some (ok, s2)"
    "same s1 s2" by (rule client_send_same)
  have "buf ! 0 \<noteq> ucast PICA_PROTO_NODELISTREQ" using b(2) by simp
  with b m nl 2 s1 keeps_trans [OF k1 keeps_same [OF g1 2(2)]] show ?thesis
    by (cases buf) (auto simp: procmsg_NODELISTREQ_def s1_def [symmetric])
qed

lemma MULTILOGIN_client_good:
  assumes g: "good s" and c: "clients s p = Some c" and b: "rd16 buf 2 = Some k" "4 + k \<le> length buf"
    and n: "unat n = 4 + k"
  shows "\<exists>r s'. procmsg_MULTILOGIN_client buf n p s = Some (r, s') \<and> keeps s s'"
proof -
  have "tree_ok s" using g by (simp add: good_def)
  then obtain r where r: "client_tree_search (clients s) (client_tree_root s) (c_id c) = Some r"
    "\<forall>q. r = Some q \<longrightarrow> (\<exists>d. clients s q = Some d \<and> c_id d = c_id c)" by (rule tree_search_live)
  obtain ps where ps: "chain (clients s) r ps"
  proof (cases r)
    case None
    then show thesis using that [of "[]"] by simp
  next
    case (Some q)
    then obtain d where d: "clients s q = Some d" using r(2) by blast
    with \<open>tree_ok s\<close> obtain ps where "chain (clients s) (c_next_multi d) ps" by (auto simp: tree_ok_def)
    with Some d that [of "q # ps"] show thesis by simp
  qed
  have m: "unat (n - 2) = k + 2" using n by (subst unat_sub) (simp_all add: word_le_nat_alt)
  from relay_multi_same [OF ps] obtain s1 where
    1: "relay_multi (Some p) n (take (k + 2) (drop 2 buf)) r s = Some s1" "same s s1" by blast
  note k1 = keeps_same [OF g 1(2)]
  note g1 = keeps_good [OF k1]
  from listmap_same [where f = "mapfunc_sendmultilogin buf", OF sendmultilogin_same [OF b] inv_nodelist [OF g1]] obtain s2 where
    2: "listmap (mapfunc_sendmultilogin buf) (nodelink_list s1) s1 = Some s2" "same s1 s2" by blast
  show ?thesis
    using c r(1) m b(2) 1(1) 2(1) keeps_trans [OF k1 keeps_same [OF g1 2(2)]]
    by (simp add: procmsg_MULTILOGIN_client_def)
qed

section \<open>The tables\<close>

lemmas client_handlers_good = CONNREQOUTG_good CONNALLOW_good CONNDENY_good CLNODELISTREQ_good
  PINGREQ_client_good PINGREP_client_good

text \<open>The state of a connected client's handlers: the invariant, and the client is alive.\<close>

definition client_inv :: "nat \<Rightarrow> node \<Rightarrow> bool" where
  "client_inv p s \<longleftrightarrow> good s \<and> p \<in> dom (clients s)"

lemma keeps_client_inv: "client_inv p s \<Longrightarrow> keeps s s' \<Longrightarrow> client_inv p s'"
  by (auto simp: client_inv_def keeps_def)

lemma keeps_result:
  "client_inv p s \<Longrightarrow> \<exists>r s'. f = Some (r, s') \<and> keeps s s' \<Longrightarrow> \<exists>r s'. f = Some (r, s') \<and> client_inv p s'"
  using keeps_client_inv by blast

interpretation comm_table: safe_table msginfo_comm client_inv
proof (unfold_locales, goal_cases)
  case (1 m)
  then show ?case by (auto simp: msginfo_comm_def table_entry_ok_def)
next
  case (2 m p s n buf)
  from 2(2) obtain c where g: "good s" and c: "clients s p = Some c" by (auto simp: client_inv_def)
  have fixed: "unat k \<le> length buf" if "m = fixed_msg i k f" for i k f
    using size_fixed [of i k f n buf] 2(3,5) that by simp
  have "\<exists>r s'. msgprocfn m buf n p s = Some (r, s') \<and> keeps s s'"
  proof (cases "m = var_msg PICA_PROTO_MULTILOGIN procmsg_MULTILOGIN_client")
    case True
    with size_var [of PICA_PROTO_MULTILOGIN PICA_MSG_VARSIZE_INT16 procmsg_MULTILOGIN_client n buf] 2(3,5) obtain k where
      "rd16 buf 2 = Some k" "unat n = 4 + k" by auto
    with MULTILOGIN_client_good [OF g c, of buf k n] 2(3) True show ?thesis by simp
  next
    case False
    with 2(1) consider "m = fixed_msg PICA_PROTO_CONNREQOUTG PICA_PROTO_CONNREQOUTG_SIZE procmsg_CONNREQOUTG"
      | "m = fixed_msg PICA_PROTO_CONNALLOW PICA_PROTO_CONNALLOW_SIZE procmsg_CONNALLOW"
      | "m = fixed_msg PICA_PROTO_CONNDENY PICA_PROTO_CONNDENY_SIZE procmsg_CONNDENY"
      | "m = fixed_msg PICA_PROTO_CLNODELISTREQ PICA_PROTO_CLNODELISTREQ_SIZE procmsg_NODELISTREQ"
      | "m = fixed_msg PICA_PROTO_PINGREQ PICA_PROTO_PINGREQ_SIZE procmsg_PINGREQ_client"
      | "m = fixed_msg PICA_PROTO_PINGREP PICA_PROTO_PINGREP_SIZE procmsg_PINGREP_client"
      unfolding msginfo_comm_def by auto
    then show ?thesis
      by cases (use fixed client_handlers_good [OF g c] 2(6) in simp_all)
  qed
  from keeps_result [OF 2(2) this] show ?case .
qed

interpretation multi_table: safe_table msginfo_multi client_inv
proof (unfold_locales, goal_cases)
  case (1 m)
  then show ?case by (auto simp: msginfo_multi_def table_entry_ok_def)
next
  case (2 m p s n buf)
  from 2(2) obtain c where g: "good s" and c: "clients s p = Some c" by (auto simp: client_inv_def)
  have "\<exists>r s'. msgprocfn m buf n p s = Some (r, s') \<and> keeps s s'"
  proof (cases "m = var_msg PICA_PROTO_MULTILOGIN procmsg_MULTILOGIN_client")
    case True
    with size_var [of PICA_PROTO_MULTILOGIN PICA_MSG_VARSIZE_INT16 procmsg_MULTILOGIN_client n buf] 2(3,5) obtain k where
      "rd16 buf 2 = Some k" "unat n = 4 + k" by auto
    with MULTILOGIN_client_good [OF g c, of buf k n] 2(3) True show ?thesis by simp
  next
    case False
    with 2(1) consider "msgprocfn m = procmsg_dummy_multi_c2n"
      | "m = fixed_msg PICA_PROTO_CLNODELISTREQ PICA_PROTO_CLNODELISTREQ_SIZE procmsg_NODELISTREQ"
      | "m = fixed_msg PICA_PROTO_PINGREQ PICA_PROTO_PINGREQ_SIZE procmsg_PINGREQ_client"
      | "m = fixed_msg PICA_PROTO_PINGREP PICA_PROTO_PINGREP_SIZE procmsg_PINGREP_client"
      unfolding msginfo_multi_def by auto
    then show ?thesis
    proof cases
      case 1
      then show ?thesis using keeps_refl [OF g] by (simp add: procmsg_dummy_multi_c2n_def)
    next
      case m: 2
      with size_fixed [of PICA_PROTO_CLNODELISTREQ PICA_PROTO_CLNODELISTREQ_SIZE procmsg_NODELISTREQ n buf] 2(3,5)
      have "4 \<le> length buf" by simp
      with m CLNODELISTREQ_good [OF g c] 2(6) show ?thesis by simp
    qed (use client_handlers_good [OF g c] in simp_all)
  qed
  from keeps_result [OF 2(2) this] show ?case .
qed

section \<open>Handlers read their own packet only\<close>

lemma rd_bytes_tail_take:
  "n \<le> length buf \<Longrightarrow> 2 \<le> n \<Longrightarrow> rd_bytes (take n buf) 2 (n - 2) = rd_bytes buf 2 (n - 2)"
  by (rule rd_bytes_take) simp_all

lemma sendmultilogin_take:
  assumes "rd16 buf 2 = Some k" "n = 4 + k" "n \<le> length buf"
  shows "mapfunc_sendmultilogin (take n buf) = mapfunc_sendmultilogin buf"
  using assms by (intro ext) (simp add: mapfunc_sendmultilogin_def del: rd_bytes_Some)

lemma MULTILOGIN_client_local:
  assumes "rd16 buf 2 = Some k" "unat n = 4 + k" "unat n \<le> length buf"
  shows "procmsg_MULTILOGIN_client (take (unat n) buf) n = procmsg_MULTILOGIN_client buf n"
proof -
  have m: "unat (n - 2) = unat n - 2" using assms(2) by (subst unat_sub) (simp_all add: word_le_nat_alt)
  have "rd_bytes (take (unat n) buf) 2 (unat (n - 2)) = rd_bytes buf 2 (unat (n - 2))"
    unfolding m using assms by (intro rd_bytes_tail_take) simp_all
  with sendmultilogin_take [OF assms] show ?thesis
    by (intro ext) (simp only: procmsg_MULTILOGIN_client_def)
qed

lemma fixed_handlers_local:
  "30 \<le> n \<Longrightarrow> n \<le> length buf \<Longrightarrow> procmsg_CONNREQOUTG (take n buf) = procmsg_CONNREQOUTG buf"
  "30 \<le> n \<Longrightarrow> n \<le> length buf \<Longrightarrow> procmsg_CONNALLOW (take n buf) = procmsg_CONNALLOW buf"
  "30 \<le> n \<Longrightarrow> n \<le> length buf \<Longrightarrow> procmsg_CONNDENY (take n buf) = procmsg_CONNDENY buf"
  "4 \<le> n \<Longrightarrow> n \<le> length buf \<Longrightarrow> procmsg_NODELISTREQ (take n buf) = procmsg_NODELISTREQ buf"
  "4 \<le> n \<Longrightarrow> n \<le> length buf \<Longrightarrow> procmsg_INITREQ (take n buf) = procmsg_INITREQ buf"
  "4 \<le> n \<Longrightarrow> n \<le> length buf \<Longrightarrow> procmsg_NODECONNREQ (take n buf) = procmsg_NODECONNREQ buf"
  "58 \<le> n \<Longrightarrow> n \<le> length buf \<Longrightarrow> procmsg_CONNID (take n buf) = procmsg_CONNID buf"
  by (intro ext, simp add: procmsg_CONNREQOUTG_def procmsg_CONNALLOW_def procmsg_CONNDENY_def
      procmsg_NODELISTREQ_def procmsg_INITREQ_def procmsg_NODECONNREQ_def procmsg_CONNID_def
      del: rd_bytes_Some rd8_Some)+

lemma no_buffer_local:
  "procmsg_PINGREQ_client b = procmsg_PINGREQ_client b'" "procmsg_PINGREP_client b = procmsg_PINGREP_client b'"
  "procmsg_dummy_multi_c2n b = procmsg_dummy_multi_c2n b'"
  by (simp_all add: fun_eq_iff procmsg_PINGREQ_client_def procmsg_PINGREP_client_def procmsg_dummy_multi_c2n_def)

interpretation newconn_msgs: msg_table msginfo_newconn
proof (unfold_locales, goal_cases)
  case (1 m)
  then show ?case by (auto simp: msginfo_newconn_def table_entry_ok_def)
next
  case (2 m n buf arg s)
  then show ?case by (auto simp: msginfo_newconn_def msg_size_ok_def fixed_handlers_local)
qed

lemma comm_handler_local:
  assumes "m \<in> set (msginfo_comm @ msginfo_multi)" "unat n \<le> length buf" "msg_size_ok m (take (unat n) buf)"
  shows "msgprocfn m (take (unat n) buf) n = msgprocfn m buf n"
proof (cases "m = var_msg PICA_PROTO_MULTILOGIN procmsg_MULTILOGIN_client")
  case True
  with size_var [of PICA_PROTO_MULTILOGIN PICA_MSG_VARSIZE_INT16 procmsg_MULTILOGIN_client n buf] assms(2,3) obtain k where
    "rd16 buf 2 = Some k" "unat n = 4 + k" by auto
  with MULTILOGIN_client_local assms(2) True show ?thesis by simp
next
  case False
  have *: "fixedsz m = 0 \<Longrightarrow> unat n = unat (sz m)" using assms(2,3) by (simp add: msg_size_ok_def)
  show ?thesis
    using assms(1,2) False *
    by (auto simp: msginfo_comm_def msginfo_multi_def fixed_handlers_local intro: no_buffer_local [THEN fun_cong])
qed

interpretation comm_msgs: msg_table msginfo_comm
proof (unfold_locales, goal_cases)
  case (1 m)
  then show ?case by (rule comm_table.entry_ok)
next
  case (2 m n buf arg s)
  then show ?case using comm_handler_local [of m n buf] by (simp add: fun_eq_iff)
qed

interpretation multi_msgs: msg_table msginfo_multi
proof (unfold_locales, goal_cases)
  case (1 m)
  then show ?case by (rule multi_table.entry_ok)
next
  case (2 m n buf arg s)
  then show ?case using comm_handler_local [of m n buf] by (simp add: fun_eq_iff)
qed

section \<open>Properties\<close>



text \<open>C11. The messages of a client are processed the same however the network cuts the
  stream: reading it in any pieces gives the result and the node state of reading it at
  once.\<close>

theorem client_stream_cut:
  assumes "length (concat rs) < 2 ^ 32 - 1" "msgs \<in> {msginfo_comm, msginfo_multi}"
  shows "map_option (\<lambda>(r, b, q, s'). (r, s')) (stream_reads msgs p [] 0 rs s) =
     map_option (\<lambda>(r, b, q, s'). (r, s'))
       (PICA_processdatastream (concat rs) (of_nat (length (concat rs))) p s msgs)"
  using comm_msgs.stream_reads_concat [OF assms(1)] multi_msgs.stream_reads_concat [OF assms(1)] assms(2) by blast

theorem client_stream_cut_witness:
  "map_option (\<lambda>(r, b, q, s'). (r, s')) (stream_reads msginfo_comm 1 [] 0 [[104], [104, 0], [0]] pair_node) =
     map_option (\<lambda>(r, b, q, s'). (r, s')) (PICA_processdatastream [104, 104, 0, 0] 4 1 pair_node msginfo_comm)"
  using client_stream_cut [of "[[104], [104, 0], [0]]" msginfo_comm 1 pair_node] by simp

text \<open>C12. Every complete packet of a client's stream reaches its handler exactly once and in
  order, until one refuses.\<close>

theorem client_stream_packets:
  assumes "\<forall>pk\<in>set ps. complete_packet msgs pk" "concat rs = concat ps" "length (concat ps) < 2 ^ 32 - 1"
    and "msgs \<in> {msginfo_comm, msginfo_multi}"
  shows "map_option (\<lambda>(r, b, q, s'). (r, s')) (stream_reads msgs p [] 0 rs s) = run_handlers msgs p ps s"
  using comm_msgs.stream_reads_packets [OF _ assms(2,3)] multi_msgs.stream_reads_packets [OF _ assms(2,3)] assms(1,4)
  by blast

theorem client_stream_packets_witness:
  "map_option (\<lambda>(r, b, q, s'). (r, s')) (stream_reads msginfo_comm 1 [] 0 [[104, 104, 0], [0, 105, 105], [1, 2]] pair_node)
     = run_handlers msginfo_comm 1 [[104, 104, 0, 0], [105, 105, 1, 2]] pair_node"
  by (rule client_stream_packets)
    (simp_all add: complete_packet_def PICA_msggetsize_def msginfo_comm_def)

end
