(* ===== verification/NodeLife.thy ===== *)
theory NodeLife
  imports NodeSafety
begin

text \<open>
  The life of connections: what deleting a client, a node link or an expired link does to
  the data structures, how the array of new connections is reused, and which steps a
  client-to-client link can take.
\<close>

section \<open>Deleting links\<close>

text \<open>The loops over the list of links delete exactly the links they look for.\<close>

lemma delete_links_all:
  assumes inv: "links_inv s"
  obtains s' where "delete_links_loop P (cclink_list s) s = Some s'" "links_inv s'"
    "\<forall>q. cclinks s' q = (case cclinks s q of Some l \<Rightarrow> if P l then None else Some l | None \<Rightarrow> None)"
    "\<forall>l\<in>ran (cclinks s'). \<not> P l"
    "clients s' = clients s" "nodelinks s' = nodelinks s" "nenv s' = nenv s" "newconns s' = newconns s"
    "client_list s' = client_list s" "nodelink_list s' = nodelink_list s" "next_ptr s' = next_ptr s"
    "client_tree_root s' = client_tree_root s" "nodelink_list_count s' = nodelink_list_count s"
proof -
  from inv have "distinct (cclink_list s)" "set (cclink_list s) \<subseteq> dom (cclinks s)"
    and set: "\<forall>q. q \<in> set (cclink_list s) \<longleftrightarrow> cclinks s q \<noteq> None"
    by (auto simp: links_inv_def heap_list_def)
  from delete_links_loop_ok [OF inv this(1,2), of P] obtain s' where
    s': "delete_links_loop P (cclink_list s) s = Some s'" "links_inv s'"
      "\<forall>q. cclinks s' q = (if q \<in> set (cclink_list s) \<and> P (the (cclinks s q)) then None else cclinks s q)"
    and fr: "clients s' = clients s" "nodelinks s' = nodelinks s" "nenv s' = nenv s" "newconns s' = newconns s"
      "client_list s' = client_list s" "nodelink_list s' = nodelink_list s" "next_ptr s' = next_ptr s"
      "client_tree_root s' = client_tree_root s" "nodelink_list_count s' = nodelink_list_count s"
    by blast
  have links: "\<forall>q. cclinks s' q = (case cclinks s q of Some l \<Rightarrow> if P l then None else Some l | None \<Rightarrow> None)"
    using s'(3) set by (auto split: option.splits)
  then have "\<forall>l\<in>ran (cclinks s'). \<not> P l" by (auto simp: ran_def split: option.splits if_splits)
  from that [OF s'(1,2) links this fr] show thesis .
qed

section \<open>Deleting a client\<close>

lemma hupd_dom: "hupd p f h = Some h' \<Longrightarrow> dom h' = dom h"
  by (cases "h p") (clarsimp simp: hupd_def insert_absorb domI)+

lemma set_link_dom: "set_link pl x h root = Some (h', root') \<Longrightarrow> dom h' = dom h"
  by (cases pl) (simp_all, (metis hupd_dom)+)

lemma option_hupd_dom:
  "(case q of None \<Rightarrow> Some h | Some l \<Rightarrow> hupd l f h) = Some h' \<Longrightarrow> dom h' = dom h"
  by (cases q) (simp_all, erule hupd_dom)

lemma replace_multi_dom: "client_tree_replace_multi h root ci = Some (h', root') \<Longrightarrow> dom h' = dom h"
  by (clarsimp simp: client_tree_replace_multi_def)
    (drule set_link_dom, drule hupd_dom, (drule option_hupd_dom)+, simp)

lemma multi_unlink_step:
  "h q = Some c \<Longrightarrow> c_next_multi c = Some ci \<Longrightarrow> h ci = Some d \<Longrightarrow>
     multi_unlink h ci q = Some (h(q \<mapsto> c\<lparr>c_next_multi := c_next_multi d\<rparr>))"
  "h q = Some c \<Longrightarrow> c_next_multi c = None \<Longrightarrow> multi_unlink h ci q = Some h"
  "h q = Some c \<Longrightarrow> c_next_multi c = Some n \<Longrightarrow> n \<noteq> ci \<Longrightarrow> multi_unlink h ci q = multi_unlink h ci n"
  by (subst multi_unlink.simps, simp)+

lemma multi_unlink_total:
  assumes "chain h (Some q) ps" "h ci = Some d"
  shows "\<exists>h'. multi_unlink h ci q = Some h' \<and> dom h' = dom h"
  using assms(1)
proof (induction ps arbitrary: q)
  case (Cons p ps)
  then obtain c where c: "h q = Some c" "chain h (c_next_multi c) ps" by auto
  consider "c_next_multi c = None" | "c_next_multi c = Some ci" | n where "c_next_multi c = Some n" "n \<noteq> ci"
    by (cases "c_next_multi c") auto
  then show ?case
  proof cases
    case 2
    have "insert q (dom h) = dom h" using c(1) by (simp add: insert_absorb domI)
    with multi_unlink_step(1) [OF c(1) 2 assms(2)] show ?thesis by simp
  next
    case (3 n)
    with c Cons.IH [of n] multi_unlink_step(3) [of h q c n ci] show ?thesis by simp
  qed (use c multi_unlink_step(2) [of h q c ci] in simp)
qed simp

text \<open>What the tree has to be for a client to leave it.\<close>

definition leaves_ok :: "node \<Rightarrow> nat \<Rightarrow> bool" where
  "leaves_ok s ci \<longleftrightarrow>
     (\<exists>t. tree_wf (clients s) (client_tree_root s) t \<and>
        (\<forall>c q. clients s ci = Some c \<longrightarrow> c_next_multi c = Some q \<longrightarrow>
           (\<exists>d. clients s q = Some d \<and> c_id d = c_id c \<and> q \<notin> set_tree t))) \<and>
     (\<forall>p c. clients s p = Some c \<longrightarrow> (\<exists>ps. chain (clients s) (c_next_multi c) ps))"

lemma client_leave_tree_total:
  assumes ok: "leaves_ok s ci" and c: "clients s ci = Some c"
  shows "\<exists>h root. client_leave_tree ci s = Some (s\<lparr>clients := h, client_tree_root := root\<rparr>) \<and> dom h = dom (clients s)"
proof -
  obtain t where wf: "tree_wf (clients s) (client_tree_root s) t"
    and nx: "\<And>q. c_next_multi c = Some q \<Longrightarrow> \<exists>d. clients s q = Some d \<and> c_id d = c_id c \<and> q \<notin> set_tree t"
    and ch: "\<And>p c. clients s p = Some c \<Longrightarrow> \<exists>ps. chain (clients s) (c_next_multi c) ps"
    using ok c by (auto simp: leaves_ok_def)
  have so: "shape (clients s) (client_tree_root s) t" "ordered (clients s) t"
    using wf by (auto simp: tree_wf_def)
  from tree_search_loop_correct [OF so, of "c_id c"] obtain r where
    r: "tree_search_loop (clients s) (c_id c) (client_tree_root s) = Some r"
      "\<forall>q. r = Some q \<longleftrightarrow> q \<in> set_tree t \<and> id_at (clients s) q = c_id c"
    by (elim exE conjE)
  have id: "s = s\<lparr>clients := clients s, client_tree_root := client_tree_root s\<rparr>" by simp
  consider "r = None" | "r = Some ci" "c_next_multi c = None" | q where "r = Some ci" "c_next_multi c = Some q"
    | q where "r = Some q" "q \<noteq> ci" by (cases r; cases "c_next_multi c") auto
  then show ?thesis
  proof cases
    case 1
    then have "client_leave_tree ci s = Some s" using c r(1) by (simp add: client_leave_tree_def client_tree_search_def)
    with id show ?thesis by metis
  next
    case 2
    with r(2) have "ci \<in> set_tree t" by blast
    from tree_removal [OF wf this c] obtain h root where
      "client_tree_remove (clients s) (client_tree_root s) ci = Some (h, root)" "same_data (clients s) h"
      unfolding removed_def by blast
    with 2 c r(1) show ?thesis
      by (auto simp: client_leave_tree_def client_tree_search_def dest!: same_data_dom)
  next
    case (3 q)
    with r(2) have "ci \<in> set_tree t" by blast
    from nx [OF 3(2)] obtain d where "clients s q = Some d" "c_id d = c_id c" "q \<notin> set_tree t" by blast
    from replace_multi [OF wf \<open>ci \<in> set_tree t\<close> c 3(2) this] obtain h root where
      h: "client_tree_replace_multi (clients s) (client_tree_root s) ci = Some (h, root)" by blast
    with 3 c r(1) replace_multi_dom [OF h] show ?thesis
      by (auto simp: client_leave_tree_def client_tree_search_def)
  next
    case (4 q)
    with r(2) have "q \<in> set_tree t" by blast
    then obtain d where d: "clients s q = Some d" using shape_dom [OF so(1)] by blast
    with ch obtain ps where "chain (clients s) (Some q) (q # ps)" by fastforce
    from multi_unlink_total [OF this c] obtain h where
      h: "multi_unlink (clients s) ci q = Some h" "dom h = dom (clients s)" by blast
    have "client_leave_tree ci s = Some (s\<lparr>clients := h, client_tree_root := client_tree_root s\<rparr>)"
      using 4 c r(1) h(1) by (simp add: client_leave_tree_def client_tree_search_def)
    with h(2) show ?thesis by blast
  qed
qed

lemma end_ok_remove: "end_ok C p i \<Longrightarrow> p \<noteq> Some ci \<Longrightarrow> end_ok (C - {ci}) p i"
  by (cases p) auto

lemma link_ok_remove_client:
  "link_ok C K l \<Longrightarrow> l_p1 l \<noteq> Some ci \<Longrightarrow> l_p2 l \<noteq> Some ci \<Longrightarrow> link_ok (C - {ci}) K l"
  by (auto simp: link_ok_def intro: end_ok_remove)

lemma client_list_delete_total:
  assumes inv: "node_inv s" and c: "clients s ci = Some c" and ok: "leaves_ok s ci"
  shows "\<exists>s'. client_list_delete ci s = Some s' \<and> node_inv s' \<and> dom (clients s') = dom (clients s) - {ci} \<and>
     (\<forall>q. cclinks s' q = (case cclinks s q of
        Some l \<Rightarrow> if l_p1 l = Some ci \<or> l_p2 l = Some ci then None else Some l | None \<Rightarrow> None))"
proof -
  let ?s0 = "s\<lparr>client_list := remove1 ci (client_list s)\<rparr>"
  have "leaves_ok ?s0 ci" using ok by (simp add: leaves_ok_def)
  from client_leave_tree_total [OF this, of c] c obtain h root where
    1: "client_leave_tree ci ?s0 = Some (?s0\<lparr>clients := h, client_tree_root := root\<rparr>)" "dom h = dom (clients s)" by auto
  let ?s1 = "?s0\<lparr>clients := h, client_tree_root := root\<rparr>"
  have "links_inv ?s1" using node_inv_links [OF inv] 1(2) by (simp add: links_inv_def)
  then obtain s2 where "cclink_list_delete_by_client ci ?s1 = Some s2" "links_inv s2" "clients s2 = clients ?s1"
      "\<forall>q. cclinks s2 q = (case cclinks ?s1 q of
         Some l \<Rightarrow> if l_p1 l = Some ci \<or> l_p2 l = Some ci then None else Some l | None \<Rightarrow> None)"
      "\<forall>l\<in>ran (cclinks s2). \<not> (l_p1 l = Some ci \<or> l_p2 l = Some ci)"
      "nodelinks s2 = nodelinks ?s1" "newconns s2 = newconns ?s1" "client_list s2 = client_list ?s1"
      "nodelink_list s2 = nodelink_list ?s1" "next_ptr s2 = next_ptr ?s1"
      "nodelink_list_count s2 = nodelink_list_count ?s1"
    unfolding cclink_list_delete_by_client_def
    by (rule delete_links_all [where P = "\<lambda>l. l_p1 l = Some ci \<or> l_p2 l = Some ci"])
  note 2 = this [simplified]
  let ?s3 = "s2\<lparr>closed_socks := closed_socks s2 @ [c_sck_comm c], clients := (clients s2)(ci := None)\<rparr>"
  have links: "cclinks s2 q = (case cclinks s q of
      Some l \<Rightarrow> if l_p1 l = Some ci \<or> l_p2 l = Some ci then None else Some l | None \<Rightarrow> None)" for q
    using 2(4) by simp
  have "l_p1 l \<noteq> Some ci \<and> l_p2 l \<noteq> Some ci" if "l \<in> ran (cclinks s2)" for l
    using that 2(5) by blast
  then have "links_inv ?s3"
    using 2(2,3) link_ok_remove_client by (auto simp: links_inv_def dom_fun_upd)
  moreover have "heap_list (next_ptr s) (h(ci := None)) (remove1 ci (client_list s))"
    using inv 1(2) heap_list_remove [of "next_ptr s" h "client_list s" ci] by (simp add: node_inv_def heap_list_def)
  ultimately have "node_inv ?s3" using inv 2 by (simp add: node_inv_def)
  moreover have "client_list_delete ci s = Some ?s3" using c 1 2 by (simp add: client_list_delete_def)
  ultimately show ?thesis using links 2(3) 1(2) by auto
qed

section \<open>Deleting a node link\<close>

lemma link_ok_remove_node:
  "link_ok C K l \<Longrightarrow> l_caller_node l \<noteq> Some n \<Longrightarrow> l_callee_node l \<noteq> Some n \<Longrightarrow> link_ok C (K - {n}) l"
  by (auto simp: link_ok_def)

lemma nodelink_list_delete_total:
  assumes inv: "node_inv s" and k: "nodelinks s n = Some k"
  shows "\<exists>s'. nodelink_list_delete n s = Some s' \<and> node_inv s' \<and> nodelinks s' = (nodelinks s)(n := None) \<and>
     (\<forall>q. cclinks s' q = (case cclinks s q of
        Some l \<Rightarrow> if l_caller_node l = Some n \<or> l_callee_node l = Some n then None else Some l | None \<Rightarrow> None))"
proof -
  let ?s1 = "s\<lparr>closed_socks := closed_socks s @ [k_sck k], nodelink_list := remove1 n (nodelink_list s)\<rparr>"
  have "links_inv ?s1" using node_inv_links [OF inv] by (simp add: links_inv_def)
  then obtain s2 where "cclink_list_delete_by_nodelink n ?s1 = Some s2" "links_inv s2" "clients s2 = clients ?s1"
      "\<forall>q. cclinks s2 q = (case cclinks ?s1 q of
         Some l \<Rightarrow> if l_caller_node l = Some n \<or> l_callee_node l = Some n then None else Some l | None \<Rightarrow> None)"
      "\<forall>l\<in>ran (cclinks s2). \<not> (l_caller_node l = Some n \<or> l_callee_node l = Some n)"
      "nodelinks s2 = nodelinks ?s1" "newconns s2 = newconns ?s1" "client_list s2 = client_list ?s1"
      "nodelink_list s2 = nodelink_list ?s1" "next_ptr s2 = next_ptr ?s1"
      "nodelink_list_count s2 = nodelink_list_count ?s1"
    unfolding cclink_list_delete_by_nodelink_def
    by (rule delete_links_all [where P = "\<lambda>l. l_caller_node l = Some n \<or> l_callee_node l = Some n"])
  note 2 = this [simplified]
  let ?s3 = "s2\<lparr>nodelink_list_count := nodelink_list_count s2 - 1, nodelinks := (nodelinks s2)(n := None)\<rparr>"
  have links: "cclinks s2 q = (case cclinks s q of
      Some l \<Rightarrow> if l_caller_node l = Some n \<or> l_callee_node l = Some n then None else Some l | None \<Rightarrow> None)" for q
    using 2(4) by simp
  have "l_caller_node l \<noteq> Some n \<and> l_callee_node l \<noteq> Some n" if "l \<in> ran (cclinks s2)" for l
    using that 2(5) by blast
  then have "links_inv ?s3"
    using 2(2) link_ok_remove_node by (auto simp: links_inv_def dom_fun_upd)
  moreover have hl: "heap_list (next_ptr s) ((nodelinks s)(n := None)) (remove1 n (nodelink_list s))"
    using inv heap_list_remove by (auto simp: node_inv_def)
  moreover have "n \<in> set (nodelink_list s)" using inv k by (auto simp: node_inv_def heap_list_def)
  then have "nodelink_list_count s - 1 = of_nat (length (remove1 n (nodelink_list s)))"
    using inv length_pos_if_in_set [of n "nodelink_list s"] by (simp add: node_inv_def of_nat_minus1 length_remove1)
  ultimately have "node_inv ?s3" using inv 2 by (auto simp: node_inv_def ran_def)
  moreover have "nodelink_list_delete n s = Some ?s3" using k 2 by (simp add: nodelink_list_delete_def)
  ultimately show ?thesis using links 2(6) by auto
qed

section \<open>New connections\<close>

text \<open>The scan stops at the first free element; when there is none it has found an oldest one.\<close>

lemma newconn_scan_spec:
  assumes "newconn_scan ns i mn mp = (pos, mpos)"
  shows "i \<le> pos \<and> pos \<le> i + length ns \<and> (\<forall>j<pos - i. n_sck (ns ! j) \<noteq> -1) \<and>
     (pos < i + length ns \<longrightarrow> n_sck (ns ! (pos - i)) = -1)"
  using assms
proof (induction ns arbitrary: i mn mp)
  case (Cons n ns)
  show ?case
  proof (cases "n_sck n = -1")
    case False
    with Cons.prems obtain mn' mp' where "newconn_scan ns (Suc i) mn' mp' = (pos, mpos)"
      by (auto split: if_splits)
    note ih = Cons.IH [OF this]
    then have "n_sck ((n # ns) ! j) \<noteq> -1" if "j < pos - i" for j
      using that False by (cases j) auto
    moreover have "pos - i = Suc (pos - Suc i)" using ih by auto
    ultimately show ?thesis using ih by auto
  qed (use Cons.prems in auto)
qed simp

lemma newconn_scan_min:
  assumes "newconn_scan ns i mn mp = (i + length ns, mpos)"
  shows "(mpos = mp \<and> (\<forall>n\<in>set ns. mn \<le> n_tmst n)) \<or>
     (i \<le> mpos \<and> mpos < i + length ns \<and> n_tmst (ns ! (mpos - i)) < mn \<and>
      (\<forall>n\<in>set ns. n_tmst (ns ! (mpos - i)) \<le> n_tmst n))"
  using assms
proof (induction ns arbitrary: i mn mp)
  case (Cons n ns)
  then have n: "n_sck n \<noteq> -1" by (auto split: if_splits)
  show ?case
  proof (cases "n_tmst n < mn")
    case True
    with Cons.prems n have "newconn_scan ns (Suc i) (n_tmst n) i = (Suc i + length ns, mpos)" by simp
    from Cons.IH [OF this] show ?thesis
    proof
      assume "mpos = i \<and> (\<forall>x\<in>set ns. n_tmst n \<le> n_tmst x)"
      with True show ?thesis by auto
    next
      assume a: "Suc i \<le> mpos \<and> mpos < Suc i + length ns \<and> n_tmst (ns ! (mpos - Suc i)) < n_tmst n \<and>
        (\<forall>x\<in>set ns. n_tmst (ns ! (mpos - Suc i)) \<le> n_tmst x)"
      then have "(n # ns) ! (mpos - i) = ns ! (mpos - Suc i)" by (simp add: nth_Cons')
      with a True show ?thesis by auto
    qed
  next
    case False
    with Cons.prems n have "newconn_scan ns (Suc i) mn mp = (Suc i + length ns, mpos)" by simp
    from Cons.IH [OF this] show ?thesis
    proof
      assume "mpos = mp \<and> (\<forall>x\<in>set ns. mn \<le> n_tmst x)"
      with False show ?thesis by auto
    next
      assume a: "Suc i \<le> mpos \<and> mpos < Suc i + length ns \<and> n_tmst (ns ! (mpos - Suc i)) < mn \<and>
        (\<forall>x\<in>set ns. n_tmst (ns ! (mpos - Suc i)) \<le> n_tmst x)"
      then have "(n # ns) ! (mpos - i) = ns ! (mpos - Suc i)" by (simp add: nth_Cons')
      with a False show ?thesis by auto
    qed
  qed
qed simp

lemma newconn_add_cases:
  assumes len: "length (newconns s) = MAX_NEWCONNS"
  obtains (free) i where "i < MAX_NEWCONNS" "n_sck (newconns s ! i) = -1" "newconn_add s = newconn_take i s"
  | (full) i where "i < MAX_NEWCONNS" "\<forall>j<MAX_NEWCONNS. n_sck (newconns s ! j) \<noteq> -1"
      "\<forall>j<MAX_NEWCONNS. n_tmst (newconns s ! i) \<le> n_tmst (newconns s ! j)"
      "newconn_add s = Option.bind (newconn_close i s) (newconn_take i)"
proof (cases "newconns_pos s < MAX_NEWCONNS \<and> n_sck (newconns s ! newconns_pos s) = -1")
  case True
  then show thesis using free [of "newconns_pos s"] by (simp add: newconn_add_def)
next
  case False
  obtain pos mpos where sc: "newconn_scan (newconns s) 0 (n_tmst (newconns s ! 0)) 0 = (pos, mpos)"
    by (cases "newconn_scan (newconns s) 0 (n_tmst (newconns s ! 0)) 0")
  note sp = newconn_scan_spec [OF sc]
  show thesis
  proof (cases "pos = MAX_NEWCONNS")
    case f: True
    then have "newconn_scan (newconns s) 0 (n_tmst (newconns s ! 0)) 0 = (0 + length (newconns s), mpos)"
      using sc len by simp
    from newconn_scan_min [OF this] len have m: "mpos < MAX_NEWCONNS"
      "\<forall>n\<in>set (newconns s). n_tmst (newconns s ! mpos) \<le> n_tmst n" by auto
    show thesis
    proof (rule full [OF m(1)])
      show "\<forall>j<MAX_NEWCONNS. n_sck (newconns s ! j) \<noteq> -1" using sp f by simp
      show "\<forall>j<MAX_NEWCONNS. n_tmst (newconns s ! mpos) \<le> n_tmst (newconns s ! j)"
        using m(2) len by simp
      show "newconn_add s = Option.bind (newconn_close mpos s) (newconn_take mpos)"
        unfolding newconn_add_def using False sc f by auto
    qed
  next
    case n: False
    with sp len have "pos < MAX_NEWCONNS" "n_sck (newconns s ! pos) = -1" by auto
    then show thesis using free [of pos] False sc n by (auto simp: newconn_add_def)
  qed
qed

section \<open>Properties\<close>

text \<open>A call from the first client of \<open>pair_node\<close> to the second, waiting for an answer, and a
  call of the first client to a user of another node.\<close>

definition call_node :: node where
  "call_node =
     pair_node\<lparr>next_ptr := 8,
       cclinks := [5 \<mapsto> (new_cclink (Some 1) (Some 2) 0)\<lparr>l_state := PICA_CCLINK_LOCAL_WAITREP,
                          l_caller_id := Some (IdOf 1), l_callee_id := Some (IdOf 2)\<rparr>,
                   7 \<mapsto> (new_cclink (Some 1) None (-20))\<lparr>l_state := PICA_CCLINK_N2NCLR_WAITREP,
                          l_caller_id := Some (IdOf 1), l_callee_id := Some (IdCopy [9]), l_callee_node := Some 6\<rparr>],
       cclink_list := [5, 7], cclink_list_count := 2,
       nodelinks := [6 \<mapsto> new_nodelink empty_newconn 0], nodelink_list := [6], nodelink_list_count := 1\<rparr>"

lemma call_node_inv: "node_inv call_node"
proof -
  have "links_inv call_node"
    by (auto simp: links_inv_def heap_list_def call_node_def pair_node_def link_ok_def state_ok_def
        has_bufs_def new_cclink_def ran_def)
  moreover have "heap_list (next_ptr call_node) (clients call_node) (client_list call_node)"
    by (auto simp: heap_list_def call_node_def pair_node_def)
  ultimately show ?thesis
    by (auto simp: node_inv_def heap_list_def call_node_def pair_node_def empty_node_def nodelink_ok_def
        new_nodelink_def ran_def)
qed

lemma call_node_leaves: "leaves_ok call_node 2"
proof -
  have c: "clients call_node = clients pair_node" "client_tree_root call_node = client_tree_root pair_node"
    by (simp_all add: call_node_def)
  have "\<And>p c. clients pair_node p = Some c \<Longrightarrow> c_next_multi c = None"
    by (auto simp: pair_node_def blank_client_def split: if_splits)
  then have "\<forall>p c. clients pair_node p = Some c \<longrightarrow> chain (clients pair_node) (c_next_multi c) []" by simp
  then show ?thesis unfolding leaves_ok_def c
    using pair_node_tree \<open>\<And>p c. clients pair_node p = Some c \<Longrightarrow> c_next_multi c = None\<close> by fastforce
qed



text \<open>C15. Deleting a link to another node deletes exactly the client-to-client links that run
  through that node, and keeps the invariant.\<close>

theorem nodelink_delete_clean:
  assumes "node_inv s" "nodelinks s n = Some k"
  shows "\<exists>s'. nodelink_list_delete n s = Some s' \<and> node_inv s' \<and> nodelinks s' = (nodelinks s)(n := None) \<and>
     (\<forall>q. cclinks s' q = (case cclinks s q of
        Some l \<Rightarrow> if l_caller_node l = Some n \<or> l_callee_node l = Some n then None else Some l | None \<Rightarrow> None))"
  by (rule nodelink_list_delete_total [OF assms])

theorem nodelink_delete_clean_witness:
  "\<exists>s'. nodelink_list_delete 6 call_node = Some s' \<and> node_inv s' \<and> cclinks s' 5 \<noteq> None \<and> cclinks s' 7 = None"
  using nodelink_delete_clean [OF call_node_inv, of 6]
  by (auto simp: call_node_def pair_node_def new_cclink_def)

text \<open>C18. The timer removes exactly the links that have not become active within fifteen
  seconds, and keeps the invariant.\<close>

theorem timeouts_c2c_exact:
  assumes "node_inv s"
  shows "\<exists>s'. process_timeouts_c2c s = Some s' \<and> node_inv s' \<and>
     (\<forall>q. cclinks s' q = (case cclinks s q of
        Some l \<Rightarrow> if \<not> active_link l \<and> now (nenv s) - l_tmst l > 15 then None else Some l | None \<Rightarrow> None))"
proof (rule delete_links_all [OF node_inv_links [OF assms],
      of "\<lambda>l. \<not> active_link l \<and> now (nenv s) - l_tmst l > 15"], goal_cases)
  case (1 s')
  then show ?thesis using assms by (auto simp: process_timeouts_c2c_def node_inv_def)
qed

theorem timeouts_c2c_exact_witness:
  "\<exists>s'. process_timeouts_c2c call_node = Some s' \<and> cclinks s' 5 \<noteq> None \<and> cclinks s' 7 = None"
  using timeouts_c2c_exact [OF call_node_inv]
  by (auto simp: call_node_def pair_node_def new_cclink_def active_link_def empty_node_def calm_env_def)

text \<open>An accepted connection gets a free element of the array; only when every element is
  in use one of the oldest connections is closed for it.\<close>

theorem newconn_add_slot:
  assumes "length (newconns s) = MAX_NEWCONNS"
  shows "\<exists>i<MAX_NEWCONNS.
     n_sck (newconns s ! i) = -1 \<and> newconn_add s = newconn_take i s \<or>
     (\<forall>j<MAX_NEWCONNS. n_sck (newconns s ! j) \<noteq> -1 \<and> n_tmst (newconns s ! i) \<le> n_tmst (newconns s ! j)) \<and>
       newconn_add s = Option.bind (newconn_close i s) (newconn_take i)"
  by (rule newconn_add_cases [OF assms]) blast+

theorem newconn_add_slot_witness:
  "\<exists>i<MAX_NEWCONNS. newconn_add empty_node = newconn_take i empty_node"
proof -
  have "n_sck (newconns empty_node ! j) = -1" if "j < MAX_NEWCONNS" for j
    using that by (simp add: empty_node_def empty_newconn_def)
  moreover have "length (newconns empty_node) = MAX_NEWCONNS" by (simp add: empty_node_def)
  ultimately show ?thesis using newconn_add_slot [of empty_node] by blast
qed

end
