(* ===== verification/NodeRelay.thy ===== *)
theory NodeRelay
  imports NodeInv
begin

text \<open>
  The relay of an active client-to-client link (\<open>process_c2c_read\<close>, \<open>process_c2c_write\<close>):
  each direction is a queue of bytes in a fixed block. A read appends to the queue, a
  write removes what was sent from its front; the lemmas say when, and what happens to
  the other direction.
\<close>

section \<open>Queues\<close>

text \<open>The bytes that wait in one direction.\<close>

fun buf_content :: "bufptr \<Rightarrow> nat \<Rightarrow> byte list" where
  "buf_content (Buf m) n = take n m"
| "buf_content b n = []"

definition waiting :: "dirn \<Rightarrow> byte list" where
  "waiting d = buf_content (d_buf d) (d_pos d)"

definition queue_ok :: "dirn \<Rightarrow> bool" where
  "queue_ok d \<longleftrightarrow> (case d_buf d of Buf m \<Rightarrow> d_pos d \<le> length m | _ \<Rightarrow> False) \<and> d_pos d < 2 ^ 32
     \<and> d_ev_read d \<noteq> None"

lemma queue_okE:
  assumes "queue_ok d"
  obtains m er where "d_buf d = Buf m" "d_pos d \<le> length m" "d_pos d < 2 ^ 32" "d_ev_read d = Some er"
  using assms unfolding queue_ok_def by (cases "d_buf d") auto

lemma sub32_simp [simp]:
  assumes "b \<le> a" "a < 2 ^ 32" shows "sub32 a b = a - b"
proof -
  have "a + 2 ^ 32 - b = (a - b) + 2 ^ 32" using assms(1) by simp
  with assms(2) show ?thesis unfolding sub32_def by (simp only: mod_add_self2) simp
qed

text \<open>The bookkeeping after \<open>n\<close> bytes, sent or not, removes \<open>n\<close> bytes from the queue.\<close>

lemma c2c_sent_dequeues:
  assumes q: "queue_ok d" and n: "0 < n" "n \<le> d_pos d" and w: "sck = -1 \<or> d_ev_write d \<noteq> None"
  obtains d' where "c2c_sent sck errno (int n) d False = Some (int n, False, d')"
    "waiting d' = drop n (waiting d)" "queue_ok d'" "d_pos d' = d_pos d - n" "d_remote d' = d_remote d"
    "d_src d' = d_src d" "d_dst d' = d_dst d"
proof -
  from q obtain m er where d: "d_buf d = Buf m" "d_pos d \<le> length m" "d_pos d < 2 ^ 32" "d_ev_read d = Some er"
    by (rule queue_okE)
  define b where "b = (if n < d_pos d then memmove_down n (d_pos d - n) m else m)"
  have len: "length b = length m" using d n by (simp add: b_def)
  have tk: "take (d_pos d - n) b = drop n (take (d_pos d) m)"
    using d n by (cases "n < d_pos d") (simp_all add: b_def drop_take)
  have sub: "sub32 (d_pos d) n = d_pos d - n" using d n by simp
  define er' where "er' = (if d_pos d - n = 0 \<and> d_src d \<noteq> -1 then Some True else d_ev_read d)"
  define ew' where "ew' = (if d_pos d - n \<noteq> 0 \<and> sck \<noteq> -1 then Some True else d_ev_write d)"
  let ?d = "d\<lparr>d_buf := Buf b, d_pos := d_pos d - n, d_ev_read := er', d_jam := False, d_ev_write := ew'\<rparr>"
  have "c2c_sent sck errno (int n) d False = Some (int n, False, ?d)"
    using n d w unfolding c2c_sent_def er'_def ew'_def b_def
    by (auto simp: ev_add_def Let_def sub simp del: sub32_simp)
  moreover have "waiting ?d = drop n (waiting d)" using d tk by (simp add: waiting_def)
  moreover have "queue_ok ?d" using d len by (auto simp: queue_ok_def er'_def)
  ultimately show thesis using that by simp
qed

lemma get_put [simp]:
  "get_p2p1 (put_p1p2 d l) = (get_p2p1 l)"
  "get_p1p2 (put_p2p1 d l) = (get_p1p2 l)"
  by (simp_all add: get_p2p1_def put_p1p2_def get_p1p2_def put_p2p1_def)

lemma waiting_put [simp]:
  "waiting (get_p1p2 (put_p1p2 d l)) = waiting d" "waiting (get_p2p1 (put_p2p1 d l)) = waiting d"
  by (simp_all add: waiting_def get_p1p2_def put_p1p2_def get_p2p1_def put_p2p1_def)

lemma get_p1p2_link:
  "d_src (get_p1p2 l) = l_sck_p1 l" "d_dst (get_p1p2 l) = l_sck_p2 l"
  "d_remote (get_p1p2 l) \<longleftrightarrow> l_state l = PICA_CCLINK_N2NCLR_ACTIVE"
  "d_src (get_p2p1 l) = l_sck_p2 l" "d_dst (get_p2p1 l) = l_sck_p1 l"
  "d_remote (get_p2p1 l) \<longleftrightarrow> l_state l = PICA_CCLINK_N2NCLE_ACTIVE"
  "d_ev_write (get_p1p2 l) = l_ev_write_p2 l" "d_ev_write (get_p2p1 l) = l_ev_write_p1 l"
  by (simp_all add: get_p1p2_def get_p2p1_def)

text \<open>A local link that is up: both queues in order, two different sockets.\<close>

definition local_up :: "cclink \<Rightarrow> bool" where
  "local_up l \<longleftrightarrow> l_state l = PICA_CCLINK_LOCAL_ACTIVE \<and> queue_ok (get_p1p2 l) \<and> queue_ok (get_p2p1 l)
     \<and> l_sck_p1 l \<noteq> l_sck_p2 l \<and> l_ev_write_p1 l \<noteq> None \<and> l_ev_write_p2 l \<noteq> None"

lemma waiting_Nil_iff: "queue_ok d \<Longrightarrow> waiting d = [] \<longleftrightarrow> d_pos d = 0"
  by (auto simp: waiting_def elim!: queue_okE)

lemma length_waiting: "queue_ok d \<Longrightarrow> length (waiting d) = d_pos d"
  by (auto simp: waiting_def elim!: queue_okE)

text \<open>A half with a local receiver, at the event of that receiver's socket.\<close>

lemma c2c_half_send:
  assumes q: "queue_ok d" and r: "\<not> d_remote d" "sck = d_dst d" and n: "0 < n" "n \<le> length (waiting d)"
    and w: "sck = -1 \<or> d_ev_write d \<noteq> None"
  obtains d' where "c2c_half sck (int n, errno) d ret False s = Some (Some (int n), False, d', s)"
    "waiting d' = drop n (waiting d)" "queue_ok d'"
proof -
  have n': "n \<le> d_pos d" using n length_waiting [OF q] by simp
  obtain d' where d': "c2c_sent sck errno (int n) d False = Some (int n, False, d')"
    "waiting d' = drop n (waiting d)" "queue_ok d'" by (rule c2c_sent_dequeues [OF q n(1) n' w])
  from q obtain m where "d_buf d = Buf m" "d_pos d \<le> length m" by (rule queue_okE)
  then have "c2c_send sck (int n, errno) d ret s = Some (Some (int n), s)" using r by (simp add: c2c_send_def)
  then have "c2c_half sck (int n, errno) d ret False s = Some (Some (int n), False, d', s)"
    using d'(1) n n' by (simp add: c2c_half_def)
  with d' that show thesis by blast
qed

text \<open>A half whose receiver has no event here: the old value of \<open>ret\<close> is used again.\<close>

lemma c2c_half_stale:
  assumes q: "queue_ok d" and r: "\<not> d_remote d" "sck \<noteq> d_dst d" and n: "0 < n" "n \<le> length (waiting d)"
    and w: "sck = -1 \<or> d_ev_write d \<noteq> None"
  obtains d' where "c2c_half sck res d (Some (int n)) False s = Some (Some (int n), False, d', s)"
    "waiting d' = drop n (waiting d)" "queue_ok d'"
proof -
  have n': "n \<le> d_pos d" using n length_waiting [OF q] by simp
  obtain d' where d': "c2c_sent sck (snd res) (int n) d False = Some (int n, False, d')"
    "waiting d' = drop n (waiting d)" "queue_ok d'" by (rule c2c_sent_dequeues [OF q n(1) n' w])
  have "c2c_send sck res d (Some (int n)) s = Some (Some (int n), s)" using r by (simp add: c2c_send_def)
  then have "c2c_half sck res d (Some (int n)) False s = Some (Some (int n), False, d', s)"
    using d'(1) n n' by (simp add: c2c_half_def)
  with d' that show thesis by blast
qed

lemma c2c_half_empty: "queue_ok d \<Longrightarrow> waiting d = [] \<Longrightarrow> c2c_half sck res d ret kill s = Some (ret, kill, d, s)"
  by (simp add: c2c_half_def waiting_Nil_iff)

lemma upd_link: "cclinks s p = Some l \<Longrightarrow> upd_cclink p f s = Some (s\<lparr>cclinks := (cclinks s)(p \<mapsto> f l)\<rparr>)"
  by (simp add: upd_cclink_def)

lemma put_same: "put_p2p1 (get_p2p1 l) l = l" "put_p1p2 (get_p1p2 l) l = l"
  by (simp_all add: get_p2p1_def put_p2p1_def get_p1p2_def put_p1p2_def)

section \<open>Properties\<close>

text \<open>An active local link with some bytes waiting.\<close>

definition demo_link :: "byte list \<Rightarrow> byte list \<Rightarrow> cclink" where
  "demo_link to_callee to_caller =
     (new_cclink (Some 1) (Some 2) 0)\<lparr>l_state := PICA_CCLINK_LOCAL_ACTIVE, l_sck_p1 := 10, l_sck_p2 := 11,
        l_buf_p1p2 := Buf (to_callee @ replicate 4 0), l_bufpos_p1p2 := length to_callee, l_buflen_p1p2 := length to_callee + 4,
        l_buf_p2p1 := Buf (to_caller @ replicate 4 0), l_bufpos_p2p1 := length to_caller, l_buflen_p2p1 := length to_caller + 4,
        l_ev_read_p1 := Some True, l_ev_read_p2 := Some True, l_ev_write_p1 := Some False, l_ev_write_p2 := Some False\<rparr>"



text \<open>C32. When bytes wait in both directions of a local link, a write event on the
  callee's socket for which \<open>send\<close> takes \<open>n\<close> bytes also drops \<open>n\<close> bytes from the front of
  the caller's queue, although nothing is sent to the caller: the return value of the
  first \<open>send\<close> is taken for a second one that was never made.\<close>

theorem c2c_write_drops_reverse:
  assumes "cclinks s cc = Some l" "local_up l"
    and "0 < n" "n \<le> length (waiting (get_p1p2 l))" "n \<le> length (waiting (get_p2p1 l))"
  shows "\<exists>s' l'. process_c2c_write (l_sck_p2 l) cc (int n, 0) res2 s = Some s' \<and> cclinks s' cc = Some l' \<and>
     waiting (get_p2p1 l') = drop n (waiting (get_p2p1 l))"
proof -
  have up: "l_state l = PICA_CCLINK_LOCAL_ACTIVE" "queue_ok (get_p1p2 l)" "queue_ok (get_p2p1 l)"
    "l_sck_p1 l \<noteq> l_sck_p2 l" "l_ev_write_p1 l \<noteq> None" "l_ev_write_p2 l \<noteq> None"
    using assms(2) by (auto simp: local_up_def)
  obtain d where d: "c2c_half (l_sck_p2 l) (int n, 0) (get_p1p2 l) None False s = Some (Some (int n), False, d, s)"
    by (rule c2c_half_send [OF up(2) _ _ assms(3,4)]) (use up in \<open>simp_all add: get_p1p2_link\<close>)
  let ?s = "s\<lparr>cclinks := (cclinks s)(cc \<mapsto> put_p1p2 d l)\<rparr>"
  obtain d' where d': "c2c_half (l_sck_p2 l) res2 (get_p2p1 l) (Some (int n)) False ?s = Some (Some (int n), False, d', ?s)"
    "waiting d' = drop n (waiting (get_p2p1 l))"
    by (rule c2c_half_stale [OF up(3) _ _ assms(3,5)]) (use up in \<open>auto simp: get_p1p2_link\<close>)
  have "process_c2c_write (l_sck_p2 l) cc (int n, 0) res2 s
      = Some (?s\<lparr>cclinks := (cclinks s)(cc \<mapsto> put_p2p1 d' (put_p1p2 d l))\<rparr>)"
    using assms(1) d(1) d'(1) by (simp add: process_c2c_write_def upd_link)
  with d'(2) show ?thesis by auto
qed

theorem c2c_write_drops_reverse_witness:
  "\<exists>s' l'. process_c2c_write 11 7 (2, 0) (0, 0) (empty_node\<lparr>cclinks := [7 \<mapsto> demo_link [1, 2, 3] [4, 5, 6]]\<rparr>) = Some s' \<and>
     cclinks s' 7 = Some l' \<and> waiting (get_p2p1 l') = [6]"
  using c2c_write_drops_reverse [of "empty_node\<lparr>cclinks := [7 \<mapsto> demo_link [1, 2, 3] [4, 5, 6]]\<rparr>" 7
      "demo_link [1, 2, 3] [4, 5, 6]" 2 "(0, 0)"]
  by (auto simp: demo_link_def new_cclink_def local_up_def queue_ok_def waiting_def get_p1p2_def get_p2p1_def)



section \<open>Relay over another node\<close>

lemma nodelink_send_ok:
  assumes "alloc_ok (nenv s) = (\<lambda>_. True)" "nodelinks s k = Some kk"
  obtains s1 where "nodelink_send k i n t s = Some (True, s1)" "cclinks s1 = cclinks s" "clients s1 = clients s"
proof -
  obtain ok w e where w: "push_fill nodelink_wbuf_push (nenv s) (k_w kk) i n t = (ok, w, e)" by (metis prod_cases3)
  then have ok using assms(1)
    by (auto simp: push_fill_def nodelink_wbuf_push_def buf_calloc_def buf_realloc_def buf_header_def
        env_alloc_def Let_def split: if_splits option.splits prod.splits)
  with w assms(2) that show thesis by (simp add: nodelink_send_def)
qed

text \<open>A half whose receiver is on another node: one N2NMSG takes the whole queue.\<close>

lemma c2c_half_remote:
  assumes q: "queue_ok d" and r: "d_remote d" "d_node d = Some k" "rd_id s (d_from d) = Some a" "rd_id s (d_to d) = Some b"
    and n: "waiting d \<noteq> []" "length (waiting d) \<le> PICA_PROTO_N2NMSG_MAXDATASIZE"
    and s: "nodelink_send k PICA_PROTO_N2NMSG (of_nat (length (waiting d) + 60))
        (put16 (56 + length (waiting d)) @ a @ b @ waiting d) s = Some (True, s1)"
  obtains d' where "c2c_half (-1) res d ret False s = Some (Some (int (length (waiting d))), False, d', s1)"
    "waiting d' = []"
proof -
  let ?n = "length (waiting d)"
  have p: "?n = d_pos d" by (rule length_waiting [OF q])
  then have pos: "0 < d_pos d" using n(1) by (metis length_greater_0_conv)
  obtain d' where d': "c2c_sent (-1) (snd res) (int ?n) d False = Some (int ?n, False, d')"
    "waiting d' = drop ?n (waiting d)" by (rule c2c_sent_dequeues [OF q, of ?n "-1"]) (use pos p in auto)
  from q obtain m where "d_buf d = Buf m" "d_pos d \<le> length m" by (rule queue_okE)
  then have "buf_read (d_buf d) ?n = Some (waiting d)" using p by (simp add: waiting_def)
  then have "c2c_send (-1) res d ret s = Some (Some (int ?n), s1)"
    using r s n(2) p by (simp add: c2c_send_def min_def ac_simps)
  then have "c2c_half (-1) res d ret False s = Some (Some (int ?n), False, d', s1)"
    using d'(1) pos p by (simp add: c2c_half_def)
  with d'(2) that show thesis by simp
qed

text \<open>A link to a callee on another node that is up.\<close>

definition n2nclr_up :: "node \<Rightarrow> cclink \<Rightarrow> bool" where
  "n2nclr_up s l \<longleftrightarrow> l_state l = PICA_CCLINK_N2NCLR_ACTIVE \<and> queue_ok (get_p1p2 l) \<and> queue_ok (get_p2p1 l)
     \<and> l_sck_p1 l \<noteq> -1 \<and> l_callee_node l \<noteq> None \<and> deref (nodelinks s) (l_callee_node l) \<noteq> None
     \<and> rd_id s (l_caller_id l) \<noteq> None \<and> rd_id s (l_callee_id l) \<noteq> None"

lemma n2nclr_forward:
  assumes l: "n2nclr_up s l" and m: "alloc_ok (nenv s) = (\<lambda>_. True)"
    and n: "waiting (get_p1p2 l) \<noteq> []" "length (waiting (get_p1p2 l)) \<le> PICA_PROTO_N2NMSG_MAXDATASIZE"
  obtains k a b d s1 where "l_callee_node l = Some k" "rd_id s (l_caller_id l) = Some a" "rd_id s (l_callee_id l) = Some b"
    "nodelink_send k PICA_PROTO_N2NMSG (of_nat (length (waiting (get_p1p2 l)) + 60))
        (put16 (56 + length (waiting (get_p1p2 l))) @ a @ b @ waiting (get_p1p2 l)) s = Some (True, s1)"
    "cclinks s1 = cclinks s"
    "c2c_half (-1) res (get_p1p2 l) None False s = Some (Some (int (length (waiting (get_p1p2 l)))), False, d, s1)"
    "waiting d = []"
proof -
  from l obtain k kk a b where u: "l_callee_node l = Some k" "nodelinks s k = Some kk"
      "rd_id s (l_caller_id l) = Some a" "rd_id s (l_callee_id l) = Some b" "queue_ok (get_p1p2 l)"
      "l_state l = PICA_CCLINK_N2NCLR_ACTIVE"
    by (auto simp: n2nclr_up_def)
  obtain s1 where s1: "nodelink_send k PICA_PROTO_N2NMSG (of_nat (length (waiting (get_p1p2 l)) + 60))
        (put16 (56 + length (waiting (get_p1p2 l))) @ a @ b @ waiting (get_p1p2 l)) s = Some (True, s1)"
    "cclinks s1 = cclinks s" by (rule nodelink_send_ok [OF m u(2)])
  obtain d where "c2c_half (-1) res (get_p1p2 l) None False s = Some (Some (int (length (waiting (get_p1p2 l)))), False, d, s1)"
    "waiting d = []"
    by (rule c2c_half_remote [OF u(5) _ _ _ _ n s1(1)]) (use u in \<open>simp_all add: get_p1p2_def\<close>)
  with u s1 that show thesis by blast
qed

text \<open>On a link whose callee is on another node, forwarding what the caller sent also
  drops that many of the bytes that wait for the caller: data that arrived from the other
  node is lost.\<close>

theorem n2n_forward_drops_reverse:
  assumes "cclinks s cc = Some l" "n2nclr_up s l" "alloc_ok (nenv s) = (\<lambda>_. True)"
    and "waiting (get_p1p2 l) \<noteq> []" "length (waiting (get_p1p2 l)) \<le> PICA_PROTO_N2NMSG_MAXDATASIZE"
    and "length (waiting (get_p1p2 l)) \<le> length (waiting (get_p2p1 l))"
  shows "\<exists>s' l'. process_c2c_write (-1) cc res1 res2 s = Some s' \<and> cclinks s' cc = Some l' \<and>
     waiting (get_p1p2 l') = [] \<and>
     waiting (get_p2p1 l') = drop (length (waiting (get_p1p2 l))) (waiting (get_p2p1 l))"
proof -
  let ?n = "length (waiting (get_p1p2 l))"
  obtain d s1 where f: "cclinks s1 = cclinks s" "waiting d = []"
    "c2c_half (-1) res1 (get_p1p2 l) None False s = Some (Some (int ?n), False, d, s1)"
    by (rule n2nclr_forward [OF assms(2-5)])
  have u: "queue_ok (get_p2p1 l)" "l_sck_p1 l \<noteq> -1" "l_state l = PICA_CCLINK_N2NCLR_ACTIVE"
    using assms(2) by (auto simp: n2nclr_up_def)
  let ?s = "s1\<lparr>cclinks := (cclinks s)(cc \<mapsto> put_p1p2 d l)\<rparr>"
  obtain d' where d': "c2c_half (-1) res2 (get_p2p1 l) (Some (int ?n)) False ?s = Some (Some (int ?n), False, d', ?s)"
    "waiting d' = drop ?n (waiting (get_p2p1 l))"
    by (rule c2c_half_stale [OF u(1) _ _ _ assms(6)]) (use assms(4) u in \<open>auto simp: get_p1p2_link\<close>)
  have "process_c2c_write (-1) cc res1 res2 s = Some (?s\<lparr>cclinks := (cclinks s)(cc \<mapsto> put_p2p1 d' (put_p1p2 d l))\<rparr>)"
    using assms(1) f d'(1) by (simp add: process_c2c_write_def upd_link)
  with d'(2) f(2) show ?thesis by auto
qed

text \<open>A node with one link to another node and a call of client 1 through it.\<close>

definition demo_remote :: "byte list \<Rightarrow> byte list \<Rightarrow> node" where
  "demo_remote to_callee to_caller =
     empty_node\<lparr>clients := [1 \<mapsto> blank_client\<lparr>c_id := [5]\<rparr>],
        nodelinks := [2 \<mapsto> new_nodelink empty_newconn 0],
        cclinks := [7 \<mapsto> (demo_link to_callee to_caller)\<lparr>l_state := PICA_CCLINK_N2NCLR_ACTIVE, l_p2 := None,
           l_caller_id := Some (IdOf 1), l_callee_id := Some (IdCopy [6]), l_callee_node := Some 2\<rparr>]\<rparr>"

lemma demo_remote_up:
  "n2nclr_up (demo_remote [1, 2] [4, 5, 6]) (the (cclinks (demo_remote [1, 2] [4, 5, 6]) 7))"
  by (simp add: n2nclr_up_def demo_remote_def demo_link_def new_cclink_def empty_node_def queue_ok_def
      get_p1p2_def get_p2p1_def)

theorem n2n_forward_drops_reverse_witness:
  "\<exists>s' l'. process_c2c_write (-1) 7 (0, 0) (0, 0) (demo_remote [1, 2] [4, 5, 6]) = Some s' \<and> cclinks s' 7 = Some l' \<and>
     waiting (get_p1p2 l') = [] \<and> waiting (get_p2p1 l') = [6]"
proof -
  let ?s = "demo_remote [1, 2] [4, 5, 6]"
  have w: "waiting (get_p1p2 (the (cclinks ?s 7))) = [1, 2]" "waiting (get_p2p1 (the (cclinks ?s 7))) = [4, 5, 6]"
    by (simp_all add: demo_remote_def demo_link_def new_cclink_def waiting_def get_p1p2_def get_p2p1_def)
  have "cclinks ?s 7 = Some (the (cclinks ?s 7))" "alloc_ok (nenv ?s) = (\<lambda>_. True)"
    by (simp_all add: demo_remote_def empty_node_def calm_env_def)
  from n2n_forward_drops_reverse [OF this(1) demo_remote_up this(2), of "(0, 0)" "(0, 0)"] show ?thesis
    unfolding w by simp
qed

end
