(* ===== verification/ClientTypes.thy ===== *)
theory ClientTypes
  imports Msgproc Wbuf
begin

text \<open>
  The data of the client library (\<open>PICA_client.h\<close>). As in the node, a pointer is a
  natural number and an object lives in the heap of its type; a freed object is gone from
  it. What the library calls outside the repository is an argument of the model: the
  record \<open>ext\<close> holds the application's callbacks that return a decision, what OpenSSL says
  about certificates and signatures, the files the library opens, and the answers of the
  socket and TLS calls in the order in which they are made.

  The traces \<open>events\<close>, \<open>wire\<close>, \<open>files\<close> and \<open>lclosed\<close> record what the application was told,
  what was written to which TLS session, what received files contain when they are closed,
  and which sockets were closed.
\<close>

section \<open>Return codes\<close>

abbreviation (input) PICA_NEWCHAN :: int where "PICA_NEWCHAN \<equiv> 1"
abbreviation (input) PICA_ERRINVARG :: int where "PICA_ERRINVARG \<equiv> -1"
abbreviation (input) PICA_ERRNOMEM :: int where "PICA_ERRNOMEM \<equiv> -2"
abbreviation (input) PICA_ERRSOCK :: int where "PICA_ERRSOCK \<equiv> -4"
abbreviation (input) PICA_ERRNOTFOUND :: int where "PICA_ERRNOTFOUND \<equiv> -7"
abbreviation (input) PICA_ERRNOPEERCERT :: int where "PICA_ERRNOPEERCERT \<equiv> -8"
abbreviation (input) PICA_ERRINVPEERCERT :: int where "PICA_ERRINVPEERCERT \<equiv> -9"
abbreviation (input) PICA_ERRDISCONNECT :: int where "PICA_ERRDISCONNECT \<equiv> -10"
abbreviation (input) PICA_ERRMSGSIZE :: int where "PICA_ERRMSGSIZE \<equiv> -12"
abbreviation (input) PICA_ERRDNSRESOLVE :: int where "PICA_ERRDNSRESOLVE \<equiv> -13"
abbreviation (input) PICA_ERRPROTOOLD :: int where "PICA_ERRPROTOOLD \<equiv> -14"
abbreviation (input) PICA_ERRPROTONEW :: int where "PICA_ERRPROTONEW \<equiv> -15"
abbreviation (input) PICA_ERRINVFILENAME :: int where "PICA_ERRINVFILENAME \<equiv> -16"
abbreviation (input) PICA_ERRFILETRANSFERINPROGRESS :: int where "PICA_ERRFILETRANSFERINPROGRESS \<equiv> -17"
abbreviation (input) PICA_ERRFILETRANSFERNOTINPROGRESS :: int where "PICA_ERRFILETRANSFERNOTINPROGRESS \<equiv> -18"
abbreviation (input) PICA_ERRFILEFRAGMENTCROSSEDSIZE :: int where "PICA_ERRFILEFRAGMENTCROSSEDSIZE \<equiv> -19"
abbreviation (input) PICA_ERRFILEOPEN :: int where "PICA_ERRFILEOPEN \<equiv> -20"
abbreviation (input) PICA_ERRFILEIO :: int where "PICA_ERRFILEIO \<equiv> -21"
abbreviation (input) PICA_ERRTIMEDOUT :: int where "PICA_ERRTIMEDOUT \<equiv> -24"

abbreviation (input) PICA_CHANREADBUFSIZE :: nat where "PICA_CHANREADBUFSIZE \<equiv> 65536"
abbreviation (input) PICA_CONNREADBUFSIZE :: nat where "PICA_CONNREADBUFSIZE \<equiv> 65536"
abbreviation (input) PICA_FILEFRAGMENTSIZE :: nat where "PICA_FILEFRAGMENTSIZE \<equiv> 3 * 16384"
abbreviation (input) PICA_C2C_ACTIVATE_TIMEOUT :: int where "PICA_C2C_ACTIVATE_TIMEOUT \<equiv> 30"
abbreviation (input) PICA_MULTILOGIN_PROHIBIT :: int where "PICA_MULTILOGIN_PROHIBIT \<equiv> 0"

section \<open>States\<close>

datatype PICA_c2n_state =
    PICA_C2N_STATE_NEW
  | PICA_C2N_STATE_CONNECTING
  | PICA_C2N_STATE_WAITINGANONTLS
  | PICA_C2N_STATE_WAITINGREP
  | PICA_C2N_STATE_WAITINGANONTLSSHUTDOWN
  | PICA_C2N_STATE_WAITINGTLS
  | PICA_C2N_STATE_CONNECTED

datatype PICA_directc2c_config =
    PICA_DIRECTC2C_CFG_DISABLED
  | PICA_DIRECTC2C_CFG_CONNECTONLY
  | PICA_DIRECTC2C_CFG_ALLOWINCOMING

datatype PICA_c2c_state =
    PICA_C2C_STATE_NEW
  | PICA_C2C_STATE_CONNECTING
  | PICA_C2C_STATE_WAITINGANONTLS
  | PICA_C2C_STATE_CONNID
  | PICA_C2C_STATE_WAITINGANONTLSSHUTDOWN
  | PICA_C2C_STATE_WAITINGTLS
  | PICA_C2C_STATE_WAITINGREP
  | PICA_C2C_STATE_WAITINGC2CPROTOVER
  | PICA_C2C_STATE_ACTIVE

datatype PICA_directc2c_state =
    PICA_DIRECTC2C_STATE_INACTIVE
  | PICA_DIRECTC2C_STATE_CONNECTING
  | PICA_DIRECTC2C_STATE_FAILEDTOCONNECT
  | PICA_DIRECTC2C_STATE_WAITINGINCOMING
  | PICA_DIRECTC2C_STATE_ACTIVE

datatype PICA_directc2c_connection_state =
    PICA_DIRECTC2C_CONNSTATE_NEW
  | PICA_DIRECTC2C_CONNSTATE_CONNECTING
  | PICA_DIRECTC2C_CONNSTATE_WAITINGTLS
  | PICA_DIRECTC2C_CONNSTATE_ACTIVE
  | PICA_DIRECTC2C_CONNSTATE_FAILED

datatype sendfile_state =
    PICA_CHANSENDFILESTATE_IDLE
  | PICA_CHANSENDFILESTATE_SENTREQ
  | PICA_CHANSENDFILESTATE_SENDING
  | PICA_CHANSENDFILESTATE_PAUSED

datatype recvfile_state =
    PICA_CHANRECVFILESTATE_IDLE
  | PICA_CHANRECVFILESTATE_RECEIVING
  | PICA_CHANRECVFILESTATE_PAUSED
  | PICA_CHANRECVFILESTATE_WAITACCEPT

text \<open>The enumerations that the code compares by their values are ordered.\<close>

fun c2c_state_no :: "PICA_c2c_state \<Rightarrow> nat" where
  "c2c_state_no PICA_C2C_STATE_NEW = 0"
| "c2c_state_no PICA_C2C_STATE_CONNECTING = 1"
| "c2c_state_no PICA_C2C_STATE_WAITINGANONTLS = 2"
| "c2c_state_no PICA_C2C_STATE_CONNID = 3"
| "c2c_state_no PICA_C2C_STATE_WAITINGANONTLSSHUTDOWN = 4"
| "c2c_state_no PICA_C2C_STATE_WAITINGTLS = 5"
| "c2c_state_no PICA_C2C_STATE_WAITINGREP = 6"
| "c2c_state_no PICA_C2C_STATE_WAITINGC2CPROTOVER = 7"
| "c2c_state_no PICA_C2C_STATE_ACTIVE = 8"

lemma c2c_state_no_inj: "c2c_state_no a = c2c_state_no b \<Longrightarrow> a = b"
  by (cases a; cases b) simp_all

instantiation PICA_c2c_state :: linorder
begin

definition less_eq_PICA_c2c_state :: "PICA_c2c_state \<Rightarrow> PICA_c2c_state \<Rightarrow> bool" where
  "less_eq_PICA_c2c_state a b \<longleftrightarrow> c2c_state_no a \<le> c2c_state_no b"

definition less_PICA_c2c_state :: "PICA_c2c_state \<Rightarrow> PICA_c2c_state \<Rightarrow> bool" where
  "less_PICA_c2c_state a b \<longleftrightarrow> c2c_state_no a < c2c_state_no b"

instance
  by standard (auto simp: less_eq_PICA_c2c_state_def less_PICA_c2c_state_def intro: c2c_state_no_inj)

end

fun c2n_state_no :: "PICA_c2n_state \<Rightarrow> nat" where
  "c2n_state_no PICA_C2N_STATE_NEW = 0"
| "c2n_state_no PICA_C2N_STATE_CONNECTING = 1"
| "c2n_state_no PICA_C2N_STATE_WAITINGANONTLS = 2"
| "c2n_state_no PICA_C2N_STATE_WAITINGREP = 3"
| "c2n_state_no PICA_C2N_STATE_WAITINGANONTLSSHUTDOWN = 4"
| "c2n_state_no PICA_C2N_STATE_WAITINGTLS = 5"
| "c2n_state_no PICA_C2N_STATE_CONNECTED = 6"

lemma c2n_state_no_inj: "c2n_state_no a = c2n_state_no b \<Longrightarrow> a = b"
  by (cases a; cases b) simp_all

instantiation PICA_c2n_state :: linorder
begin

definition less_eq_PICA_c2n_state :: "PICA_c2n_state \<Rightarrow> PICA_c2n_state \<Rightarrow> bool" where
  "less_eq_PICA_c2n_state a b \<longleftrightarrow> c2n_state_no a \<le> c2n_state_no b"

definition less_PICA_c2n_state :: "PICA_c2n_state \<Rightarrow> PICA_c2n_state \<Rightarrow> bool" where
  "less_PICA_c2n_state a b \<longleftrightarrow> c2n_state_no a < c2n_state_no b"

instance
  by standard (auto simp: less_eq_PICA_c2n_state_def less_PICA_c2n_state_def intro: c2n_state_no_inj)

end

lemmas state_order_defs = less_eq_PICA_c2c_state_def less_PICA_c2c_state_def
  less_eq_PICA_c2n_state_def less_PICA_c2n_state_def

section \<open>Objects\<close>

type_synonym cert = "byte list"

record PICA_directc2c =
  dc_is_outgoing :: bool
  dc_sck :: int
  dc_ssl :: bool
  dc_peer_cert :: "cert option"
  dc_want_write :: bool
  dc_addrlist :: "byte list option"
  dc_addrpos :: nat
  dc_addr :: "u32 \<times> u16"
  dc_state :: PICA_directc2c_connection_state
  dc_next :: "nat option"

record PICA_listener =
  li_sck :: int
  li_public_port :: u16
  li_public_addr_ipv4 :: u32
  li_accepted_connections :: "nat option"

record PICA_c2n =
  cn_acc_id :: pid
  cn_srv_addr :: "u32 \<times> u16"
  cn_sck :: int
  cn_state :: PICA_c2n_state
  cn_directc2c_config :: PICA_directc2c_config
  cn_multilogin_policy :: int
  cn_multilogin_last_timestamp :: u64
  cn_directc2c_listener :: "nat option"
  cn_read_buf :: "byte list option"
  cn_read_pos :: u32
  cn_w :: wbuf
  cn_chan_list :: "nat list"
  cn_init_resp_ok :: int
  cn_node_ver :: "byte \<times> byte"
  cn_disconnect_on_empty_write_buf :: bool
  cn_want_write :: bool

record PICA_c2c =
  ch_acc_id :: pid
  ch_conn :: nat
  ch_peer_id :: pid
  ch_sck :: int
  ch_ssl :: bool
  ch_direct :: "nat option"
  ch_outgoing :: bool
  ch_peer_cert :: "cert option"
  ch_read_buf :: "byte list option"
  ch_read_pos :: u32
  ch_w :: wbuf
  ch_state :: PICA_c2c_state
  ch_directc2c_state :: PICA_directc2c_state
  ch_timestamp :: int
  ch_sendfilestate :: sendfile_state
  ch_sendfile_size :: u64
  ch_sendfile_pos :: u64
  ch_sendfile_stream :: "byte list option"
  ch_recvfilestate :: recvfile_state
  ch_recvfile_size :: u64
  ch_recvfile_pos :: u64
  ch_recvfile_stream :: "byte list option"
  ch_disconnect_on_empty_write_buf :: bool
  ch_switched_to_directc2c_write :: bool
  ch_switched_to_directc2c_read :: bool
  ch_want_write :: bool
  ch_write_barrier_pos :: u32
  ch_write_before_barrier_pos :: u32

section \<open>Callbacks and the outside\<close>

datatype callback =
    newmsg_cb pid "byte list" byte
  | msgok_cb pid
  | c2c_established_cb pid
  | c2c_failed_cb pid
  | notfound_cb pid
  | c2c_closed_cb pid int
  | nodelist_cb u32 "byte list" u16
  | accepted_file_cb pid
  | denied_file_cb pid
  | file_progress_cb pid u64 u64
  | file_control_cb pid byte byte
  | file_finished_cb pid bool
  | c2n_established_cb nat
  | c2n_failed_cb nat int
  | c2n_closed_cb nat int
  | multilogin_cb u64 "byte list" u16
  | direct_c2c_established_cb pid
  | listener_error_cb nat int

datatype sys_error = EINPROGRESS | EINTR | WANT_READ | WANT_WRITE | OTHER_ERROR

record answer =
  a_ret :: int
  a_err :: sys_error
  a_data :: "byte list"
  a_cert :: "cert option"

record ext =
  accept_cb :: "pid \<Rightarrow> bool"
  accept_file_cb :: "pid \<Rightarrow> u64 \<Rightarrow> byte list \<Rightarrow> int"
  peer_cert_verify_cb :: "pid \<Rightarrow> cert \<Rightarrow> bool"
  x509_id :: "cert \<Rightarrow> pid option"
  rsa_key_bits :: "cert \<Rightarrow> nat option"
  own_sign_ok :: "byte list list \<Rightarrow> byte list \<Rightarrow> bool"
  own_signature :: "byte list list \<Rightarrow> int + byte list"
  file_content :: "byte list \<Rightarrow> byte list option"
  fseek_ok :: "byte list \<Rightarrow> bool"
  fopen_w_ok :: "byte list \<Rightarrow> bool"
  fread_max :: "nat \<Rightarrow> nat"
  fwrite_ok :: "nat \<Rightarrow> bool"
  answers :: "nat \<Rightarrow> answer"

datatype session = ToNode nat | ToPeer nat | ToDirect nat

record lib =
  lenv :: env
  lext :: ext
  n_calls :: nat
  n_fread :: nat
  n_fwrite :: nat
  lnext :: nat
  conns :: "nat \<rightharpoonup> PICA_c2n"
  chans :: "nat \<rightharpoonup> PICA_c2c"
  directs :: "nat \<rightharpoonup> PICA_directc2c"
  listeners :: "nat \<rightharpoonup> PICA_listener"
  events :: "callback list"
  wire :: "(session \<times> byte list) list"
  files :: "byte list list"
  lclosed :: "int list"

section \<open>Access\<close>

definition upd_chan :: "nat \<Rightarrow> (PICA_c2c \<Rightarrow> PICA_c2c) \<Rightarrow> lib \<Rightarrow> lib option" where
  "upd_chan p f s = (case chans s p of None \<Rightarrow> None | Some c \<Rightarrow> Some (s\<lparr>chans := (chans s)(p \<mapsto> f c)\<rparr>))"

definition upd_conn :: "nat \<Rightarrow> (PICA_c2n \<Rightarrow> PICA_c2n) \<Rightarrow> lib \<Rightarrow> lib option" where
  "upd_conn p f s = (case conns s p of None \<Rightarrow> None | Some c \<Rightarrow> Some (s\<lparr>conns := (conns s)(p \<mapsto> f c)\<rparr>))"

definition upd_direct :: "nat \<Rightarrow> (PICA_directc2c \<Rightarrow> PICA_directc2c) \<Rightarrow> lib \<Rightarrow> lib option" where
  "upd_direct p f s = (case directs s p of None \<Rightarrow> None | Some d \<Rightarrow> Some (s\<lparr>directs := (directs s)(p \<mapsto> f d)\<rparr>))"

definition emit :: "callback \<Rightarrow> lib \<Rightarrow> lib" where
  "emit e s = s\<lparr>events := events s @ [e]\<rparr>"

text \<open>The next answer of the operating system or of OpenSSL.\<close>

definition sys_call :: "lib \<Rightarrow> answer \<times> lib" where
  "sys_call s = (answers (lext s) (n_calls s), s\<lparr>n_calls := Suc (n_calls s)\<rparr>)"

text \<open>Queueing a packet on a channel or on a connection to a node, with its tail.\<close>

definition chan_send :: "nat \<Rightarrow> u32 \<Rightarrow> u32 \<Rightarrow> byte list \<Rightarrow> lib \<Rightarrow> (bool \<times> lib) option" where
  "chan_send p i msz tail s =
     (case chans s p of
        None \<Rightarrow> None
      | Some c \<Rightarrow>
          (let (ok, w, e) = push_fill c2c_writebuf_push (lenv s) (ch_w c) i msz tail in
           Some (ok, s\<lparr>lenv := e, chans := (chans s)(p \<mapsto> c\<lparr>ch_w := w\<rparr>)\<rparr>)))"

definition conn_send :: "nat \<Rightarrow> u32 \<Rightarrow> u32 \<Rightarrow> byte list \<Rightarrow> lib \<Rightarrow> (bool \<times> lib) option" where
  "conn_send p i msz tail s =
     (case conns s p of
        None \<Rightarrow> None
      | Some c \<Rightarrow>
          (let (ok, w, e) = push_fill c2n_writebuf_push (lenv s) (cn_w c) i msz tail in
           Some (ok, s\<lparr>lenv := e, conns := (conns s)(p \<mapsto> c\<lparr>cn_w := w\<rparr>)\<rparr>)))"

text \<open>The same with a tail of two random octets.\<close>

definition chan_send_rand :: "nat \<Rightarrow> u32 \<Rightarrow> u32 \<Rightarrow> lib \<Rightarrow> (bool \<times> lib) option" where
  "chan_send_rand p i msz s =
     do { (ok, s') \<leftarrow> chan_send p i msz (fst (RAND_pseudo_bytes 2 (lenv s))) s;
          Some (ok, if ok then s'\<lparr>lenv := snd (RAND_pseudo_bytes 2 (lenv s'))\<rparr> else s') }"

definition conn_send_rand :: "nat \<Rightarrow> u32 \<Rightarrow> u32 \<Rightarrow> lib \<Rightarrow> (bool \<times> lib) option" where
  "conn_send_rand p i msz s =
     do { (ok, s') \<leftarrow> conn_send p i msz (fst (RAND_pseudo_bytes 2 (lenv s))) s;
          Some (ok, if ok then s'\<lparr>lenv := snd (RAND_pseudo_bytes 2 (lenv s'))\<rparr> else s') }"

section \<open>Lemmas\<close>

lemma upd_chan_Some [simp]: "chans s p = Some c \<Longrightarrow> upd_chan p f s = Some (s\<lparr>chans := (chans s)(p \<mapsto> f c)\<rparr>)"
  by (simp add: upd_chan_def)

lemma upd_conn_Some [simp]: "conns s p = Some c \<Longrightarrow> upd_conn p f s = Some (s\<lparr>conns := (conns s)(p \<mapsto> f c)\<rparr>)"
  by (simp add: upd_conn_def)

lemma upd_direct_Some [simp]: "directs s p = Some c \<Longrightarrow> upd_direct p f s = Some (s\<lparr>directs := (directs s)(p \<mapsto> f c)\<rparr>)"
  by (simp add: upd_direct_def)

lemma emit_simps [simp]:
  "lenv (emit e s) = lenv s" "lext (emit e s) = lext s" "conns (emit e s) = conns s" "chans (emit e s) = chans s"
  "directs (emit e s) = directs s" "listeners (emit e s) = listeners s" "files (emit e s) = files s"
  "wire (emit e s) = wire s" "n_fread (emit e s) = n_fread s" "n_fwrite (emit e s) = n_fwrite s"
  "n_calls (emit e s) = n_calls s" "lclosed (emit e s) = lclosed s" "lnext (emit e s) = lnext s" "events (emit e s) = events s @ [e]"
  by (simp_all add: emit_def)

lemma RAND_same_alloc [simp]: "alloc_ok (snd (RAND_pseudo_bytes n e)) = alloc_ok e"
  by (simp add: RAND_pseudo_bytes_def)

text \<open>With memory a packet is queued behind the pending bytes, and nothing else changes.\<close>

lemma push_fill_alloc: "alloc_ok (snd (snd (push_fill c2c_writebuf_push e w i msz tail))) = alloc_ok e"
  "alloc_ok (snd (snd (push_fill c2n_writebuf_push e w i msz tail))) = alloc_ok e"
  by (auto simp: push_fill_def c2c_writebuf_push_def c2n_writebuf_push_def buf_calloc_def buf_realloc_def
      env_alloc_def Let_def split: prod.splits option.splits if_splits)

lemma chan_send_queues:
  assumes c: "chans s p = Some c" and m: "alloc_ok (lenv s) = (\<lambda>_. True)" and w: "wbuf_ok (ch_w c)"
    and fit: "unat (w_pos (ch_w c)) + unat msz < 2 ^ 32" "length tail + 2 = unat msz"
  obtains w' e where "chan_send p i msz tail s = Some (True, s\<lparr>lenv := e, chans := (chans s)(p \<mapsto> c\<lparr>ch_w := w'\<rparr>)\<rparr>)"
    "pending w' = pending (ch_w c) @ packet i tail" "wbuf_ok w'" "alloc_ok e = (\<lambda>_. True)"
    "btw_ssl w' = btw_ssl (ch_w c)"
proof -
  obtain ok w' e where q: "push_fill c2c_writebuf_push (lenv s) (ch_w c) i msz tail = (ok, w', e)"
    by (metis prod_cases3)
  have ok: "ok" using c2c_writebuf.push_fill_live [OF m, of "ch_w c" i msz tail] q by simp
  have e: "alloc_ok e = (\<lambda>_. True)"
    using push_fill_alloc(1) [of "lenv s" "ch_w c" i msz tail] q m by simp
  from c2c_writebuf.push_fill_spec [OF w fit q] ok e that [of w' e] c q show thesis
    by (simp add: chan_send_def)
qed

end
