(* ===== verification/ClientChan.thy ===== *)
theory ClientChan
  imports ClientTypes
begin

text \<open>
  Text messages and file transfer on an established channel of the client library
  (\<open>PICA_send_msg\<close>, \<open>PICA_send_file\<close>, \<open>PICA_accept_file\<close> and the handlers of the
  packets they exchange). A stream is the bytes written to it or still to be read from it;
  \<open>fclose\<close>, \<open>fread\<close> and \<open>fwrite\<close> on a \<open>NULL\<close> stream are faults.
\<close>

section \<open>Streams\<close>

definition fclose_recv :: "nat \<Rightarrow> lib \<Rightarrow> lib option" where
  "fclose_recv p s =
     do { c \<leftarrow> chans s p;
          f \<leftarrow> ch_recvfile_stream c;
          Some (s\<lparr>chans := (chans s)(p \<mapsto> c\<lparr>ch_recvfile_stream := None\<rparr>), files := files s @ [f]\<rparr>) }"

definition fclose_send :: "nat \<Rightarrow> lib \<Rightarrow> lib option" where
  "fclose_send p s =
     do { c \<leftarrow> chans s p;
          f \<leftarrow> ch_sendfile_stream c;
          Some (s\<lparr>chans := (chans s)(p \<mapsto> c\<lparr>ch_sendfile_stream := None\<rparr>)\<rparr>) }"

text \<open>A byte string as the C library sees it: up to the first zero.\<close>

definition c_str :: "byte list \<Rightarrow> byte list" where
  "c_str bs = takeWhile (\<lambda>b. b \<noteq> 0) bs"

definition PICA_sendfile_open_read :: "nat \<Rightarrow> byte list \<Rightarrow> lib \<Rightarrow> (int \<times> u64 \<times> lib) option" where
  "PICA_sendfile_open_read p path s =
     (case file_content (lext s) path of
        None \<Rightarrow> do { s \<leftarrow> upd_chan p (\<lambda>c. c\<lparr>ch_sendfile_stream := None\<rparr>) s; Some (PICA_ERRFILEOPEN, 0, s) }
      | Some bs \<Rightarrow>
          do { s \<leftarrow> upd_chan p (\<lambda>c. c\<lparr>ch_sendfile_stream := Some bs\<rparr>) s;
               if fseek_ok (lext s) path then Some (PICA_OK, of_nat (length bs), s)
               else Some (PICA_ERRFILEOPEN, 0, s) })"

definition PICA_recvfile_open_write :: "nat \<Rightarrow> byte list \<Rightarrow> lib \<Rightarrow> (int \<times> lib) option" where
  "PICA_recvfile_open_write p name s =
     (let (ok, e) = env_alloc (lenv s) in
      if \<not> ok then None
      else if fopen_w_ok (lext s) (c_str name) then
        do { s \<leftarrow> upd_chan p (\<lambda>c. c\<lparr>ch_recvfile_stream := Some []\<rparr>) (s\<lparr>lenv := e\<rparr>); Some (PICA_OK, s) }
      else
        do { s \<leftarrow> upd_chan p (\<lambda>c. c\<lparr>ch_recvfile_stream := None\<rparr>) (s\<lparr>lenv := e\<rparr>); Some (PICA_ERRFILEOPEN, s) })"

section \<open>Text messages\<close>

definition PICA_send_msg :: "nat \<Rightarrow> byte list \<Rightarrow> lib \<Rightarrow> (int \<times> lib) option" where
  "PICA_send_msg p msg s =
     (if length msg > PICA_PROTO_C2CMSG_MAXDATASIZE then Some (PICA_ERRMSGSIZE, s)
      else
        do { (ok, s) \<leftarrow> chan_send p PICA_PROTO_MSGUTF8 (of_nat (length msg) + 4) (put16 (length msg) @ msg) s;
             Some (if ok then PICA_OK else PICA_ERRNOMEM, s) })"

definition procmsg_MSGUTF8 :: "byte list \<Rightarrow> u32 \<Rightarrow> nat \<Rightarrow> lib \<Rightarrow> (u32 \<times> lib) option" where
  "procmsg_MSGUTF8 buf nb p s =
     do { c \<leftarrow> chans s p;
          if ch_state c \<noteq> PICA_C2C_STATE_ACTIVE then Some (0, s)
          else
            do { msg \<leftarrow> rd_bytes buf 4 (unat (nb - 4));
                 ty \<leftarrow> rd8 buf 0;
                 (ok, s) \<leftarrow> chan_send_rand p PICA_PROTO_MSGOK PICA_PROTO_MSGOK_SIZE
                              (emit (newmsg_cb (ch_peer_id c) msg ty) s);
                 Some (if ok then 1 else 0, s) } }"

definition procmsg_MSGOK :: "byte list \<Rightarrow> u32 \<Rightarrow> nat \<Rightarrow> lib \<Rightarrow> (u32 \<times> lib) option" where
  "procmsg_MSGOK buf nb p s = do { c \<leftarrow> chans s p; Some (1, emit (msgok_cb (ch_peer_id c)) s) }"

section \<open>File control\<close>

definition PICA_send_filecontrol :: "nat \<Rightarrow> byte \<Rightarrow> byte \<Rightarrow> lib \<Rightarrow> (int \<times> lib) option" where
  "PICA_send_filecontrol p senderctl receiverctl s =
     do { (ok, s) \<leftarrow> chan_send p PICA_PROTO_FILECONTROL PICA_PROTO_FILECONTROL_SIZE [senderctl, receiverctl] s;
          Some (if ok then PICA_OK else PICA_ERRNOMEM, s) }"

definition PICA_pause_file :: "nat \<Rightarrow> bool \<Rightarrow> lib \<Rightarrow> (int \<times> lib) option" where
  "PICA_pause_file p sending s =
     do { c \<leftarrow> chans s p;
          if sending then
            (if ch_sendfilestate c \<noteq> PICA_CHANSENDFILESTATE_SENDING then Some (PICA_ERRINVARG, s)
             else
               do { s \<leftarrow> upd_chan p (\<lambda>c. c\<lparr>ch_sendfilestate := PICA_CHANSENDFILESTATE_PAUSED\<rparr>) s;
                    PICA_send_filecontrol p PICA_PROTO_FILECONTROL_PAUSE PICA_PROTO_FILECONTROL_VOID s })
          else
            (if ch_recvfilestate c \<noteq> PICA_CHANRECVFILESTATE_RECEIVING then Some (PICA_ERRINVARG, s)
             else
               do { s \<leftarrow> upd_chan p (\<lambda>c. c\<lparr>ch_recvfilestate := PICA_CHANRECVFILESTATE_PAUSED\<rparr>) s;
                    PICA_send_filecontrol p PICA_PROTO_FILECONTROL_VOID PICA_PROTO_FILECONTROL_PAUSE s }) }"

definition PICA_resume_file :: "nat \<Rightarrow> bool \<Rightarrow> lib \<Rightarrow> (int \<times> lib) option" where
  "PICA_resume_file p sending s =
     do { c \<leftarrow> chans s p;
          if sending then
            (if ch_sendfilestate c \<noteq> PICA_CHANSENDFILESTATE_PAUSED then Some (PICA_ERRINVARG, s)
             else
               do { s \<leftarrow> upd_chan p (\<lambda>c. c\<lparr>ch_sendfilestate := PICA_CHANSENDFILESTATE_SENDING\<rparr>) s;
                    PICA_send_filecontrol p PICA_PROTO_FILECONTROL_RESUME PICA_PROTO_FILECONTROL_VOID s })
          else
            (if ch_recvfilestate c \<noteq> PICA_CHANRECVFILESTATE_PAUSED then Some (PICA_ERRINVARG, s)
             else
               do { s \<leftarrow> upd_chan p (\<lambda>c. c\<lparr>ch_recvfilestate := PICA_CHANRECVFILESTATE_RECEIVING\<rparr>) s;
                    PICA_send_filecontrol p PICA_PROTO_FILECONTROL_VOID PICA_PROTO_FILECONTROL_RESUME s }) }"

definition PICA_cancel_file :: "nat \<Rightarrow> bool \<Rightarrow> lib \<Rightarrow> (int \<times> lib) option" where
  "PICA_cancel_file p sending s =
     do { c \<leftarrow> chans s p;
          if sending then
            (if ch_sendfilestate c \<notin> {PICA_CHANSENDFILESTATE_SENDING, PICA_CHANSENDFILESTATE_PAUSED}
             then Some (PICA_ERRINVARG, s)
             else
               do { s \<leftarrow> fclose_send p s;
                    s \<leftarrow> upd_chan p (\<lambda>c. c\<lparr>ch_sendfilestate := PICA_CHANSENDFILESTATE_IDLE\<rparr>) s;
                    PICA_send_filecontrol p PICA_PROTO_FILECONTROL_CANCEL PICA_PROTO_FILECONTROL_VOID s })
          else
            (if ch_recvfilestate c \<notin> {PICA_CHANRECVFILESTATE_RECEIVING, PICA_CHANRECVFILESTATE_PAUSED}
             then Some (PICA_ERRINVARG, s)
             else
               do { s \<leftarrow> fclose_recv p s;
                    s \<leftarrow> upd_chan p (\<lambda>c. c\<lparr>ch_recvfilestate := PICA_CHANRECVFILESTATE_IDLE\<rparr>) s;
                    PICA_send_filecontrol p PICA_PROTO_FILECONTROL_VOID PICA_PROTO_FILECONTROL_CANCEL s }) }"

text \<open>The two switches of \<open>procmsg_FILECONTROL\<close>; \<open>False\<close> is the return value 0.\<close>

definition control_recv :: "byte \<Rightarrow> nat \<Rightarrow> lib \<Rightarrow> (bool \<times> lib) option" where
  "control_recv sender_cmd p s =
     do { c \<leftarrow> chans s p;
          if sender_cmd = PICA_PROTO_FILECONTROL_PAUSE then
            (if ch_recvfilestate c = PICA_CHANRECVFILESTATE_RECEIVING
             then do { s \<leftarrow> upd_chan p (\<lambda>c. c\<lparr>ch_recvfilestate := PICA_CHANRECVFILESTATE_PAUSED\<rparr>) s; Some (True, s) }
             else Some (False, s))
          else if sender_cmd = PICA_PROTO_FILECONTROL_RESUME then
            (if ch_recvfilestate c = PICA_CHANRECVFILESTATE_PAUSED
             then do { s \<leftarrow> upd_chan p (\<lambda>c. c\<lparr>ch_recvfilestate := PICA_CHANRECVFILESTATE_RECEIVING\<rparr>) s; Some (True, s) }
             else Some (False, s))
          else if sender_cmd = PICA_PROTO_FILECONTROL_CANCEL \<or> sender_cmd = PICA_PROTO_FILECONTROL_IOERROR then
            do { s \<leftarrow> upd_chan p (\<lambda>c. c\<lparr>ch_recvfilestate := PICA_CHANRECVFILESTATE_IDLE\<rparr>) s;
                 s \<leftarrow> fclose_recv p s;
                 Some (True, s) }
          else Some (sender_cmd = PICA_PROTO_FILECONTROL_VOID, s) }"

definition control_send :: "byte \<Rightarrow> nat \<Rightarrow> lib \<Rightarrow> (bool \<times> lib) option" where
  "control_send receiver_cmd p s =
     do { c \<leftarrow> chans s p;
          if receiver_cmd = PICA_PROTO_FILECONTROL_PAUSE then
            (if ch_sendfilestate c = PICA_CHANSENDFILESTATE_SENDING
             then do { s \<leftarrow> upd_chan p (\<lambda>c. c\<lparr>ch_sendfilestate := PICA_CHANSENDFILESTATE_PAUSED\<rparr>) s; Some (True, s) }
             else Some (False, s))
          else if receiver_cmd = PICA_PROTO_FILECONTROL_RESUME then
            (if ch_sendfilestate c = PICA_CHANSENDFILESTATE_PAUSED
             then do { s \<leftarrow> upd_chan p (\<lambda>c. c\<lparr>ch_sendfilestate := PICA_CHANSENDFILESTATE_SENDING\<rparr>) s; Some (True, s) }
             else Some (False, s))
          else if receiver_cmd = PICA_PROTO_FILECONTROL_CANCEL \<or> receiver_cmd = PICA_PROTO_FILECONTROL_IOERROR then
            do { s \<leftarrow> upd_chan p (\<lambda>c. c\<lparr>ch_sendfilestate := PICA_CHANSENDFILESTATE_IDLE\<rparr>) s;
                 s \<leftarrow> fclose_send p s;
                 Some (True, s) }
          else Some (receiver_cmd = PICA_PROTO_FILECONTROL_VOID, s) }"

definition procmsg_FILECONTROL :: "byte list \<Rightarrow> u32 \<Rightarrow> nat \<Rightarrow> lib \<Rightarrow> (u32 \<times> lib) option" where
  "procmsg_FILECONTROL buf nb p s =
     do { c \<leftarrow> chans s p;
          sender_cmd \<leftarrow> rd8 buf 2;
          receiver_cmd \<leftarrow> rd8 buf 3;
          if ch_sendfilestate c \<in> {PICA_CHANSENDFILESTATE_IDLE, PICA_CHANSENDFILESTATE_SENTREQ}
             \<and> receiver_cmd \<noteq> PICA_PROTO_FILECONTROL_VOID then Some (0, s)
          else if ch_recvfilestate c = PICA_CHANRECVFILESTATE_IDLE \<and> sender_cmd \<noteq> PICA_PROTO_FILECONTROL_VOID
          then Some (0, s)
          else
            do { (ok, s) \<leftarrow> control_recv sender_cmd p s;
                 if \<not> ok then Some (0, s)
                 else
                   do { (ok, s) \<leftarrow> control_send receiver_cmd p s;
                        if \<not> ok then Some (0, s)
                        else Some (1, emit (file_control_cb (ch_peer_id c) sender_cmd receiver_cmd) s) } } }"

section \<open>Receiving a file\<close>

definition PICA_deny_file :: "nat \<Rightarrow> lib \<Rightarrow> (int \<times> lib) option" where
  "PICA_deny_file p s =
     do { c \<leftarrow> chans s p;
          if ch_recvfilestate c \<noteq> PICA_CHANRECVFILESTATE_WAITACCEPT then Some (PICA_ERRINVARG, s)
          else
            do { s \<leftarrow> upd_chan p (\<lambda>c. c\<lparr>ch_recvfilestate := PICA_CHANRECVFILESTATE_IDLE\<rparr>) s;
                 (ok, s) \<leftarrow> chan_send_rand p PICA_PROTO_DENIEDFILE PICA_PROTO_DENIEDFILE_SIZE s;
                 Some (if ok then PICA_OK else PICA_ERRNOMEM, s) } }"

definition PICA_accept_file :: "nat \<Rightarrow> byte list \<Rightarrow> lib \<Rightarrow> (int \<times> lib) option" where
  "PICA_accept_file p filename s =
     do { c \<leftarrow> chans s p;
          if ch_recvfilestate c \<noteq> PICA_CHANRECVFILESTATE_WAITACCEPT then Some (PICA_ERRINVARG, s)
          else
            do { (ret, s) \<leftarrow> PICA_recvfile_open_write p filename s;
                 if ret \<noteq> PICA_OK then Some (ret, s)
                 else
                   do { (ok, s) \<leftarrow> chan_send_rand p PICA_PROTO_ACCEPTEDFILE PICA_PROTO_ACCEPTEDFILE_SIZE s;
                        if \<not> ok then Some (PICA_ERRNOMEM, s)
                        else
                          do { s \<leftarrow> upd_chan p (\<lambda>c. c\<lparr>ch_recvfilestate := PICA_CHANRECVFILESTATE_RECEIVING\<rparr>) s;
                               Some (PICA_OK, s) } } } }"

text \<open>The characters \<open>*\<close>, \<open>:\<close> and \<open>/\<close> and two dots in a row are refused.\<close>

fun has_dotdot :: "byte list \<Rightarrow> bool" where
  "has_dotdot (a # b # bs) \<longleftrightarrow> (a = 0x2E \<and> b = 0x2E) \<or> has_dotdot (b # bs)"
| "has_dotdot bs \<longleftrightarrow> False"

definition validate_file_name :: "byte list \<Rightarrow> int" where
  "validate_file_name name =
     (let str = c_str name in
      if 0x2A \<in> set str \<or> 0x3A \<in> set str \<or> 0x2F \<in> set str \<or> has_dotdot str then PICA_ERRINVARG else PICA_OK)"

text \<open>The application decides about the file at once, or later when it returns another value.\<close>

definition offer_file :: "nat \<Rightarrow> u64 \<Rightarrow> byte list \<Rightarrow> lib \<Rightarrow> (u32 \<times> lib) option" where
  "offer_file p fsize filename s =
     do { s \<leftarrow> upd_chan p (\<lambda>c. c\<lparr>ch_recvfilestate := PICA_CHANRECVFILESTATE_WAITACCEPT,
                          ch_recvfile_size := fsize, ch_recvfile_pos := 0\<rparr>) s;
          c \<leftarrow> chans s p;
          let ret = accept_file_cb (lext s) (ch_peer_id c) fsize filename;
          if ret > 0 then
            (if ret = 1 then
               do { (r, s) \<leftarrow> PICA_accept_file p filename s;
                    if r \<noteq> PICA_OK
                    then do { (r, s) \<leftarrow> PICA_deny_file p s; Some (if r \<noteq> PICA_OK then 0 else 1, s) }
                    else Some (1, s) }
             else Some (1, s))
          else do { (r, s) \<leftarrow> PICA_deny_file p s; Some (if r \<noteq> PICA_OK then 0 else 1, s) } }"

text \<open>The length of the name is computed with 32 bits from the length of the payload.\<close>

definition procmsg_SENDFILEREQUEST :: "byte list \<Rightarrow> u32 \<Rightarrow> nat \<Rightarrow> lib \<Rightarrow> (u32 \<times> lib) option" where
  "procmsg_SENDFILEREQUEST buf nb p s =
     do { c \<leftarrow> chans s p;
          len \<leftarrow> rd16 buf 2;
          let filenamesize = (of_nat len - 8 :: u32);
          if ch_recvfilestate c \<noteq> PICA_CHANRECVFILESTATE_IDLE then Some (0, s)
          else
            do { filename \<leftarrow> rd_bytes buf 12 (unat filenamesize);
                 let (mok, e) = env_alloc (lenv s);
                 s \<leftarrow> (if mok then Some (s\<lparr>lenv := e\<rparr>) else None);
                 if validate_file_name filename \<noteq> PICA_OK then Some (0, s)
                 else do { n \<leftarrow> rd64 buf 4; offer_file p (of_nat n) filename s } } }"

text \<open>
  \<open>fwrite\<close> of one item succeeds when the item is not empty and the system takes it.
  After a failed write the function goes on behind the error branch.
\<close>

definition procmsg_FILEFRAGMENT :: "byte list \<Rightarrow> u32 \<Rightarrow> nat \<Rightarrow> lib \<Rightarrow> (u32 \<times> lib) option" where
  "procmsg_FILEFRAGMENT buf nb p s =
     do { c \<leftarrow> chans s p;
          if ch_recvfilestate c \<notin> {PICA_CHANRECVFILESTATE_RECEIVING, PICA_CHANRECVFILESTATE_PAUSED} then Some (0, s)
          else
            do { len \<leftarrow> rd16 buf 2;
                 if nb - 4 \<noteq> of_nat len then Some (0, s)
                 else
                   do { data \<leftarrow> rd_bytes buf 4 (unat (nb - 4));
                        f \<leftarrow> ch_recvfile_stream c;
                        let written = (data \<noteq> [] \<and> fwrite_ok (lext s) (n_fwrite s));
                        let s = s\<lparr>n_fwrite := Suc (n_fwrite s)\<rparr>;
                        (go, s) \<leftarrow>
                          (if written
                           then do { s \<leftarrow> upd_chan p (\<lambda>c. c\<lparr>ch_recvfile_stream := Some (f @ data)\<rparr>) s; Some (True, s) }
                           else
                             do { s \<leftarrow> fclose_recv p s;
                                  s \<leftarrow> upd_chan p (\<lambda>c. c\<lparr>ch_recvfilestate := PICA_CHANRECVFILESTATE_IDLE\<rparr>) s;
                                  (r, s) \<leftarrow> PICA_send_filecontrol p PICA_PROTO_FILECONTROL_VOID
                                              PICA_PROTO_FILECONTROL_IOERROR s;
                                  Some (r = PICA_OK, s) });
                        if \<not> go then Some (0, s)
                        else
                          do { let pos = ch_recvfile_pos c + ucast (nb - 4);
                               s \<leftarrow> upd_chan p (\<lambda>c. c\<lparr>ch_recvfile_pos := pos\<rparr>) s;
                               if pos > ch_recvfile_size c then Some (0, s)
                               else
                                 do { let s = emit (file_progress_cb (ch_peer_id c) 0 pos) s;
                                      if pos = ch_recvfile_size c then
                                        do { s \<leftarrow> upd_chan p (\<lambda>c. c\<lparr>ch_recvfilestate := PICA_CHANRECVFILESTATE_IDLE\<rparr>) s;
                                             s \<leftarrow> fclose_recv p s;
                                             Some (1, emit (file_finished_cb (ch_peer_id c) False) s) }
                                      else Some (1, s) } } } } }"

section \<open>Sending a file\<close>

definition last_component :: "byte list \<Rightarrow> byte list" where
  "last_component path = rev (takeWhile (\<lambda>b. b \<noteq> 0x2F) (rev path))"

definition PICA_send_file :: "nat \<Rightarrow> byte list option \<Rightarrow> lib \<Rightarrow> (int \<times> lib) option" where
  "PICA_send_file p filepath s =
     do { c \<leftarrow> chans s p;
          if ch_sendfilestate c \<noteq> PICA_CHANSENDFILESTATE_IDLE then Some (PICA_ERRFILETRANSFERINPROGRESS, s)
          else
            (case filepath of
               None \<Rightarrow> Some (PICA_ERRINVFILENAME, s)
             | Some path \<Rightarrow>
                 (let filename = last_component path; namelen = length filename in
                  if namelen = 0 \<or> namelen > PICA_PROTO_C2CMSG_MAXFILENAMESIZE then Some (PICA_ERRINVFILENAME, s)
                  else
                    do { (ret, fsize, s) \<leftarrow> PICA_sendfile_open_read p path s;
                         if ret \<noteq> PICA_OK then Some (ret, s)
                         else
                           do { (ok, s) \<leftarrow> chan_send p PICA_PROTO_SENDFILEREQUEST (of_nat namelen + 12)
                                             (put16 (namelen + 8) @ put_le 8 (unat fsize) @ filename) s;
                                if \<not> ok then Some (PICA_ERRNOMEM, s)
                                else
                                  do { s \<leftarrow> upd_chan p (\<lambda>c. c\<lparr>ch_sendfilestate := PICA_CHANSENDFILESTATE_SENTREQ,
                                             ch_sendfile_size := fsize, ch_sendfile_pos := 0\<rparr>) s;
                                       Some (PICA_OK, s) } } })) }"

definition procmsg_ACCEPTEDFILE :: "byte list \<Rightarrow> u32 \<Rightarrow> nat \<Rightarrow> lib \<Rightarrow> (u32 \<times> lib) option" where
  "procmsg_ACCEPTEDFILE buf nb p s =
     do { c \<leftarrow> chans s p;
          if ch_sendfilestate c \<noteq> PICA_CHANSENDFILESTATE_SENTREQ then Some (0, s)
          else
            do { s \<leftarrow> upd_chan p (\<lambda>c. c\<lparr>ch_sendfilestate := PICA_CHANSENDFILESTATE_SENDING\<rparr>)
                        (emit (accepted_file_cb (ch_peer_id c)) s);
                 Some (1, s) } }"

definition procmsg_DENIEDFILE :: "byte list \<Rightarrow> u32 \<Rightarrow> nat \<Rightarrow> lib \<Rightarrow> (u32 \<times> lib) option" where
  "procmsg_DENIEDFILE buf nb p s =
     do { c \<leftarrow> chans s p;
          if ch_sendfilestate c \<noteq> PICA_CHANSENDFILESTATE_SENTREQ then Some (0, s)
          else
            do { s \<leftarrow> upd_chan p (\<lambda>c. c\<lparr>ch_sendfilestate := PICA_CHANSENDFILESTATE_IDLE\<rparr>)
                        (emit (denied_file_cb (ch_peer_id c)) s);
                 s \<leftarrow> fclose_send p s;
                 Some (1, s) } }"

text \<open>\<open>fread\<close> gives at most what it is asked for and what is left, and less on an error.\<close>

definition PICA_send_file_fragment :: "nat \<Rightarrow> lib \<Rightarrow> (int \<times> lib) option" where
  "PICA_send_file_fragment p s =
     do { c \<leftarrow> chans s p;
          if ch_sendfilestate c \<noteq> PICA_CHANSENDFILESTATE_SENDING then Some (PICA_ERRFILETRANSFERNOTINPROGRESS, s)
          else
            do { f \<leftarrow> ch_sendfile_stream c;
                 let n = min (PICA_FILEFRAGMENTSIZE - 4) (fread_max (lext s) (n_fread s));
                 let fragment = take n f;
                 s \<leftarrow> upd_chan p (\<lambda>c. c\<lparr>ch_sendfile_stream := Some (drop n f)\<rparr>) (s\<lparr>n_fread := Suc (n_fread s)\<rparr>);
                 if fragment = [] then
                   do { s \<leftarrow> fclose_send p s;
                        s \<leftarrow> upd_chan p (\<lambda>c. c\<lparr>ch_sendfilestate := PICA_CHANSENDFILESTATE_IDLE\<rparr>) s;
                        (r, s) \<leftarrow> PICA_send_filecontrol p PICA_PROTO_FILECONTROL_IOERROR PICA_PROTO_FILECONTROL_VOID s;
                        Some (PICA_ERRFILEIO, s) }
                 else
                   do { (ok, s) \<leftarrow> chan_send p PICA_PROTO_FILEFRAGMENT (of_nat (length fragment) + 4)
                                     (put16 (length fragment) @ fragment) s;
                        if \<not> ok then Some (PICA_ERRNOMEM, s)
                        else
                          do { let pos = ch_sendfile_pos c + of_nat (length fragment);
                               s \<leftarrow> upd_chan p (\<lambda>c. c\<lparr>ch_sendfile_pos := pos\<rparr>) s;
                               let s = emit (file_progress_cb (ch_peer_id c) pos 0) s;
                               s \<leftarrow> (if pos \<ge> ch_sendfile_size c then
                                       do { s \<leftarrow> upd_chan p (\<lambda>c. c\<lparr>ch_sendfilestate := PICA_CHANSENDFILESTATE_IDLE\<rparr>) s;
                                            s \<leftarrow> fclose_send p s;
                                            Some (emit (file_finished_cb (ch_peer_id c) True) s) }
                                     else Some s);
                               Some (if pos > ch_sendfile_size c then PICA_ERRFILEFRAGMENTCROSSEDSIZE else PICA_OK, s) } } } }"

end
