(* ===== verification/ClientDirect.thy ===== *)
theory ClientDirect
  imports ClientChan
begin

text \<open>
  Direct connections between clients: the list of addresses a peer offers, the attempts to
  connect to them, the listener for connections from peers, and the switch of a channel
  from the relay through the node to the direct connection (\<open>directc2c_*\<close>,
  \<open>procmsg_PICA_PROTO_DIRECTC2C_*\<close>, \<open>process_directc2c\<close>, \<open>process_listener\<close> of
  \<open>PICA_client.c\<close>). A direct connection is an object of its own; the list of accepted
  connections is kept with its pointers, because the loops over it free what they visit.
\<close>

section \<open>Results of asynchronous calls\<close>

definition process_async_ssl_errors :: "int \<Rightarrow> sys_error \<Rightarrow> int \<times> bool" where
  "process_async_ssl_errors ret err =
     (if ret = 0 then (PICA_ERRDISCONNECT, False)
      else if ret < 0 then
        (if err = WANT_WRITE then (PICA_OK, True)
         else if err = WANT_READ then (PICA_OK, False)
         else (PICA_ERRSSL, False))
      else (PICA_OK, False))"

definition process_first_async_connect_result :: "int \<Rightarrow> sys_error \<Rightarrow> int" where
  "process_first_async_connect_result connect_ret err =
     (if connect_ret = -1 then (if err = EINPROGRESS \<or> err = EINTR then PICA_OK else PICA_ERRSOCK) else PICA_OK)"

text \<open>\<open>getsockopt\<close> of \<open>SO_ERROR\<close>: its return value and the option's value in one answer.\<close>

definition check_async_connect_result :: "lib \<Rightarrow> int \<times> lib" where
  "check_async_connect_result s =
     (let (a, s) = sys_call s in (if a_ret a = 0 then PICA_OK else PICA_ERRSOCK, s))"

section \<open>Certificates\<close>

abbreviation (input) PICA_RSA_MINKEYSIZE :: nat where "PICA_RSA_MINKEYSIZE \<equiv> 4096"

text \<open>The certificate of the TLS session is the answer of the next call; it is stored
  whether it is accepted or not.\<close>

definition verify_peer_cert_common :: "pid \<Rightarrow> lib \<Rightarrow> int \<times> cert option \<times> lib" where
  "verify_peer_cert_common peer_id s =
     (let (a, s) = sys_call s; x = lext s in
      case a_cert a of
        None \<Rightarrow> (PICA_ERRNOPEERCERT, None, s)
      | Some cert \<Rightarrow>
          (case rsa_key_bits x cert of
             None \<Rightarrow> (PICA_ERRNOPEERCERT, Some cert, s)
           | Some bits \<Rightarrow>
               if bits < PICA_RSA_MINKEYSIZE then (PICA_ERRNOPEERCERT, Some cert, s)
               else (case x509_id x cert of
                  None \<Rightarrow> (PICA_ERRNOPEERCERT, Some cert, s)
                | Some i \<Rightarrow>
                    if memcmp i peer_id \<noteq> 0 then (PICA_ERRINVPEERCERT, Some cert, s)
                    else if \<not> peer_cert_verify_cb x peer_id cert then (PICA_ERRINVPEERCERT, Some cert, s)
                    else (PICA_OK, Some cert, s))))"

section \<open>Objects\<close>

definition PICA_close_directc2c :: "nat \<Rightarrow> lib \<Rightarrow> lib option" where
  "PICA_close_directc2c d s =
     (case directs s d of None \<Rightarrow> None
      | Some dc \<Rightarrow> Some (s\<lparr>directs := (directs s)(d := None), lclosed := lclosed s @ [dc_sck dc]\<rparr>))"

definition new_directc2c :: "bool \<Rightarrow> int \<Rightarrow> PICA_directc2c" where
  "new_directc2c outgoing sck =
     \<lparr>dc_is_outgoing = outgoing, dc_sck = sck, dc_ssl = False, dc_peer_cert = None, dc_want_write = False,
      dc_addrlist = None, dc_addrpos = 0, dc_addr = (0, 0), dc_state = PICA_DIRECTC2C_CONNSTATE_NEW,
      dc_next = None\<rparr>"

section \<open>Sending\<close>

text \<open>A port number in network byte order.\<close>

definition put_be16 :: "u16 \<Rightarrow> byte list" where
  "put_be16 port = [of_nat (unat port div 256), of_nat (unat port)]"

definition PICA_send_directc2caddrlist :: "nat \<Rightarrow> lib \<Rightarrow> lib option" where
  "PICA_send_directc2caddrlist p s =
     do { c \<leftarrow> chans s p;
          n \<leftarrow> conns s (ch_conn c);
          case cn_directc2c_listener n of
            None \<Rightarrow> Some s
          | Some l \<Rightarrow>
              if cn_directc2c_config n = PICA_DIRECTC2C_CFG_ALLOWINCOMING then
                do { li \<leftarrow> listeners s l;
                     let len = PICA_PROTO_DIRECTC2C_ADDRLIST_ITEM_IPV4_SIZE;
                     (ok, s) \<leftarrow> chan_send p PICA_PROTO_DIRECTC2C_ADDRLIST (of_nat len + 4)
                                  (put16 len @ ucast PICA_PROTO_DIRECTC2C_IPV4
                                     # put_le 4 (unat (li_public_addr_ipv4 li)) @ put_be16 (li_public_port li)) s;
                     if ok then upd_chan p (\<lambda>c. c\<lparr>ch_directc2c_state := PICA_DIRECTC2C_STATE_WAITINGINCOMING\<rparr>) s
                     else Some s }
              else Some s }"

definition PICA_send_directc2cfailed :: "nat \<Rightarrow> lib \<Rightarrow> (int \<times> lib) option" where
  "PICA_send_directc2cfailed p s =
     do { (ok, s) \<leftarrow> chan_send_rand p PICA_PROTO_DIRECTC2C_FAILED PICA_PROTO_DIRECTC2C_FAILED_SIZE s;
          Some (if ok then PICA_OK else PICA_ERRNOMEM, s) }"

definition PICA_send_directc2c_switch :: "nat \<Rightarrow> lib \<Rightarrow> (int \<times> lib) option" where
  "PICA_send_directc2c_switch p s =
     do { (ok, s) \<leftarrow> chan_send_rand p PICA_PROTO_DIRECTC2C_SWITCH PICA_PROTO_DIRECTC2C_SWITCH_SIZE s;
          if \<not> ok then Some (PICA_ERRNOMEM, s)
          else
            do { s \<leftarrow> upd_chan p (\<lambda>c. c\<lparr>ch_write_barrier_pos := w_pos (ch_w c)\<rparr>) s;
                 Some (PICA_OK, s) } }"

section \<open>Connecting\<close>

text \<open>
  The list of addresses starts with the length of the payload; \<open>addrpos\<close> counts from the
  start of the list. Reading past the block is a fault.
\<close>

definition directc2c_connect_next :: "nat \<Rightarrow> lib \<Rightarrow> (int \<times> lib) option" where
  "directc2c_connect_next d s =
     do { dc \<leftarrow> directs s d;
          let pos = (if dc_addrpos dc = 0 then 2 else dc_addrpos dc);
          let s = (if dc_sck dc \<ge> 0 then s\<lparr>lclosed := lclosed s @ [dc_sck dc]\<rparr> else s);
          s \<leftarrow> upd_direct d (\<lambda>dc. dc\<lparr>dc_ssl := False, dc_sck := -1, dc_addrpos := pos\<rparr>) s;
          lst \<leftarrow> dc_addrlist dc;
          len \<leftarrow> rd16 lst 0;
          if pos \<ge> len then Some (PICA_ERRNOTFOUND, s)
          else
            do { ty \<leftarrow> rd8 lst pos;
                 if ty = ucast PICA_PROTO_DIRECTC2C_IPV4 then
                   do { let (sock, s) = sys_call s;
                        addr \<leftarrow> rd_bytes lst (pos + 1) 4;
                        port \<leftarrow> rd_bytes lst (pos + 5) 2;
                        let (con, s) = sys_call s;
                        let ret = process_first_async_connect_result (a_ret con) (a_err con);
                        s \<leftarrow> upd_direct d (\<lambda>dc. dc\<lparr>dc_sck := a_ret sock,
                               dc_addr := (of_nat (le_nat addr), of_nat (le_nat port)),
                               dc_state := (if ret \<noteq> PICA_OK then PICA_DIRECTC2C_CONNSTATE_FAILED
                                            else PICA_DIRECTC2C_CONNSTATE_CONNECTING),
                               dc_addrpos := pos + PICA_PROTO_DIRECTC2C_ADDRLIST_ITEM_IPV4_SIZE\<rparr>) s;
                        Some (PICA_OK, s) }
                 else Some (PICA_OK, s) } }"

text \<open>\<open>SSL_new\<close> and \<open>SSL_set_fd\<close> are not checked here.\<close>

definition directc2c_stage2_starttls :: "nat \<Rightarrow> lib \<Rightarrow> (int \<times> lib) option" where
  "directc2c_stage2_starttls d s =
     do { s \<leftarrow> upd_direct d (\<lambda>dc. dc\<lparr>dc_ssl := True\<rparr>) s;
          let (a, s) = sys_call s;
          if a_ret a = 0 \<or> (a_ret a < 0 \<and> a_err a \<noteq> WANT_READ \<and> a_err a \<noteq> WANT_WRITE)
          then Some (PICA_ERRSSL, s)
          else
            do { s \<leftarrow> upd_direct d (\<lambda>dc. dc\<lparr>dc_state := PICA_DIRECTC2C_CONNSTATE_WAITINGTLS\<rparr>) s;
                 Some (PICA_OK, s) } }"

section \<open>Handlers\<close>

definition procmsg_PICA_PROTO_DIRECTC2C_ADDRLIST :: "byte list \<Rightarrow> u32 \<Rightarrow> nat \<Rightarrow> lib \<Rightarrow> (u32 \<times> lib) option" where
  "procmsg_PICA_PROTO_DIRECTC2C_ADDRLIST buf nb p s =
     do { c \<leftarrow> chans s p;
          n \<leftarrow> conns s (ch_conn c);
          let cfg = cn_directc2c_config n;
          if cfg = PICA_DIRECTC2C_CFG_DISABLED then Some (1, s)
          else if ch_directc2c_state c \<notin> {PICA_DIRECTC2C_STATE_INACTIVE, PICA_DIRECTC2C_STATE_WAITINGINCOMING}
          then Some (0, s)
          else
            do { s \<leftarrow> (if ch_outgoing c \<or> cfg = PICA_DIRECTC2C_CFG_CONNECTONLY
                       then upd_chan p (\<lambda>c. c\<lparr>ch_directc2c_state := PICA_DIRECTC2C_STATE_CONNECTING\<rparr>) s
                       else Some s);
                 let (ok, e) = env_alloc (lenv s);
                 let s = s\<lparr>lenv := e\<rparr>;
                 if \<not> ok then do { s \<leftarrow> upd_chan p (\<lambda>c. c\<lparr>ch_direct := None\<rparr>) s; Some (1, s) }
                 else
                   do { let d = lnext s;
                        s \<leftarrow> upd_chan p (\<lambda>c. c\<lparr>ch_direct := Some d\<rparr>) s;
                        let s = s\<lparr>lnext := Suc d, directs := (directs s)(d \<mapsto> new_directc2c True (-1))\<rparr>;
                        let (ok, e) = env_alloc (lenv s);
                        let s = s\<lparr>lenv := e\<rparr>;
                        if \<not> ok then Some (1, s)
                        else
                          do { data \<leftarrow> rd_bytes buf 2 (unat (nb - 2));
                               s \<leftarrow> upd_direct d (\<lambda>dc. dc\<lparr>dc_addrlist := Some (data @ [0]), dc_addrpos := 0\<rparr>) s;
                               if \<not> ch_outgoing c \<and> cfg = PICA_DIRECTC2C_CFG_ALLOWINCOMING then Some (1, s)
                               else
                                 do { (ret, s) \<leftarrow> directc2c_connect_next d s;
                                      s \<leftarrow> (if ret = PICA_ERRNOTFOUND
                                            then upd_chan p (\<lambda>c. c\<lparr>ch_directc2c_state :=
                                                   PICA_DIRECTC2C_STATE_FAILEDTOCONNECT\<rparr>) s
                                            else Some s);
                                      Some (1, s) } } } } }"

text \<open>Whatever \<open>directc2c_connect_next\<close> returns, the state becomes \<open>CONNECTING\<close>.\<close>

definition procmsg_PICA_PROTO_DIRECTC2C_FAILED :: "byte list \<Rightarrow> u32 \<Rightarrow> nat \<Rightarrow> lib \<Rightarrow> (u32 \<times> lib) option" where
  "procmsg_PICA_PROTO_DIRECTC2C_FAILED buf nb p s =
     do { c \<leftarrow> chans s p;
          if ch_directc2c_state c \<noteq> PICA_DIRECTC2C_STATE_WAITINGINCOMING then Some (0, s)
          else
            do { n \<leftarrow> conns s (ch_conn c);
                 if cn_directc2c_config n = PICA_DIRECTC2C_CFG_DISABLED then Some (0, s)
                 else if ch_outgoing c then Some (0, s)
                 else
                   do { d \<leftarrow> ch_direct c;
                        (ret, s) \<leftarrow> directc2c_connect_next d s;
                        s \<leftarrow> (if ret = PICA_ERRNOTFOUND
                              then upd_chan p (\<lambda>c. c\<lparr>ch_directc2c_state := PICA_DIRECTC2C_STATE_FAILEDTOCONNECT\<rparr>) s
                              else Some s);
                        s \<leftarrow> upd_chan p (\<lambda>c. c\<lparr>ch_directc2c_state := PICA_DIRECTC2C_STATE_CONNECTING\<rparr>) s;
                        Some (1, s) } } }"

definition procmsg_PICA_PROTO_DIRECTC2C_SWITCH :: "byte list \<Rightarrow> u32 \<Rightarrow> nat \<Rightarrow> lib \<Rightarrow> (u32 \<times> lib) option" where
  "procmsg_PICA_PROTO_DIRECTC2C_SWITCH buf nb p s =
     do { c \<leftarrow> chans s p;
          n \<leftarrow> conns s (ch_conn c);
          if cn_directc2c_config n = PICA_DIRECTC2C_CFG_DISABLED then Some (0, s)
          else if ch_directc2c_state c \<notin> {PICA_DIRECTC2C_STATE_ACTIVE, PICA_DIRECTC2C_STATE_CONNECTING}
          then Some (0, s)
          else do { s \<leftarrow> upd_chan p (\<lambda>c. c\<lparr>ch_switched_to_directc2c_read := True\<rparr>) s; Some (1, s) } }"

section \<open>The list of accepted connections\<close>

text \<open>The address of a pointer to a connection: the head of the list or a \<open>next\<close> field.\<close>

datatype plink_dc = ListHead nat | NextOf nat

fun write_link :: "plink_dc \<Rightarrow> nat option \<Rightarrow> lib \<Rightarrow> lib option" where
  "write_link (ListHead l) v s =
     (case listeners s l of
        None \<Rightarrow> None
      | Some li \<Rightarrow> Some (s\<lparr>listeners := (listeners s)(l \<mapsto> li\<lparr>li_accepted_connections := v\<rparr>)\<rparr>))"
| "write_link (NextOf d) v s = upd_direct d (\<lambda>dc. dc\<lparr>dc_next := v\<rparr>) s"

definition listener_add_connection :: "nat \<Rightarrow> int \<Rightarrow> lib \<Rightarrow> lib option" where
  "listener_add_connection l sck s =
     (let (ok, e) = env_alloc (lenv s); s = s\<lparr>lenv := e\<rparr> in
      if \<not> ok then None
      else
        do { li \<leftarrow> listeners s l;
             let d = lnext s;
             let s = s\<lparr>lnext := Suc d\<rparr>;
             let (a, s) = sys_call s;
             if a_ret a = 0 \<or> (a_ret a < 0 \<and> a_err a \<noteq> WANT_READ \<and> a_err a \<noteq> WANT_WRITE) then Some s
             else write_link (ListHead l) (Some d)
                    (s\<lparr>directs := (directs s)(d \<mapsto> (new_directc2c False sck)\<lparr>dc_ssl := True,
                        dc_state := PICA_DIRECTC2C_CONNSTATE_WAITINGTLS, dc_next := li_accepted_connections li\<rparr>)\<rparr>) })"

type_synonym fdset = "int \<Rightarrow> bool"

definition process_listener_conn :: "fdset \<Rightarrow> fdset \<Rightarrow> nat \<Rightarrow> lib \<Rightarrow> (int \<times> lib) option" where
  "process_listener_conn rfds wfds d s =
     do { dc \<leftarrow> directs s d;
          if dc_peer_cert dc = None \<and> (rfds (dc_sck dc) \<or> wfds (dc_sck dc)) then
            do { let (a, s) = sys_call s;
                 if a_ret a = 1 then
                   (case a_cert a of
                      None \<Rightarrow> Some (PICA_ERRSSL, s)
                    | Some cert \<Rightarrow>
                        do { s \<leftarrow> upd_direct d (\<lambda>dc. dc\<lparr>dc_peer_cert := Some cert,
                                    dc_state := PICA_DIRECTC2C_CONNSTATE_ACTIVE\<rparr>) s;
                             Some (PICA_OK, s) })
                 else if a_ret a = 0 then Some (PICA_ERRSSL, s)
                 else if a_ret a < 0 then
                   do { s \<leftarrow> (if a_err a = WANT_WRITE then upd_direct d (\<lambda>dc. dc\<lparr>dc_want_write := True\<rparr>) s else Some s);
                        Some (if a_err a \<noteq> WANT_READ \<and> a_err a \<noteq> WANT_WRITE then PICA_ERRSSL else PICA_OK, s) }
                 else Some (PICA_OK, s) }
          else Some (PICA_OK, s) }"

partial_function (option) listener_loop :: "fdset \<Rightarrow> fdset \<Rightarrow> plink_dc \<Rightarrow> nat option \<Rightarrow> lib \<Rightarrow> lib option" where
  "listener_loop rfds wfds pprev conn s =
     (case conn of
        None \<Rightarrow> Some s
      | Some d \<Rightarrow>
          do { (ret, s) \<leftarrow> process_listener_conn rfds wfds d s;
               dc \<leftarrow> directs s d;
               if ret \<noteq> PICA_OK then
                 do { s \<leftarrow> write_link pprev (dc_next dc) s;
                      s \<leftarrow> PICA_close_directc2c d s;
                      listener_loop rfds wfds pprev (dc_next dc) s }
               else listener_loop rfds wfds (NextOf d) (dc_next dc) s })"

declare listener_loop.simps [code]

definition process_listener :: "fdset \<Rightarrow> fdset \<Rightarrow> nat \<Rightarrow> lib \<Rightarrow> (int \<times> lib) option" where
  "process_listener rfds wfds l s =
     do { li \<leftarrow> listeners s l;
          s \<leftarrow> (if rfds (li_sck li) then
                  do { let (a, s) = sys_call s;
                       if a_ret a \<ge> 0 then listener_add_connection l (a_ret a) s else Some s }
                else Some s);
          li \<leftarrow> listeners s l;
          s \<leftarrow> listener_loop rfds wfds (ListHead l) (li_accepted_connections li) s;
          Some (PICA_OK, s) }"

partial_function (option) close_accepted :: "nat \<Rightarrow> lib \<Rightarrow> lib option" where
  "close_accepted l s =
     do { li \<leftarrow> listeners s l;
          case li_accepted_connections li of
            None \<Rightarrow> Some s
          | Some d \<Rightarrow>
              do { dc \<leftarrow> directs s d;
                   s \<leftarrow> write_link (ListHead l) (dc_next dc) s;
                   s \<leftarrow> PICA_close_directc2c d s;
                   close_accepted l s } }"

declare close_accepted.simps [code]

definition PICA_close_listener :: "nat \<Rightarrow> lib \<Rightarrow> lib option" where
  "PICA_close_listener l s =
     do { li \<leftarrow> listeners s l;
          s \<leftarrow> close_accepted l (s\<lparr>lclosed := lclosed s @ [li_sck li]\<rparr>);
          Some (s\<lparr>listeners := (listeners s)(l := None)\<rparr>) }"

text \<open>A new listener; \<open>inet_addr\<close> of the C library converts the public address.\<close>

definition PICA_new_listener ::
  "(byte list \<Rightarrow> u32) \<Rightarrow> bool \<Rightarrow> byte list option \<Rightarrow> int \<Rightarrow> int \<Rightarrow> lib \<Rightarrow> int \<times> nat option \<times> lib" where
  "PICA_new_listener inet_addr acc public_addr public_port local_port s =
     (case public_addr of
        None \<Rightarrow> (PICA_ERRINVARG, None, s)
      | Some addr \<Rightarrow>
          if \<not> acc \<or> public_port \<le> 0 \<or> public_port > 65535 \<or> local_port \<le> 0 \<or> local_port > 65535
          then (PICA_ERRINVARG, None, s)
          else
            (let (ok, e) = env_alloc (lenv s); s = s\<lparr>lenv := e\<rparr> in
             if \<not> ok then (PICA_ERRNOMEM, None, s)
             else
               (let (ok, e) = env_alloc (lenv s); s = s\<lparr>lenv := e\<rparr> in
                if \<not> ok then (PICA_ERRNOMEM, None, s)
                else
                  (let (sock, s) = sys_call s in
                   if a_ret sock = -1 then (PICA_ERRSOCK, None, s)
                   else
                     (let (bnd, s) = sys_call s in
                      if a_ret bnd = -1 then (PICA_ERRSOCK, None, s\<lparr>lclosed := lclosed s @ [a_ret sock]\<rparr>)
                      else
                        (let (lst, s) = sys_call s; l = lnext s in
                         if a_ret lst = -1 then (PICA_ERRSOCK, None, s\<lparr>lclosed := lclosed s @ [a_ret sock]\<rparr>)
                         else (PICA_OK, Some l,
                               s\<lparr>lnext := Suc l,
                                 listeners := (listeners s)(l \<mapsto> \<lparr>li_sck = a_ret sock,
                                    li_public_port = of_int public_port, li_public_addr_ipv4 = inet_addr addr,
                                    li_accepted_connections = None\<rparr>)\<rparr>)))))))"

section \<open>Matching accepted connections with channels\<close>

fun find_matching_loop :: "lib \<Rightarrow> pid \<Rightarrow> nat list \<Rightarrow> nat option option" where
  "find_matching_loop s idbuf [] = Some None"
| "find_matching_loop s idbuf (p # ps) =
     do { c \<leftarrow> chans s p;
          if ch_directc2c_state c = PICA_DIRECTC2C_STATE_WAITINGINCOMING \<and> memcmp idbuf (ch_peer_id c) = 0
          then Some (Some p)
          else find_matching_loop s idbuf ps }"

definition find_matching_c2c :: "nat \<Rightarrow> nat \<Rightarrow> lib \<Rightarrow> nat option option" where
  "find_matching_c2c cn d s =
     do { dc \<leftarrow> directs s d;
          cert \<leftarrow> dc_peer_cert dc;
          n \<leftarrow> conns s cn;
          case x509_id (lext s) cert of
            None \<Rightarrow> Some None
          | Some i \<Rightarrow> find_matching_loop s i (cn_chan_list n) }"

definition directc2c_verify_peer_cert :: "nat \<Rightarrow> pid \<Rightarrow> lib \<Rightarrow> (int \<times> lib) option" where
  "directc2c_verify_peer_cert d peer_id s =
     (let (ret, cert, s) = verify_peer_cert_common peer_id s in
      do { s \<leftarrow> upd_direct d (\<lambda>dc. dc\<lparr>dc_peer_cert := cert\<rparr>) s; Some (ret, s) })"

text \<open>A matching connection becomes the direct connection of the channel.\<close>

definition accept_direct :: "nat \<Rightarrow> nat \<Rightarrow> lib \<Rightarrow> lib option" where
  "accept_direct p d s =
     do { c \<leftarrow> chans s p;
          s \<leftarrow> (case ch_direct c of None \<Rightarrow> Some s | Some old \<Rightarrow> PICA_close_directc2c old s);
          s \<leftarrow> upd_chan p (\<lambda>c. c\<lparr>ch_direct := Some d\<rparr>) s;
          (ret, s) \<leftarrow> PICA_send_directc2c_switch p s;
          if ret \<noteq> PICA_OK then
            do { s \<leftarrow> PICA_close_directc2c d s;
                 upd_chan p (\<lambda>c. c\<lparr>ch_directc2c_state := PICA_DIRECTC2C_STATE_INACTIVE\<rparr>) s }
          else upd_chan p (\<lambda>c. c\<lparr>ch_directc2c_state := PICA_DIRECTC2C_STATE_ACTIVE\<rparr>)
                 (emit (direct_c2c_established_cb (ch_peer_id c)) s) }"

partial_function (option) accepted_loop :: "nat \<Rightarrow> plink_dc \<Rightarrow> nat option \<Rightarrow> lib \<Rightarrow> lib option" where
  "accepted_loop cn pdprev conn s =
     (case conn of
        None \<Rightarrow> Some s
      | Some d \<Rightarrow>
          do { dc \<leftarrow> directs s d;
               s \<leftarrow> (if dc_state dc = PICA_DIRECTC2C_CONNSTATE_ACTIVE then
                       do { m \<leftarrow> find_matching_c2c cn d s;
                            (m, s) \<leftarrow>
                              (case m of
                                 None \<Rightarrow> Some (None, s)
                               | Some p \<Rightarrow>
                                   do { c \<leftarrow> chans s p;
                                        (ret, s) \<leftarrow> directc2c_verify_peer_cert d (ch_peer_id c) s;
                                        Some (if ret = PICA_OK then Some p else None, s) });
                            case m of
                              Some p \<Rightarrow>
                                do { s \<leftarrow> accept_direct p d s;
                                     dc \<leftarrow> directs s d;
                                     s \<leftarrow> write_link pdprev (dc_next dc) s;
                                     upd_direct d (\<lambda>dc. dc\<lparr>dc_next := None\<rparr>) s }
                            | None \<Rightarrow>
                                do { dc \<leftarrow> directs s d;
                                     s \<leftarrow> write_link pdprev (dc_next dc) s;
                                     PICA_close_directc2c d s } }
                     else Some s);
               dc \<leftarrow> directs s d;
               accepted_loop cn (NextOf d) (dc_next dc) s })"

declare accepted_loop.simps [code]

section \<open>Outgoing direct connections\<close>

definition direct_waitingtls :: "nat \<Rightarrow> nat \<Rightarrow> lib \<Rightarrow> lib option" where
  "direct_waitingtls p d s =
     do { c \<leftarrow> chans s p;
          let fail = upd_direct d (\<lambda>dc. dc\<lparr>dc_state := PICA_DIRECTC2C_CONNSTATE_FAILED\<rparr>);
          let (a, s) = sys_call s;
          if a_ret a \<noteq> 1 then
            (let (ret, ww) = process_async_ssl_errors (a_ret a) (a_err a) in
             do { s \<leftarrow> (if ww then upd_direct d (\<lambda>dc. dc\<lparr>dc_want_write := True\<rparr>) s else Some s);
                  if ret \<noteq> PICA_OK then fail s else Some s })
          else
            do { (ret, s) \<leftarrow> directc2c_verify_peer_cert d (ch_peer_id c) s;
                 if ret \<noteq> PICA_OK then fail s
                 else
                   do { (ret, s) \<leftarrow> PICA_send_directc2c_switch p s;
                        if ret \<noteq> PICA_OK then fail s
                        else upd_direct d (\<lambda>dc. dc\<lparr>dc_state := PICA_DIRECTC2C_CONNSTATE_ACTIVE\<rparr>) s } } }"

definition direct_connecting :: "fdset \<Rightarrow> fdset \<Rightarrow> nat \<Rightarrow> lib \<Rightarrow> lib option" where
  "direct_connecting rfds wfds p s =
     do { c \<leftarrow> chans s p;
          d \<leftarrow> ch_direct c;
          dc \<leftarrow> directs s d;
          case dc_state dc of
            PICA_DIRECTC2C_CONNSTATE_CONNECTING \<Rightarrow>
              if wfds (dc_sck dc) then
                (let (ret, s) = check_async_connect_result s in
                 if ret = PICA_OK then do { (ret, s) \<leftarrow> directc2c_stage2_starttls d s; Some s }
                 else upd_direct d (\<lambda>dc. dc\<lparr>dc_state := PICA_DIRECTC2C_CONNSTATE_FAILED\<rparr>) s)
              else Some s
          | PICA_DIRECTC2C_CONNSTATE_WAITINGTLS \<Rightarrow>
              if wfds (dc_sck dc) \<or> rfds (dc_sck dc) then direct_waitingtls p d s else Some s
          | PICA_DIRECTC2C_CONNSTATE_FAILED \<Rightarrow>
              do { (ret, s) \<leftarrow> directc2c_connect_next d s;
                   if ret = PICA_ERRNOTFOUND then
                     do { s \<leftarrow> PICA_close_directc2c d s;
                          upd_chan p (\<lambda>c. c\<lparr>ch_direct := None,
                             ch_directc2c_state := PICA_DIRECTC2C_STATE_FAILEDTOCONNECT\<rparr>) s }
                   else Some s }
          | PICA_DIRECTC2C_CONNSTATE_ACTIVE \<Rightarrow>
              upd_chan p (\<lambda>c. c\<lparr>ch_directc2c_state := PICA_DIRECTC2C_STATE_ACTIVE\<rparr>)
                (emit (direct_c2c_established_cb (ch_peer_id c)) s)
          | PICA_DIRECTC2C_CONNSTATE_NEW \<Rightarrow> Some s }"

definition direct_failedtoconnect :: "nat \<Rightarrow> lib \<Rightarrow> lib option" where
  "direct_failedtoconnect p s =
     do { c \<leftarrow> chans s p;
          n \<leftarrow> conns s (ch_conn c);
          if ch_outgoing c \<and> cn_directc2c_config n = PICA_DIRECTC2C_CFG_ALLOWINCOMING then
            do { (ret, s) \<leftarrow> PICA_send_directc2cfailed p s;
                 upd_chan p (\<lambda>c. c\<lparr>ch_directc2c_state :=
                    (if ret = PICA_OK then PICA_DIRECTC2C_STATE_WAITINGINCOMING
                     else PICA_DIRECTC2C_STATE_INACTIVE)\<rparr>) s }
          else upd_chan p (\<lambda>c. c\<lparr>ch_directc2c_state := PICA_DIRECTC2C_STATE_INACTIVE\<rparr>) s }"

definition direct_step :: "fdset \<Rightarrow> fdset \<Rightarrow> nat \<Rightarrow> lib \<Rightarrow> lib option" where
  "direct_step rfds wfds p s =
     do { c \<leftarrow> chans s p;
          s \<leftarrow> (if ch_directc2c_state c = PICA_DIRECTC2C_STATE_FAILEDTOCONNECT then direct_failedtoconnect p s
                else Some s);
          c \<leftarrow> chans s p;
          if ch_directc2c_state c = PICA_DIRECTC2C_STATE_CONNECTING then direct_connecting rfds wfds p s else Some s }"

fun direct_loop :: "fdset \<Rightarrow> fdset \<Rightarrow> nat list \<Rightarrow> lib \<Rightarrow> lib option" where
  "direct_loop rfds wfds [] s = Some s"
| "direct_loop rfds wfds (p # ps) s = do { s \<leftarrow> direct_step rfds wfds p s; direct_loop rfds wfds ps s }"

definition process_directc2c :: "fdset \<Rightarrow> fdset \<Rightarrow> nat \<Rightarrow> lib \<Rightarrow> lib option" where
  "process_directc2c rfds wfds cn s =
     do { n \<leftarrow> conns s cn;
          s \<leftarrow> (case cn_directc2c_listener n of
                  None \<Rightarrow> Some s
                | Some l \<Rightarrow>
                    do { li \<leftarrow> listeners s l;
                         accepted_loop cn (ListHead l) (li_accepted_connections li) s });
          n \<leftarrow> conns s cn;
          direct_loop rfds wfds (cn_chan_list n) s }"

end
