(* ===== verification/ClientConn.thy ===== *)
theory ClientConn
  imports ClientDirect
begin

text \<open>
  Connections of the client library to a node (\<open>PICA_c2n\<close>) and channels to other clients
  (\<open>PICA_c2c\<close>): the stages of their handshakes, the handlers of the packets of both, and
  reading and writing. A call of \<open>exit\<close> is a fault.
\<close>

section \<open>Creation and closing\<close>

definition new_c2c :: "PICA_c2n \<Rightarrow> nat \<Rightarrow> pid \<Rightarrow> bool \<Rightarrow> int \<Rightarrow> bool \<Rightarrow> PICA_c2c" where
  "new_c2c n cn peer_id is_outgoing t buf_ok =
     \<lparr>ch_acc_id = cn_acc_id n, ch_conn = cn, ch_peer_id = peer_id, ch_sck = -1, ch_ssl = False, ch_direct = None,
      ch_outgoing = is_outgoing, ch_peer_cert = None,
      ch_read_buf = (if buf_ok then Some (replicate PICA_CHANREADBUFSIZE 0) else None), ch_read_pos = 0,
      ch_w = empty_wbuf, ch_state = PICA_C2C_STATE_NEW, ch_directc2c_state = PICA_DIRECTC2C_STATE_INACTIVE,
      ch_timestamp = t, ch_sendfilestate = PICA_CHANSENDFILESTATE_IDLE, ch_sendfile_size = 0, ch_sendfile_pos = 0,
      ch_sendfile_stream = None, ch_recvfilestate = PICA_CHANRECVFILESTATE_IDLE, ch_recvfile_size = 0,
      ch_recvfile_pos = 0, ch_recvfile_stream = None, ch_disconnect_on_empty_write_buf = False,
      ch_switched_to_directc2c_write = False, ch_switched_to_directc2c_read = False, ch_want_write = False,
      ch_write_barrier_pos = 0, ch_write_before_barrier_pos = 0\<rparr>"

text \<open>The allocation of the read buffer is not checked.\<close>

definition c2n_alloc_c2c :: "nat \<Rightarrow> pid \<Rightarrow> bool \<Rightarrow> lib \<Rightarrow> (nat option \<times> lib) option" where
  "c2n_alloc_c2c cn peer_id is_outgoing s =
     (let (ok, e) = env_alloc (lenv s); s = s\<lparr>lenv := e\<rparr> in
      if \<not> ok then Some (None, s)
      else
        do { n \<leftarrow> conns s cn;
             let (bok, e) = env_alloc (lenv s);
             let p = lnext s;
             Some (Some p, s\<lparr>lenv := e, lnext := Suc p,
                     chans := (chans s)(p \<mapsto> new_c2c n cn peer_id is_outgoing (now e) bok),
                     conns := (conns s)(cn \<mapsto> n\<lparr>cn_chan_list := cn_chan_list n @ [p]\<rparr>)\<rparr>) })"

definition PICA_close_c2c :: "nat \<Rightarrow> lib \<Rightarrow> lib option" where
  "PICA_close_c2c p s =
     do { c \<leftarrow> chans s p;
          s \<leftarrow> upd_conn (ch_conn c) (\<lambda>n. n\<lparr>cn_chan_list := remove1 p (cn_chan_list n)\<rparr>) s;
          let s = s\<lparr>files := files s @ (case ch_recvfile_stream c of None \<Rightarrow> [] | Some f \<Rightarrow> [f]),
                    lclosed := lclosed s @ [ch_sck c]\<rparr>;
          s \<leftarrow> (case ch_direct c of None \<Rightarrow> Some s | Some d \<Rightarrow> PICA_close_directc2c d s);
          Some (s\<lparr>chans := (chans s)(p := None)\<rparr>) }"

partial_function (option) close_chans :: "nat \<Rightarrow> lib \<Rightarrow> lib option" where
  "close_chans cn s =
     do { n \<leftarrow> conns s cn;
          case cn_chan_list n of
            [] \<Rightarrow> Some s
          | p # ps \<Rightarrow> do { s \<leftarrow> PICA_close_c2c p s; close_chans cn s } }"

declare close_chans.simps [code]

definition PICA_close_c2n :: "nat \<Rightarrow> lib \<Rightarrow> lib option" where
  "PICA_close_c2n cn s =
     do { s \<leftarrow> close_chans cn s;
          n \<leftarrow> conns s cn;
          Some (s\<lparr>lclosed := lclosed s @ [cn_sck n], conns := (conns s)(cn := None)\<rparr>) }"

section \<open>Writing\<close>

fun ssl_err :: "sys_error \<Rightarrow> ssl_error" where
  "ssl_err WANT_READ = SSL_ERROR_WANT_READ"
| "ssl_err WANT_WRITE = SSL_ERROR_WANT_WRITE"
| "ssl_err _ = SSL_ERROR_OTHER"

text \<open>\<open>SSL_write\<close> takes at most what it is given; what it takes goes onto the wire.\<close>

definition write_session :: "session \<Rightarrow> wbuf \<Rightarrow> lib \<Rightarrow> int \<times> wbuf \<times> lib" where
  "write_session ses w s =
     (if w_pos w = 0 then (PICA_OK, w, s)
      else
        let (a, s) = sys_call s; ret = min (a_ret a) (uint (btw_ssl (buf_set_btw w)));
            (code, w') = PICA_write_ssl ret (ssl_err (a_err a)) w in
        (code, w', if ret > 0 then s\<lparr>wire := wire s @ [(ses, take (nat ret) (pending w))]\<rparr> else s))"

definition PICA_write_c2n :: "nat \<Rightarrow> lib \<Rightarrow> (int \<times> lib) option" where
  "PICA_write_c2n cn s =
     do { n \<leftarrow> conns s cn;
          let (ret, w, s) = write_session (ToNode cn) (cn_w n) s;
          s \<leftarrow> upd_conn cn (\<lambda>n. n\<lparr>cn_w := w\<rparr>) s;
          s \<leftarrow> (if cn_disconnect_on_empty_write_buf n then PICA_close_c2n cn s else Some s);
          Some (ret, s) }"

text \<open>
  Up to the barrier the bytes go to the session through the node, behind it to the direct
  connection. While the bytes before the barrier are written, they are a queue of their
  own at the front of the block.
\<close>

definition write_before_barrier :: "nat \<Rightarrow> PICA_c2c \<Rightarrow> lib \<Rightarrow> int \<times> PICA_c2c \<times> lib" where
  "write_before_barrier p c s =
     (let b = ch_write_barrier_pos c;
          bb = (if ch_write_before_barrier_pos c = 0 then b else ch_write_before_barrier_pos c);
          (ret, w, s) = write_session (ToPeer p) ((ch_w c)\<lparr>w_pos := bb\<rparr>) s;
          c = c\<lparr>ch_w := w\<lparr>w_pos := w_pos (ch_w c)\<rparr>, ch_write_before_barrier_pos := w_pos w\<rparr> in
      if ret = PICA_OK \<and> ch_write_before_barrier_pos c = 0 then
        (ret,
         c\<lparr>ch_switched_to_directc2c_write := True,
           ch_w := (ch_w c)\<lparr>w_buf := map_option (memmove_down (unat b) (unat (w_pos (ch_w c) - b))) (w_buf (ch_w c)),
                            w_pos := w_pos (ch_w c) - b\<rparr>,
           ch_write_barrier_pos := 0\<rparr>, s)
      else (ret, c, s))"

definition PICA_write_c2c :: "nat \<Rightarrow> lib \<Rightarrow> (int \<times> lib) option" where
  "PICA_write_c2c p s =
     do { c \<leftarrow> chans s p;
          if ch_state c \<notin> {PICA_C2C_STATE_ACTIVE, PICA_C2C_STATE_CONNID, PICA_C2C_STATE_WAITINGREP} then None
          else
            do { ses \<leftarrow> (if ch_switched_to_directc2c_write c
                         then do { d \<leftarrow> ch_direct c; dc \<leftarrow> directs s d; Some (ToDirect d) }
                         else Some (ToPeer p));
                 let (ret, c', s) =
                   (if ch_write_barrier_pos c \<noteq> 0 then write_before_barrier p c s
                    else let (ret, w, s) = write_session ses (ch_w c) s in (ret, c\<lparr>ch_w := w\<rparr>, s));
                 s \<leftarrow> upd_chan p (\<lambda>_. c') s;
                 s \<leftarrow> (if ch_disconnect_on_empty_write_buf c' \<and> w_pos (ch_w c') = 0 then PICA_close_c2c p s else Some s);
                 Some (ret, s) } }"

section \<open>Stages of a channel\<close>

text \<open>\<open>want_write\<close> is set when the TLS library asks for it.\<close>

definition want_chan :: "nat \<Rightarrow> bool \<Rightarrow> lib \<Rightarrow> lib option" where
  "want_chan p ww s = (if ww then upd_chan p (\<lambda>c. c\<lparr>ch_want_write := True\<rparr>) s else Some s)"

definition want_conn :: "nat \<Rightarrow> bool \<Rightarrow> lib \<Rightarrow> lib option" where
  "want_conn cn ww s = (if ww then upd_conn cn (\<lambda>n. n\<lparr>cn_want_write := True\<rparr>) s else Some s)"

definition c2c_stage2_startanontls :: "nat \<Rightarrow> lib \<Rightarrow> (int \<times> lib) option" where
  "c2c_stage2_startanontls p s =
     (let (new, s) = sys_call s in
      do { s \<leftarrow> upd_chan p (\<lambda>c. c\<lparr>ch_ssl := a_ret new \<noteq> 0\<rparr>) s;
           if a_ret new = 0 then Some (PICA_ERRSSL, s)
           else
             (let (fd, s) = sys_call s in
              if a_ret fd \<noteq> 1 then Some (PICA_ERRSSL, s)
              else
                (let (a, s) = sys_call s; (ret, ww) = process_async_ssl_errors (a_ret a) (a_err a) in
                 do { s \<leftarrow> want_chan p ww s;
                      if ret \<noteq> PICA_OK then Some (ret, s)
                      else
                        do { s \<leftarrow> upd_chan p (\<lambda>c. c\<lparr>ch_state := PICA_C2C_STATE_WAITINGANONTLS\<rparr>) s;
                             Some (PICA_OK, s) } })) })"

definition c2c_stage3_connid :: "nat \<Rightarrow> lib \<Rightarrow> (int \<times> lib) option" where
  "c2c_stage3_connid p s =
     do { c \<leftarrow> chans s p;
          (ok, s) \<leftarrow> chan_send p PICA_PROTO_CONNID PICA_PROTO_CONNID_SIZE
                       (if ch_outgoing c then ch_acc_id c @ ch_peer_id c else ch_peer_id c @ ch_acc_id c) s;
          if ok then
            do { s \<leftarrow> upd_chan p (\<lambda>c. c\<lparr>ch_state := PICA_C2C_STATE_CONNID\<rparr>) s; Some (PICA_OK, s) }
          else Some (PICA_ERRNOMEM, s) }"

text \<open>A completed \<open>SSL_shutdown\<close> returns 1, which is not \<open>PICA_OK\<close>.\<close>

definition shutdown_result :: "answer \<Rightarrow> int \<times> bool" where
  "shutdown_result a = (if a_ret a < 0 then process_async_ssl_errors (a_ret a) (a_err a) else (a_ret a, False))"

definition c2c_stage4_shutdownanontls :: "nat \<Rightarrow> lib \<Rightarrow> (int \<times> lib) option" where
  "c2c_stage4_shutdownanontls p s =
     (let (a, s) = sys_call s; (ret, ww) = shutdown_result a in
      do { s \<leftarrow> want_chan p ww s;
           if ret \<noteq> PICA_OK then Some (ret, s)
           else
             do { s \<leftarrow> upd_chan p (\<lambda>c. c\<lparr>ch_state := PICA_C2C_STATE_WAITINGANONTLSSHUTDOWN\<rparr>) s;
                  Some (PICA_OK, s) } })"

definition c2c_stage5_starttls :: "nat \<Rightarrow> lib \<Rightarrow> (int \<times> lib) option" where
  "c2c_stage5_starttls p s =
     (let (new, s) = sys_call s in
      do { s \<leftarrow> upd_chan p (\<lambda>c. c\<lparr>ch_ssl := a_ret new \<noteq> 0\<rparr>) s;
           if a_ret new = 0 then Some (PICA_ERRSSL, s)
           else
             (let (fd, s) = sys_call s in
              if a_ret fd = 0 then Some (PICA_ERRSSL, s)
              else
                (let (a, s) = sys_call s in
                 if a_ret a = 0 \<or> (a_ret a < 0 \<and> a_err a \<noteq> WANT_READ \<and> a_err a \<noteq> WANT_WRITE)
                 then Some (PICA_ERRSSL, s)
                 else
                   do { s \<leftarrow> upd_chan p (\<lambda>c. c\<lparr>ch_state := PICA_C2C_STATE_WAITINGTLS\<rparr>) s;
                        Some (PICA_OK, s) })) })"

definition c2c_verify_peer_cert :: "nat \<Rightarrow> lib \<Rightarrow> (int \<times> lib) option" where
  "c2c_verify_peer_cert p s =
     do { c \<leftarrow> chans s p;
          let (ret, cert, s) = verify_peer_cert_common (ch_peer_id c) s;
          s \<leftarrow> upd_chan p (\<lambda>c. c\<lparr>ch_peer_cert := cert\<rparr>) s;
          Some (ret, s) }"

definition c2c_stage6_sendc2cconnreq :: "nat \<Rightarrow> lib \<Rightarrow> (int \<times> lib) option" where
  "c2c_stage6_sendc2cconnreq p s =
     do { (ok, s) \<leftarrow> chan_send p PICA_PROTO_C2CCONNREQ PICA_PROTO_C2CCONNREQ_SIZE
                       [PICA_C2CPROTO_VER_HIGH, PICA_C2CPROTO_VER_LOW] s;
          if \<not> ok then Some (PICA_ERRNOMEM, s)
          else do { s \<leftarrow> upd_chan p (\<lambda>c. c\<lparr>ch_state := PICA_C2C_STATE_WAITINGREP\<rparr>) s; Some (PICA_OK, s) } }"

definition c2c_start :: "nat \<Rightarrow> lib \<Rightarrow> (int \<times> lib) option" where
  "c2c_start p s =
     do { let (sock, s) = sys_call s;
          s \<leftarrow> upd_chan p (\<lambda>c. c\<lparr>ch_sck := a_ret sock, ch_state := PICA_C2C_STATE_CONNECTING\<rparr>) s;
          let (con, s) = sys_call s;
          (ret, s) \<leftarrow> (if a_ret con = 0 then c2c_stage2_startanontls p s
                       else Some (process_first_async_connect_result (a_ret con) (a_err con), s));
          if ret \<noteq> PICA_OK then
            do { c \<leftarrow> chans s p;
                 s \<leftarrow> PICA_close_c2c p (emit (c2c_failed_cb (ch_peer_id c)) s);
                 Some (ret, s) }
          else Some (PICA_OK, s) }"

section \<open>Handlers of a channel\<close>

text \<open>The channel is established: the application is told and the listener announced.\<close>

definition c2c_established :: "nat \<Rightarrow> lib \<Rightarrow> lib option" where
  "c2c_established p s =
     do { s \<leftarrow> upd_chan p (\<lambda>c. c\<lparr>ch_state := PICA_C2C_STATE_ACTIVE\<rparr>) s;
          c \<leftarrow> chans s p;
          let s = emit (c2c_established_cb (ch_peer_id c)) s;
          n \<leftarrow> conns s (ch_conn c);
          if cn_directc2c_config n = PICA_DIRECTC2C_CFG_ALLOWINCOMING then PICA_send_directc2caddrlist p s
          else Some s }"

definition procmsg_C2CCONNREQ :: "byte list \<Rightarrow> u32 \<Rightarrow> nat \<Rightarrow> lib \<Rightarrow> (u32 \<times> lib) option" where
  "procmsg_C2CCONNREQ buf nb p s =
     do { c \<leftarrow> chans s p;
          if ch_state c \<noteq> PICA_C2C_STATE_WAITINGC2CPROTOVER then Some (0, s)
          else
            do { b2 \<leftarrow> rd8 buf 2;
                 b3 \<leftarrow> rd8 buf 3;
                 if b2 = PICA_C2CPROTO_VER_HIGH \<and> b3 = PICA_C2CPROTO_VER_LOW then
                   do { (ok, s) \<leftarrow> chan_send p PICA_PROTO_INITRESPOK PICA_PROTO_INITRESPOK_SIZE [0x4F, 0x4B] s;
                        if \<not> ok then Some (0, s) else do { s \<leftarrow> c2c_established p s; Some (1, s) } }
                 else
                   do { (ok, s) \<leftarrow> chan_send p PICA_PROTO_VERDIFFER PICA_PROTO_VERDIFFER_SIZE
                                     [PICA_C2CPROTO_VER_HIGH, PICA_C2CPROTO_VER_LOW] s;
                        if \<not> ok then Some (0, s)
                        else
                          do { s \<leftarrow> upd_chan p (\<lambda>c. c\<lparr>ch_disconnect_on_empty_write_buf := True\<rparr>) s;
                               Some (1, s) } } } }"

definition procmsg_INITRESP_c2c :: "byte list \<Rightarrow> u32 \<Rightarrow> nat \<Rightarrow> lib \<Rightarrow> (u32 \<times> lib) option" where
  "procmsg_INITRESP_c2c buf nb p s =
     do { c \<leftarrow> chans s p;
          if ch_state c \<noteq> PICA_C2C_STATE_WAITINGREP \<or> \<not> ch_outgoing c then Some (0, s)
          else
            do { b0 \<leftarrow> rd8 buf 0;
                 if b0 = ucast PICA_PROTO_INITRESPOK then do { s \<leftarrow> c2c_established p s; Some (1, s) }
                 else Some (0, s) } }"

abbreviation (input) c2c_fixed_msg ::
  "u32 \<Rightarrow> u32 \<Rightarrow> ('a, 's) handler \<Rightarrow> ('a, 's) PICA_msginfo" where
  "c2c_fixed_msg i n f \<equiv> \<lparr>msgid = i, fixedsz = PICA_MSG_FIXED_SIZE, sz = n, msgprocfn = f\<rparr>"

abbreviation (input) c2c_var_msg :: "u32 \<Rightarrow> ('a, 's) handler \<Rightarrow> ('a, 's) PICA_msginfo" where
  "c2c_var_msg i f \<equiv> \<lparr>msgid = i, fixedsz = PICA_MSG_VAR_SIZE, sz = PICA_MSG_VARSIZE_INT16, msgprocfn = f\<rparr>"

definition c2c_messages :: "(nat, lib) PICA_msginfo list" where
  "c2c_messages =
     [c2c_var_msg PICA_PROTO_MSGUTF8 procmsg_MSGUTF8,
      c2c_fixed_msg PICA_PROTO_MSGOK PICA_PROTO_MSGOK_SIZE procmsg_MSGOK,
      c2c_var_msg PICA_PROTO_SENDFILEREQUEST procmsg_SENDFILEREQUEST,
      c2c_fixed_msg PICA_PROTO_ACCEPTEDFILE PICA_PROTO_ACCEPTEDFILE_SIZE procmsg_ACCEPTEDFILE,
      c2c_fixed_msg PICA_PROTO_DENIEDFILE PICA_PROTO_DENIEDFILE_SIZE procmsg_DENIEDFILE,
      c2c_var_msg PICA_PROTO_FILEFRAGMENT procmsg_FILEFRAGMENT,
      c2c_fixed_msg PICA_PROTO_FILECONTROL PICA_PROTO_FILECONTROL_SIZE procmsg_FILECONTROL,
      c2c_var_msg PICA_PROTO_DIRECTC2C_ADDRLIST procmsg_PICA_PROTO_DIRECTC2C_ADDRLIST,
      c2c_fixed_msg PICA_PROTO_DIRECTC2C_FAILED PICA_PROTO_DIRECTC2C_FAILED_SIZE procmsg_PICA_PROTO_DIRECTC2C_FAILED,
      c2c_fixed_msg PICA_PROTO_DIRECTC2C_SWITCH PICA_PROTO_DIRECTC2C_SWITCH_SIZE procmsg_PICA_PROTO_DIRECTC2C_SWITCH,
      c2c_fixed_msg PICA_PROTO_C2CCONNREQ PICA_PROTO_C2CCONNREQ_SIZE procmsg_C2CCONNREQ,
      c2c_fixed_msg PICA_PROTO_INITRESPOK PICA_PROTO_INITRESPOK_SIZE procmsg_INITRESP_c2c,
      c2c_fixed_msg PICA_PROTO_VERDIFFER PICA_PROTO_VERDIFFER_SIZE procmsg_INITRESP_c2c]"

section \<open>Reading\<close>

text \<open>\<open>SSL_read\<close> delivers at most what fits; without data it returns zero or an error.\<close>

definition PICA_read_ssl :: "byte list \<Rightarrow> u32 \<Rightarrow> nat \<Rightarrow> answer \<Rightarrow> int \<times> byte list \<times> u32" where
  "PICA_read_ssl buf pos bufsize a =
     (let data = take (bufsize - unat pos) (a_data a) in
      if data \<noteq> [] then (PICA_OK, blit (unat pos) data buf, pos + of_nat (length data))
      else if a_ret a < 0 \<and> (a_err a = WANT_READ \<or> a_err a = WANT_WRITE) then (PICA_OK, buf, pos)
      else (PICA_ERRSSL, buf, pos))"

definition PICA_read_c2c :: "nat \<Rightarrow> lib \<Rightarrow> (int \<times> lib) option" where
  "PICA_read_c2c p s =
     do { c \<leftarrow> chans s p;
          if ch_state c \<notin> {PICA_C2C_STATE_WAITINGREP, PICA_C2C_STATE_WAITINGC2CPROTOVER, PICA_C2C_STATE_ACTIVE}
          then None
          else
            do { _ \<leftarrow> (if ch_switched_to_directc2c_read c then do { d \<leftarrow> ch_direct c; dc \<leftarrow> directs s d; Some () }
                       else Some ());
                 buf \<leftarrow> ch_read_buf c;
                 let (a, s) = sys_call s;
                 let (ret, buf, pos) = PICA_read_ssl buf (ch_read_pos c) PICA_CHANREADBUFSIZE a;
                 s \<leftarrow> upd_chan p (\<lambda>c. c\<lparr>ch_read_buf := Some buf, ch_read_pos := pos\<rparr>) s;
                 if ret \<noteq> PICA_OK then Some (ret, s)
                 else
                   do { (r, buf, pos, s) \<leftarrow> PICA_processdatastream buf pos p s c2c_messages;
                        s \<leftarrow> upd_chan p (\<lambda>c. c\<lparr>ch_read_buf := Some buf, ch_read_pos := pos\<rparr>) s;
                        Some (if r = 0 then PICA_ERRSERV else PICA_OK, s) } } }"

section \<open>States\<close>

text \<open>A library without objects, and the surroundings and the connection of the examples.\<close>

definition init_lib :: "ext \<Rightarrow> env \<Rightarrow> lib" where
  "init_lib x e = \<lparr>lenv = e, lext = x, n_calls = 0, n_fread = 0, n_fwrite = 0, lnext = 0, conns = (\<lambda>_. None),
     chans = (\<lambda>_. None), directs = (\<lambda>_. None), listeners = (\<lambda>_. None), events = [], wire = [], files = [],
     lclosed = []\<rparr>"

definition demo_id :: pid where
  "demo_id = replicate PICA_ID_SIZE 7"

definition demo_ext :: ext where
  "demo_ext = \<lparr>accept_cb = (\<lambda>_. True), accept_file_cb = (\<lambda>_ _ _. 1), peer_cert_verify_cb = (\<lambda>_ _. True),
     x509_id = (\<lambda>cert. Some cert), rsa_key_bits = (\<lambda>_. Some 4096), own_sign_ok = (\<lambda>_ _. True),
     own_signature = (\<lambda>_. Inr [1]), file_content = (\<lambda>_. Some [1, 2, 3]), fseek_ok = (\<lambda>_. True),
     fopen_w_ok = (\<lambda>_. True), fread_max = (\<lambda>_. 2), fwrite_ok = (\<lambda>_. True),
     answers = (\<lambda>_. \<lparr>a_ret = 1, a_err = OTHER_ERROR, a_data = [], a_cert = Some demo_id\<rparr>)\<rparr>"

definition demo_conn :: PICA_c2n where
  "demo_conn = \<lparr>cn_acc_id = replicate PICA_ID_SIZE 3, cn_srv_addr = (0, 0), cn_sck = 4,
     cn_state = PICA_C2N_STATE_CONNECTED, cn_directc2c_config = PICA_DIRECTC2C_CFG_DISABLED, cn_multilogin_policy = 0,
     cn_multilogin_last_timestamp = 0, cn_directc2c_listener = None, cn_read_buf = None, cn_read_pos = 0,
     cn_w = empty_wbuf, cn_chan_list = [1], cn_init_resp_ok = 1, cn_node_ver = (0, 0),
     cn_disconnect_on_empty_write_buf = False, cn_want_write = False\<rparr>"

definition demo_chan :: PICA_c2c where
  "demo_chan = (new_c2c demo_conn 0 demo_id False 0 False)\<lparr>ch_sck := 5, ch_state := PICA_C2C_STATE_ACTIVE\<rparr>"

end
