(* ===== verification/ClientNode.thy ===== *)
theory ClientNode
  imports ClientConn
begin

text \<open>
  The connection of a client to its node (\<open>PICA_c2n\<close>): its creation, the stages of its
  handshake, the handlers of the packets a node sends, and reading
  (\<open>c2n_stage*\<close>, \<open>c2n_optstage7_multilogin\<close>, \<open>procmsg_*\<close> of the table \<open>c2n_messages\<close>,
  \<open>PICA_new_c2n\<close>, \<open>PICA_new_c2c\<close>, \<open>PICA_read_c2n\<close> of \<open>PICA_client.c\<close>).
\<close>

section \<open>Stages\<close>

definition c2n_stage2_startanontls :: "nat \<Rightarrow> lib \<Rightarrow> (int \<times> lib) option" where
  "c2n_stage2_startanontls cn s =
     (let (fd, s) = sys_call s in
      if a_ret fd \<noteq> 1 then Some (PICA_ERRSSL, s)
      else
        (let (a, s) = sys_call s; (ret, ww) = process_async_ssl_errors (a_ret a) (a_err a) in
         do { s \<leftarrow> want_conn cn ww s;
              if ret \<noteq> PICA_OK then Some (ret, s)
              else
                do { s \<leftarrow> upd_conn cn (\<lambda>n. n\<lparr>cn_state := PICA_C2N_STATE_WAITINGANONTLS\<rparr>) s;
                     Some (PICA_OK, s) } }))"

definition c2n_stage3_sendreq :: "nat \<Rightarrow> lib \<Rightarrow> (int \<times> lib) option" where
  "c2n_stage3_sendreq cn s =
     do { (ok, s) \<leftarrow> conn_send cn PICA_PROTO_INITREQ PICA_PROTO_INITREQ_SIZE
                       [PICA_PROTO_VER_HIGH, PICA_PROTO_VER_LOW] s;
          if ok then
            do { s \<leftarrow> upd_conn cn (\<lambda>n. n\<lparr>cn_state := PICA_C2N_STATE_WAITINGREP\<rparr>) s; Some (PICA_OK, s) }
          else Some (PICA_ERRNOMEM, s) }"

definition c2n_stage4_shutdownanontls :: "nat \<Rightarrow> lib \<Rightarrow> (int \<times> lib) option" where
  "c2n_stage4_shutdownanontls cn s =
     (let (a, s) = sys_call s; (ret, ww) = shutdown_result a in
      do { s \<leftarrow> want_conn cn ww s;
           if ret \<noteq> PICA_OK then Some (ret, s)
           else
             do { s \<leftarrow> upd_conn cn (\<lambda>n. n\<lparr>cn_state := PICA_C2N_STATE_WAITINGANONTLSSHUTDOWN\<rparr>) s;
                  Some (PICA_OK, s) } })"

text \<open>An \<open>SSL_accept\<close> that completes at once returns 1, which is not \<open>PICA_OK\<close>.\<close>

definition c2n_stage5_starttls :: "nat \<Rightarrow> lib \<Rightarrow> (int \<times> lib) option" where
  "c2n_stage5_starttls cn s =
     (let (new, s) = sys_call s in
      if a_ret new = 0 then Some (PICA_ERRSSL, s)
      else
        (let (fd, s) = sys_call s in
         if a_ret fd \<noteq> 1 then Some (PICA_ERRSSL, s)
         else
           (let (a, s) = sys_call s in
            if a_ret a = 0 then Some (PICA_ERRSSL, s)
            else
              (let (ret, ww) = (if a_ret a < 0 then process_async_ssl_errors (a_ret a) (a_err a)
                                else (a_ret a, False)) in
               do { s \<leftarrow> want_conn cn ww s;
                    if ret \<noteq> PICA_OK then Some (ret, s)
                    else
                      do { s \<leftarrow> upd_conn cn (\<lambda>n. n\<lparr>cn_state := PICA_C2N_STATE_WAITINGTLS\<rparr>) s;
                           Some (PICA_OK, s) } }))))"

text \<open>
  The announcement of a login: the identifier, the time and the address of the node are
  signed with the account's key. \<open>own_signature\<close> is the signature, or the value of \<open>ret\<close>
  where the key cannot be read or used.
\<close>

definition node_addr_ipv4 :: "u32 \<times> u16 \<Rightarrow> byte list" where
  "node_addr_ipv4 a = ucast PICA_PROTO_NEWNODE_IPV4 # put_le 4 (unat (fst a)) @ put_be16 (snd a)"

definition c2n_optstage7_multilogin :: "nat \<Rightarrow> lib \<Rightarrow> (int \<times> lib) option" where
  "c2n_optstage7_multilogin cn s =
     do { n \<leftarrow> conns s cn;
          let timestamp = put_le 8 (unat (of_int (now (lenv s)) :: u64));
          let node_addr = node_addr_ipv4 (cn_srv_addr n);
          case own_signature (lext s) [cn_acc_id n, timestamp, node_addr] of
            Inl ret \<Rightarrow> Some (ret, s)
          | Inr sig \<Rightarrow>
              if length sig > PICA_PROTO_MULTILOGIN_MAXSIGSIZE then Some (PICA_ERRMSGSIZE, s)
              else
                do { let len = 8 + length node_addr + length sig;
                     (ok, s) \<leftarrow> conn_send cn PICA_PROTO_MULTILOGIN (of_nat (4 + len))
                                  (put16 len @ timestamp @ node_addr @ sig) s;
                     Some (if ok then PICA_OK else PICA_ERRNOMEM, s) } }"

definition c2n_stage6_nodelistrequest :: "nat \<Rightarrow> lib \<Rightarrow> (int \<times> lib) option" where
  "c2n_stage6_nodelistrequest cn s =
     do { (ok, s) \<leftarrow> conn_send_rand cn PICA_PROTO_CLNODELISTREQ PICA_PROTO_CLNODELISTREQ_SIZE s;
          if \<not> ok then Some (PICA_ERRNOMEM, s)
          else
            do { s \<leftarrow> upd_conn cn (\<lambda>n. n\<lparr>cn_state := PICA_C2N_STATE_CONNECTED\<rparr>) s;
                 let s = emit (c2n_established_cb cn) s;
                 n \<leftarrow> conns s cn;
                 if cn_multilogin_policy n \<noteq> PICA_MULTILOGIN_PROHIBIT then c2n_optstage7_multilogin cn s
                 else Some (PICA_OK, s) } }"

section \<open>Creation\<close>

definition new_c2n :: "pid \<Rightarrow> PICA_directc2c_config \<Rightarrow> int \<Rightarrow> nat option \<Rightarrow> PICA_c2n" where
  "new_c2n acc direct_c2c_mode multilogin l =
     \<lparr>cn_acc_id = acc, cn_srv_addr = (0, 0), cn_sck = 0, cn_state = PICA_C2N_STATE_NEW,
      cn_directc2c_config = direct_c2c_mode, cn_multilogin_policy = multilogin, cn_multilogin_last_timestamp = 0,
      cn_directc2c_listener = (if direct_c2c_mode = PICA_DIRECTC2C_CFG_ALLOWINCOMING then l else None),
      cn_read_buf = Some (replicate PICA_CONNREADBUFSIZE 0), cn_read_pos = 0, cn_w = empty_wbuf,
      cn_chan_list = [], cn_init_resp_ok = 0, cn_node_ver = (0, 0), cn_disconnect_on_empty_write_buf = False,
      cn_want_write = False\<rparr>"

text \<open>
  The calls outside are \<open>SSL_new\<close>, \<open>getaddrinfo\<close> (its answer carries the address),
  \<open>socket\<close> and \<open>connect\<close>. When the name is not found the socket, still zero, is closed.
\<close>

definition PICA_new_c2n ::
  "pid option \<Rightarrow> byte list option \<Rightarrow> u32 \<Rightarrow> PICA_directc2c_config \<Rightarrow> int \<Rightarrow> nat option \<Rightarrow> lib
     \<Rightarrow> (int \<times> nat option \<times> lib) option" where
  "PICA_new_c2n acc nodeaddr port direct_c2c_mode multilogin l s =
     (case (acc, nodeaddr) of
        (Some a, Some _) \<Rightarrow>
          if port = 0 then Some (PICA_ERRINVARG, None, s)
          else
            (let (ok, e) = env_alloc (lenv s); s = s\<lparr>lenv := e\<rparr> in
             if \<not> ok then Some (PICA_ERRNOMEM, None, s)
             else
               (let (ok, e) = env_alloc (lenv s); s = s\<lparr>lenv := e\<rparr> in
                if \<not> ok then Some (PICA_ERRNOMEM, None, s)
                else
                  (let (ssl, s) = sys_call s in
                   if a_ret ssl = 0 then Some (PICA_ERRSSL, None, s)
                   else
                     (let (gai, s) = sys_call s in
                      if a_ret gai \<noteq> 0 then Some (PICA_ERRDNSRESOLVE, None, s\<lparr>lclosed := lclosed s @ [0]\<rparr>)
                      else
                        (let (sock, s) = sys_call s in
                         if a_ret sock = -1 then Some (PICA_ERRSOCK, None, s)
                         else
                           (let cn = lnext s;
                                n = (new_c2n a direct_c2c_mode multilogin l)
                                      \<lparr>cn_srv_addr := (of_nat (le_nat (take 4 (a_data gai))), ucast port),
                                       cn_sck := a_ret sock, cn_state := PICA_C2N_STATE_CONNECTING\<rparr>;
                                (con, s) = sys_call (s\<lparr>lnext := Suc cn, conns := (conns s)(cn \<mapsto> n)\<rparr>) in
                            if a_ret con = 0 then
                              do { (ret, s) \<leftarrow> c2n_stage2_startanontls cn s; Some (ret, Some cn, s) }
                            else
                              (let ret_err = process_first_async_connect_result (a_ret con) (a_err con) in
                               if ret_err \<noteq> PICA_OK then
                                 Some (ret_err, None, s\<lparr>lclosed := lclosed s @ [a_ret sock],
                                                       conns := (conns s)(cn := None)\<rparr>)
                               else Some (PICA_OK, Some cn, s))))))))
      | _ \<Rightarrow> Some (PICA_ERRINVARG, None, s))"

text \<open>The channel stays in the list when its request cannot be queued.\<close>

definition PICA_new_c2c :: "nat \<Rightarrow> pid \<Rightarrow> lib \<Rightarrow> (int \<times> nat option \<times> lib) option" where
  "PICA_new_c2c cn peer_id s =
     do { n \<leftarrow> conns s cn;
          if cn_state n \<noteq> PICA_C2N_STATE_CONNECTED then Some (PICA_ERRINVARG, None, s)
          else
            do { (chnl, s) \<leftarrow> c2n_alloc_c2c cn peer_id True s;
                 case chnl of
                   None \<Rightarrow> Some (PICA_ERRNOMEM, None, s)
                 | Some p \<Rightarrow>
                     do { (ok, s) \<leftarrow> conn_send cn PICA_PROTO_CONNREQOUTG PICA_PROTO_CONNREQOUTG_SIZE peer_id s;
                          Some (if ok then PICA_OK else PICA_ERRNOMEM, Some p, s) } } }"

section \<open>Handlers\<close>

definition procmsg_INITRESP :: "byte list \<Rightarrow> u32 \<Rightarrow> nat \<Rightarrow> lib \<Rightarrow> (u32 \<times> lib) option" where
  "procmsg_INITRESP buf nb cn s =
     do { n \<leftarrow> conns s cn;
          if cn_state n \<noteq> PICA_C2N_STATE_WAITINGREP then Some (0, s)
          else
            do { b0 \<leftarrow> rd8 buf 0;
                 if b0 = ucast PICA_PROTO_INITRESPOK then
                   do { s \<leftarrow> upd_conn cn (\<lambda>n. n\<lparr>cn_init_resp_ok := 1\<rparr>) s; Some (1, s) }
                 else if b0 = ucast PICA_PROTO_VERDIFFER then
                   do { b2 \<leftarrow> rd8 buf 2;
                        b3 \<leftarrow> rd8 buf 3;
                        s \<leftarrow> upd_conn cn (\<lambda>n. n\<lparr>cn_init_resp_ok := -1, cn_node_ver := (b2, b3)\<rparr>) s;
                        Some (1, s) }
                 else Some (0, s) } }"

text \<open>The request is answered before the channel starts: the write buffer is emptied.\<close>

partial_function (option) flush_c2n :: "nat \<Rightarrow> lib \<Rightarrow> (bool \<times> lib) option" where
  "flush_c2n cn s =
     do { (ret, s) \<leftarrow> PICA_write_c2n cn s;
          if ret \<noteq> PICA_OK then Some (False, s)
          else
            do { n \<leftarrow> conns s cn;
                 if w_pos (cn_w n) > 0 then flush_c2n cn s else Some (True, s) } }"

declare flush_c2n.simps [code]

definition procmsg_CONNREQINC :: "byte list \<Rightarrow> u32 \<Rightarrow> nat \<Rightarrow> lib \<Rightarrow> (u32 \<times> lib) option" where
  "procmsg_CONNREQINC buf nb cn s =
     do { peer_id \<leftarrow> rd_bytes buf 2 PICA_ID_SIZE;
          if accept_cb (lext s) peer_id then
            do { (ok, s) \<leftarrow> conn_send cn PICA_PROTO_CONNALLOW PICA_PROTO_CONNALLOW_SIZE peer_id s;
                 if \<not> ok then Some (0, s)
                 else
                   do { (chnl, s) \<leftarrow> c2n_alloc_c2c cn peer_id False s;
                        case chnl of
                          None \<Rightarrow> Some (0, s)
                        | Some p \<Rightarrow>
                            do { (ok, s) \<leftarrow> flush_c2n cn s;
                                 if \<not> ok then Some (0, s)
                                 else do { (ret, s) \<leftarrow> c2c_start p s; Some (1, s) } } } }
          else
            do { (ok, s) \<leftarrow> conn_send cn PICA_PROTO_CONNDENY PICA_PROTO_CONNDENY_SIZE peer_id s;
                 Some (if ok then 1 else 0, s) } }"

text \<open>The channels are searched from the end of the list.\<close>

fun find_peer_loop :: "lib \<Rightarrow> pid \<Rightarrow> nat list \<Rightarrow> nat option option" where
  "find_peer_loop s peer_id [] = Some None"
| "find_peer_loop s peer_id (p # ps) =
     do { c \<leftarrow> chans s p;
          if memcmp (ch_peer_id c) peer_id = 0 then Some (Some p) else find_peer_loop s peer_id ps }"

definition procmsg_NOTFOUND :: "byte list \<Rightarrow> u32 \<Rightarrow> nat \<Rightarrow> lib \<Rightarrow> (u32 \<times> lib) option" where
  "procmsg_NOTFOUND buf nb cn s =
     do { n \<leftarrow> conns s cn;
          peer_id \<leftarrow> rd_bytes buf 2 PICA_ID_SIZE;
          rq \<leftarrow> find_peer_loop s peer_id (rev (cn_chan_list n));
          case rq of
            None \<Rightarrow> Some (0, s)
          | Some p \<Rightarrow> do { s \<leftarrow> PICA_close_c2c p s; Some (1, emit (notfound_cb peer_id) s) } }"

definition procmsg_FOUND :: "byte list \<Rightarrow> u32 \<Rightarrow> nat \<Rightarrow> lib \<Rightarrow> (u32 \<times> lib) option" where
  "procmsg_FOUND buf nb cn s =
     do { n \<leftarrow> conns s cn;
          peer_id \<leftarrow> rd_bytes buf 2 PICA_ID_SIZE;
          rq \<leftarrow> find_peer_loop s peer_id (rev (cn_chan_list n));
          case rq of
            None \<Rightarrow> Some (0, s)
          | Some p \<Rightarrow> do { (ret, s) \<leftarrow> c2c_start p s; Some (if ret \<noteq> PICA_OK then 0 else 1, s) } }"

text \<open>A port number in network byte order.\<close>

definition rd_be16 :: "byte list \<Rightarrow> nat \<Rightarrow> u16 option" where
  "rd_be16 buf i = map_option (\<lambda>bs. of_nat (le_nat (rev bs))) (rd_bytes buf i 2)"

text \<open>
  One entry of the list: the callback it makes and its size. A host name is handed over as
  a C string; the octet behind it is replaced by zero during the call and then restored.
\<close>

definition clnodelist_item :: "byte list \<Rightarrow> nat \<Rightarrow> (callback \<times> nat) option option" where
  "clnodelist_item buf pos =
     do { ty \<leftarrow> rd8 buf pos;
          if ty = ucast PICA_PROTO_NEWNODE_IPV4 then
            do { addr \<leftarrow> rd_bytes buf (pos + 1) 4;
                 port \<leftarrow> rd_be16 buf (pos + 5);
                 Some (Some (nodelist_cb PICA_PROTO_NEWNODE_IPV4 addr port, PICA_PROTO_NODELIST_ITEM_IPV4_SIZE)) }
          else if ty = ucast PICA_PROTO_NEWNODE_IPV6 then
            do { addr \<leftarrow> rd_bytes buf (pos + 1) 16;
                 port \<leftarrow> rd_be16 buf (pos + 17);
                 Some (Some (nodelist_cb PICA_PROTO_NEWNODE_IPV6 addr port, PICA_PROTO_NODELIST_ITEM_IPV6_SIZE)) }
          else if ty = ucast PICA_PROTO_NEWNODE_DNS then
            do { len \<leftarrow> rd8 buf (pos + 1);
                 port \<leftarrow> rd_be16 buf (pos + unat len + 2);
                 name \<leftarrow> rd_bytes buf (pos + 2) (unat len);
                 Some (Some (nodelist_cb PICA_PROTO_NEWNODE_DNS (c_str name) port, 4 + unat len)) }
          else Some None }"

lemma clnodelist_item_pos: "clnodelist_item buf pos = Some (Some (cb, k)) \<Longrightarrow> 0 < k"
  by (auto simp: clnodelist_item_def split: if_splits)

function clnodelist_loop :: "byte list \<Rightarrow> u32 \<Rightarrow> nat \<Rightarrow> lib \<Rightarrow> (u32 \<times> lib) option" where
  "clnodelist_loop buf nb pos s =
     (case clnodelist_item buf pos of
        None \<Rightarrow> None
      | Some None \<Rightarrow> Some (0, s)
      | Some (Some (cb, k)) \<Rightarrow>
          if pos + k < unat nb then clnodelist_loop buf nb (pos + k) (emit cb s) else Some (1, emit cb s))"
  by pat_completeness auto
termination
  by (relation "measure (\<lambda>(buf, nb, pos, s). unat nb - pos)") (auto dest: clnodelist_item_pos)

declare clnodelist_loop.simps [simp del]

definition procmsg_CLNODELIST :: "byte list \<Rightarrow> u32 \<Rightarrow> nat \<Rightarrow> lib \<Rightarrow> (u32 \<times> lib) option" where
  "procmsg_CLNODELIST buf nb cn s = clnodelist_loop buf nb 4 s"

definition procmsg_PINGREQ :: "byte list \<Rightarrow> u32 \<Rightarrow> nat \<Rightarrow> lib \<Rightarrow> (u32 \<times> lib) option" where
  "procmsg_PINGREQ buf nb cn s =
     do { (ok, s) \<leftarrow> conn_send_rand cn PICA_PROTO_PINGREP PICA_PROTO_PINGREP_SIZE s;
          Some (if ok then 1 else 0, s) }"

text \<open>
  \<open>own_sign_ok\<close> is the verification with the public key of the account's own certificate;
  it fails as well when the certificate cannot be read.
\<close>

definition procmsg_MULTILOGIN :: "byte list \<Rightarrow> u32 \<Rightarrow> nat \<Rightarrow> lib \<Rightarrow> (u32 \<times> lib) option" where
  "procmsg_MULTILOGIN buf nb cn s =
     do { n \<leftarrow> conns s cn;
          payload_len \<leftarrow> rd16 buf 2;
          if payload_len \<le> 8 + PICA_PROTO_NODELIST_ITEM_IPV4_SIZE then Some (1, s)
          else
            do { t \<leftarrow> rd64 buf 4;
                 let timestamp = of_nat t;
                 if timestamp \<le> cn_multilogin_last_timestamp n then Some (1, s)
                 else
                   do { ty \<leftarrow> rd8 buf 12;
                        if ty \<noteq> ucast PICA_PROTO_NEWNODE_IPV4 then Some (1, s)
                        else
                          do { tb \<leftarrow> rd_bytes buf 4 8;
                               addr \<leftarrow> rd_bytes buf 12 PICA_PROTO_NODELIST_ITEM_IPV4_SIZE;
                               sig \<leftarrow> rd_bytes buf 19 (payload_len - 8 - PICA_PROTO_NODELIST_ITEM_IPV4_SIZE);
                               if \<not> own_sign_ok (lext s) [cn_acc_id n, tb, addr] sig then Some (1, s)
                               else
                                 do { port \<leftarrow> rd_be16 buf 17;
                                      s \<leftarrow> upd_conn cn (\<lambda>n. n\<lparr>cn_multilogin_last_timestamp := timestamp\<rparr>)
                                             (emit (multilogin_cb timestamp addr port) s);
                                      Some (1, s) } } } } }"

definition c2n_messages :: "(nat, lib) PICA_msginfo list" where
  "c2n_messages =
     [c2c_fixed_msg PICA_PROTO_CONNREQINC PICA_PROTO_CONNREQINC_SIZE procmsg_CONNREQINC,
      c2c_fixed_msg PICA_PROTO_NOTFOUND PICA_PROTO_NOTFOUND_SIZE procmsg_NOTFOUND,
      c2c_fixed_msg PICA_PROTO_FOUND PICA_PROTO_FOUND_SIZE procmsg_FOUND,
      c2c_var_msg PICA_PROTO_CLNODELIST procmsg_CLNODELIST,
      c2c_fixed_msg PICA_PROTO_PINGREQ PICA_PROTO_PINGREQ_SIZE procmsg_PINGREQ,
      c2c_fixed_msg PICA_PROTO_INITRESPOK PICA_PROTO_INITRESPOK_SIZE procmsg_INITRESP,
      c2c_fixed_msg PICA_PROTO_VERDIFFER PICA_PROTO_VERDIFFER_SIZE procmsg_INITRESP,
      c2c_var_msg PICA_PROTO_MULTILOGIN procmsg_MULTILOGIN]"

section \<open>Reading\<close>

definition PICA_read_c2n :: "nat \<Rightarrow> lib \<Rightarrow> (int \<times> lib) option" where
  "PICA_read_c2n cn s =
     do { n \<leftarrow> conns s cn;
          buf \<leftarrow> cn_read_buf n;
          let (a, s) = sys_call s;
          let (ret, buf, pos) = PICA_read_ssl buf (cn_read_pos n) PICA_CONNREADBUFSIZE a;
          s \<leftarrow> upd_conn cn (\<lambda>n. n\<lparr>cn_read_buf := Some buf, cn_read_pos := pos\<rparr>) s;
          if ret \<noteq> PICA_OK then Some (ret, s)
          else
            do { (r, buf, pos, s) \<leftarrow> PICA_processdatastream buf pos cn s c2n_messages;
                 s \<leftarrow> upd_conn cn (\<lambda>n. n\<lparr>cn_read_buf := Some buf, cn_read_pos := pos\<rparr>) s;
                 Some (if r = 0 then PICA_ERRSERV else PICA_OK, s) } }"

end
