(* ===== verification/ClientLoop.thy ===== *)
theory ClientLoop
  imports ClientNode
begin

text \<open>
  The event loop of the client library (\<open>process_c2n\<close>, \<open>process_c2c\<close>, \<open>fdset_add\<close>,
  \<open>PICA_event_loop\<close> of \<open>PICA_client.c\<close>). What \<open>select\<close> reports is an argument: the sockets
  that are ready, of which those the library asked for are seen. Application callbacks do
  not call back into the library.
\<close>

section \<open>A connection to a node\<close>

definition c2n_ready :: "fdset \<Rightarrow> fdset \<Rightarrow> PICA_c2n \<Rightarrow> bool" where
  "c2n_ready rfds wfds n \<longleftrightarrow> wfds (cn_sck n) \<or> rfds (cn_sck n)"

text \<open>Writing and then reading; the result of the read replaces that of the write.\<close>

definition c2n_write_read :: "fdset \<Rightarrow> fdset \<Rightarrow> nat \<Rightarrow> lib \<Rightarrow> (int \<times> lib) option" where
  "c2n_write_read rfds wfds cn s =
     do { n \<leftarrow> conns s cn;
          (ret, s) \<leftarrow> (if wfds (cn_sck n) then PICA_write_c2n cn s else Some (PICA_OK, s));
          n \<leftarrow> conns s cn;
          if rfds (cn_sck n) then PICA_read_c2n cn s else Some (ret, s) }"

definition c2n_waitingrep :: "fdset \<Rightarrow> fdset \<Rightarrow> nat \<Rightarrow> lib \<Rightarrow> (int \<times> lib) option" where
  "c2n_waitingrep rfds wfds cn s =
     do { (ret, s) \<leftarrow> c2n_write_read rfds wfds cn s;
          if ret \<noteq> PICA_OK then Some (ret, s)
          else
            do { n \<leftarrow> conns s cn;
                 if cn_init_resp_ok n = 0 then Some (ret, s)
                 else if cn_init_resp_ok n = 1 then c2n_stage4_shutdownanontls cn s
                 else (let (major, minor) = cn_node_ver n in
                       Some (if major > PICA_PROTO_VER_HIGH \<or> (major = PICA_PROTO_VER_HIGH \<and> minor > PICA_PROTO_VER_LOW)
                             then PICA_ERRPROTONEW else PICA_ERRPROTOOLD, s)) } }"

definition process_c2n :: "fdset \<Rightarrow> fdset \<Rightarrow> nat \<Rightarrow> lib \<Rightarrow> (int \<times> lib) option" where
  "process_c2n rfds wfds cn s =
     do { n \<leftarrow> conns s cn;
          let errors = (\<lambda>a s. let (ret, ww) = process_async_ssl_errors (a_ret a) (a_err a) in
                          do { s \<leftarrow> want_conn cn ww s; Some (ret, s) });
          case cn_state n of
            PICA_C2N_STATE_NEW \<Rightarrow> Some (PICA_OK, s)
          | PICA_C2N_STATE_CONNECTING \<Rightarrow>
              if wfds (cn_sck n) then
                (let (ret, s) = check_async_connect_result s in
                 if ret = PICA_OK then c2n_stage2_startanontls cn s else Some (ret, s))
              else Some (PICA_OK, s)
          | PICA_C2N_STATE_WAITINGANONTLS \<Rightarrow>
              if c2n_ready rfds wfds n then
                (let (a, s) = sys_call s in
                 if a_ret a = 1 then c2n_stage3_sendreq cn s else errors a s)
              else Some (PICA_OK, s)
          | PICA_C2N_STATE_WAITINGREP \<Rightarrow> c2n_waitingrep rfds wfds cn s
          | PICA_C2N_STATE_WAITINGANONTLSSHUTDOWN \<Rightarrow>
              if c2n_ready rfds wfds n then
                (let (a, s) = sys_call s in
                 if a_ret a = 0 then Some (PICA_OK, s)
                 else if a_ret a < 0 then errors a s
                 else if a_ret a = 1 then c2n_stage5_starttls cn s
                 else Some (PICA_OK, s))
              else Some (PICA_OK, s)
          | PICA_C2N_STATE_WAITINGTLS \<Rightarrow>
              if c2n_ready rfds wfds n then
                (let (a, s) = sys_call s in
                 if a_ret a = 1 then c2n_stage6_nodelistrequest cn s
                 else if a_ret a = 0 then Some (PICA_ERRSSL, s)
                 else if a_ret a < 0 then errors a s
                 else Some (PICA_OK, s))
              else Some (PICA_OK, s)
          | PICA_C2N_STATE_CONNECTED \<Rightarrow> c2n_write_read rfds wfds cn s }"

section \<open>A channel\<close>

definition c2c_ready :: "fdset \<Rightarrow> fdset \<Rightarrow> PICA_c2c \<Rightarrow> bool" where
  "c2c_ready rfds wfds c \<longleftrightarrow> wfds (ch_sck c) \<or> rfds (ch_sck c)"

definition c2c_waitingtls :: "nat \<Rightarrow> lib \<Rightarrow> (int \<times> lib) option" where
  "c2c_waitingtls p s =
     do { c \<leftarrow> chans s p;
          let (a, s) = sys_call s;
          if a_ret a < 0 then
            do { s \<leftarrow> want_chan p (a_err a = WANT_WRITE) s;
                 Some (if a_err a \<noteq> WANT_READ \<and> a_err a \<noteq> WANT_WRITE then PICA_ERRSSL else PICA_OK, s) }
          else if a_ret a = 0 then Some (PICA_ERRSSL, s)
          else if a_ret a = 1 then
            do { (ret, s) \<leftarrow> c2c_verify_peer_cert p s;
                 if ret \<noteq> PICA_OK then Some (ret, s)
                 else if ch_outgoing c then c2c_stage6_sendc2cconnreq p s
                 else
                   do { s \<leftarrow> upd_chan p (\<lambda>c. c\<lparr>ch_state := PICA_C2C_STATE_WAITINGC2CPROTOVER\<rparr>) s;
                        Some (PICA_OK, s) } }
          else Some (PICA_OK, s) }"

definition c2c_handshake_io :: "fdset \<Rightarrow> fdset \<Rightarrow> nat \<Rightarrow> lib \<Rightarrow> (int \<times> lib) option" where
  "c2c_handshake_io rfds wfds p s =
     do { c \<leftarrow> chans s p;
          (ret, s) \<leftarrow> (if wfds (ch_sck c) then PICA_write_c2c p s else Some (PICA_OK, s));
          if ret = PICA_OK then
            do { c \<leftarrow> chans s p;
                 if rfds (ch_sck c) then PICA_read_c2c p s else Some (ret, s) }
          else Some (ret, s) }"

text \<open>Readiness of the channel's own socket or of its direct connection.\<close>

definition c2c_fd_isset :: "fdset \<Rightarrow> PICA_c2c \<Rightarrow> lib \<Rightarrow> bool option" where
  "c2c_fd_isset fds c s =
     (if fds (ch_sck c) then Some True
      else if ch_directc2c_state c = PICA_DIRECTC2C_STATE_ACTIVE then
        do { d \<leftarrow> ch_direct c; dc \<leftarrow> directs s d; Some (fds (dc_sck dc)) }
      else Some False)"

definition c2c_active :: "fdset \<Rightarrow> fdset \<Rightarrow> nat \<Rightarrow> lib \<Rightarrow> (int \<times> lib) option" where
  "c2c_active rfds wfds p s =
     do { c \<leftarrow> chans s p;
          w \<leftarrow> c2c_fd_isset wfds c s;
          (ret, s) \<leftarrow>
            (if w then
               do { (ret, s) \<leftarrow> (if ch_sendfilestate c = PICA_CHANSENDFILESTATE_SENDING \<and> w_pos (ch_w c) = 0
                                 then PICA_send_file_fragment p s else Some (PICA_OK, s));
                    c \<leftarrow> chans s p;
                    if w_pos (ch_w c) > 0 then PICA_write_c2c p s else Some (ret, s) }
             else Some (PICA_OK, s));
          if ret = PICA_OK then
            do { c \<leftarrow> chans s p;
                 r \<leftarrow> c2c_fd_isset rfds c s;
                 if r then PICA_read_c2c p s else Some (ret, s) }
          else Some (ret, s) }"

definition c2c_dispatch :: "fdset \<Rightarrow> fdset \<Rightarrow> nat \<Rightarrow> lib \<Rightarrow> (int \<times> lib) option" where
  "c2c_dispatch rfds wfds p s =
     do { c \<leftarrow> chans s p;
          let errors = (\<lambda>a s. let (ret, ww) = process_async_ssl_errors (a_ret a) (a_err a) in
                          do { s \<leftarrow> want_chan p ww s; Some (ret, s) });
          case ch_state c of
            PICA_C2C_STATE_NEW \<Rightarrow> Some (PICA_OK, s)
          | PICA_C2C_STATE_CONNECTING \<Rightarrow>
              if wfds (ch_sck c) then
                (let (ret, s) = check_async_connect_result s in
                 if ret = PICA_OK then c2c_stage2_startanontls p s else Some (ret, s))
              else Some (PICA_OK, s)
          | PICA_C2C_STATE_WAITINGANONTLS \<Rightarrow>
              if c2c_ready rfds wfds c then
                (let (a, s) = sys_call s in if a_ret a = 1 then c2c_stage3_connid p s else errors a s)
              else Some (PICA_OK, s)
          | PICA_C2C_STATE_CONNID \<Rightarrow>
              do { (ret, s) \<leftarrow> (if wfds (ch_sck c) then PICA_write_c2c p s else Some (PICA_OK, s));
                   c \<leftarrow> chans s p;
                   if w_pos (ch_w c) = 0 then c2c_stage4_shutdownanontls p s else Some (ret, s) }
          | PICA_C2C_STATE_WAITINGANONTLSSHUTDOWN \<Rightarrow>
              if c2c_ready rfds wfds c then
                (let (a, s) = sys_call s in
                 if a_ret a = 0 then Some (PICA_OK, s)
                 else if a_ret a < 0 then errors a s
                 else if a_ret a = 1 then c2c_stage5_starttls p s
                 else Some (PICA_OK, s))
              else Some (PICA_OK, s)
          | PICA_C2C_STATE_WAITINGTLS \<Rightarrow>
              if c2c_ready rfds wfds c then c2c_waitingtls p s else Some (PICA_OK, s)
          | PICA_C2C_STATE_WAITINGREP \<Rightarrow> c2c_handshake_io rfds wfds p s
          | PICA_C2C_STATE_WAITINGC2CPROTOVER \<Rightarrow> c2c_handshake_io rfds wfds p s
          | PICA_C2C_STATE_ACTIVE \<Rightarrow> c2c_active rfds wfds p s }"

definition process_c2c :: "fdset \<Rightarrow> fdset \<Rightarrow> nat \<Rightarrow> lib \<Rightarrow> (int \<times> lib) option" where
  "process_c2c rfds wfds p s =
     do { (ret, s) \<leftarrow> c2c_dispatch rfds wfds p s;
          c \<leftarrow> chans s p;
          let ret = (if ch_state c \<noteq> PICA_C2C_STATE_ACTIVE \<and> now (lenv s) - ch_timestamp c > PICA_C2C_ACTIVATE_TIMEOUT
                     then PICA_ERRTIMEDOUT else ret);
          Some (ret, if ret = PICA_OK then s
                     else if ch_state c > PICA_C2C_STATE_NEW \<and> ch_state c < PICA_C2C_STATE_ACTIVE
                     then emit (c2c_failed_cb (ch_peer_id c)) s
                     else emit (c2c_closed_cb (ch_peer_id c) ret) s) }"

section \<open>What the loop waits for\<close>

text \<open>The sets of sockets are lists while they are built.\<close>

type_synonym interest = "int list \<times> int list"

definition fdset_add :: "int \<Rightarrow> int list \<Rightarrow> int list" where
  "fdset_add fd fds = fd # fds"

definition add_rw :: "int \<Rightarrow> bool \<Rightarrow> interest \<Rightarrow> interest" where
  "add_rw fd w = (\<lambda>(rs, ws). (fdset_add fd rs, if w then fdset_add fd ws else ws))"

partial_function (option) add_accepted :: "nat option \<Rightarrow> interest \<Rightarrow> lib \<Rightarrow> (interest \<times> lib) option" where
  "add_accepted conn i s =
     (case conn of
        None \<Rightarrow> Some (i, s)
      | Some d \<Rightarrow>
          do { dc \<leftarrow> directs s d;
               s \<leftarrow> upd_direct d (\<lambda>dc. dc\<lparr>dc_want_write := False\<rparr>) s;
               add_accepted (dc_next dc) (add_rw (dc_sck dc) (dc_want_write dc) i) s })"

declare add_accepted.simps [code]

definition add_direct :: "nat \<Rightarrow> interest \<Rightarrow> lib \<Rightarrow> (interest \<times> lib) option" where
  "add_direct p i s =
     do { c \<leftarrow> chans s p;
          case ch_direct c of
            None \<Rightarrow> Some (i, s)
          | Some d \<Rightarrow>
              if ch_state c = PICA_C2C_STATE_ACTIVE \<and>
                 (ch_directc2c_state c = PICA_DIRECTC2C_STATE_CONNECTING \<or>
                  ch_directc2c_state c = PICA_DIRECTC2C_STATE_ACTIVE) then
                do { dc \<leftarrow> directs s d;
                     if dc_state dc \<noteq> PICA_DIRECTC2C_CONNSTATE_NEW then
                       do { let w = (w_pos (ch_w c) \<noteq> 0 \<or> dc_state dc = PICA_DIRECTC2C_CONNSTATE_CONNECTING
                                     \<or> dc_want_write dc \<or> ch_sendfilestate c = PICA_CHANSENDFILESTATE_SENDING);
                            s \<leftarrow> (if w then upd_direct d (\<lambda>dc. dc\<lparr>dc_want_write := False\<rparr>) s else Some s);
                            Some (add_rw (dc_sck dc) w i, s) }
                     else Some (i, s) }
              else Some (i, s) }"

definition add_chan :: "nat \<Rightarrow> interest \<Rightarrow> lib \<Rightarrow> (interest \<times> lib) option" where
  "add_chan p i s =
     do { c \<leftarrow> chans s p;
          (i, s) \<leftarrow>
            (if ch_state c \<ge> PICA_C2C_STATE_CONNECTING then
               do { let w = ((w_pos (ch_w c) \<noteq> 0 \<or> ch_state c = PICA_C2C_STATE_CONNECTING
                              \<or> (ch_state c = PICA_C2C_STATE_WAITINGTLS \<and> ch_want_write c)
                              \<or> ch_sendfilestate c = PICA_CHANSENDFILESTATE_SENDING)
                             \<and> ch_directc2c_state c \<noteq> PICA_DIRECTC2C_STATE_ACTIVE);
                    s \<leftarrow> (if w then upd_chan p (\<lambda>c. c\<lparr>ch_want_write := False\<rparr>) s else Some s);
                    Some (add_rw (ch_sck c) w i, s) }
             else Some (i, s));
          add_direct p i s }"

fun add_chans :: "nat list \<Rightarrow> interest \<Rightarrow> lib \<Rightarrow> (interest \<times> lib) option" where
  "add_chans [] i s = Some (i, s)"
| "add_chans (p # ps) i s = do { (i, s) \<leftarrow> add_chan p i s; add_chans ps i s }"

definition add_conn :: "nat \<Rightarrow> interest \<Rightarrow> lib \<Rightarrow> (interest \<times> lib) option" where
  "add_conn cn i s =
     do { n \<leftarrow> conns s cn;
          let w = (w_pos (cn_w n) \<noteq> 0 \<or> cn_state n = PICA_C2N_STATE_CONNECTING \<or> cn_want_write n);
          s \<leftarrow> (if w then upd_conn cn (\<lambda>n. n\<lparr>cn_want_write := False\<rparr>) s else Some s);
          let i = add_rw (cn_sck n) w i;
          (i, s) \<leftarrow>
            (case cn_directc2c_listener n of
               None \<Rightarrow> Some (i, s)
             | Some l \<Rightarrow>
                 do { li \<leftarrow> listeners s l;
                      add_accepted (li_accepted_connections li) (add_rw (li_sck li) False i) s });
          add_chans (cn_chan_list n) i s }"

fun add_conns :: "nat list \<Rightarrow> interest \<Rightarrow> lib \<Rightarrow> (interest \<times> lib) option" where
  "add_conns [] i s = Some (i, s)"
| "add_conns (cn # cns) i s = do { (i, s) \<leftarrow> add_conn cn i s; add_conns cns i s }"

section \<open>The loop\<close>

fun next_in :: "nat \<Rightarrow> nat list \<Rightarrow> nat option" where
  "next_in p [] = None"
| "next_in p (x # xs) = (if x = p then (case xs of [] \<Rightarrow> None | y # _ \<Rightarrow> Some y) else next_in p xs)"

text \<open>The successor of a channel is read after the channel was processed and before it is closed.\<close>

partial_function (option) chan_loop :: "fdset \<Rightarrow> fdset \<Rightarrow> nat \<Rightarrow> nat option \<Rightarrow> lib \<Rightarrow> lib option" where
  "chan_loop rfds wfds cn ic2c s =
     (case ic2c of
        None \<Rightarrow> Some s
      | Some p \<Rightarrow>
          do { (ret, s) \<leftarrow> process_c2c rfds wfds p s;
               n \<leftarrow> conns s cn;
               let nxt = next_in p (cn_chan_list n);
               s \<leftarrow> (if ret \<noteq> PICA_OK then PICA_close_c2c p s else Some s);
               chan_loop rfds wfds cn nxt s })"

declare chan_loop.simps [code]

definition event_conn :: "fdset \<Rightarrow> fdset \<Rightarrow> nat \<Rightarrow> lib \<Rightarrow> lib option" where
  "event_conn rfds wfds cn s =
     do { (ret, s) \<leftarrow> process_c2n rfds wfds cn s;
          n \<leftarrow> conns s cn;
          if ret \<noteq> PICA_OK then
            PICA_close_c2n cn
              (emit (if cn_state n = PICA_C2N_STATE_CONNECTED then c2n_closed_cb cn ret else c2n_failed_cb cn ret) s)
          else
            do { s \<leftarrow> (case cn_directc2c_listener n of
                         None \<Rightarrow> Some s
                       | Some l \<Rightarrow>
                           do { (ret, s) \<leftarrow> process_listener rfds wfds l s;
                                if ret \<noteq> PICA_OK then PICA_close_listener l (emit (listener_error_cb l ret) s)
                                else Some s });
                 n \<leftarrow> conns s cn;
                 s \<leftarrow> chan_loop rfds wfds cn (case cn_chan_list n of [] \<Rightarrow> None | p # _ \<Rightarrow> Some p) s;
                 n \<leftarrow> conns s cn;
                 if cn_directc2c_config n \<noteq> PICA_DIRECTC2C_CFG_DISABLED then process_directc2c rfds wfds cn s
                 else Some s } }"

fun event_conns :: "fdset \<Rightarrow> fdset \<Rightarrow> nat list \<Rightarrow> lib \<Rightarrow> lib option" where
  "event_conns rfds wfds [] s = Some s"
| "event_conns rfds wfds (cn # cns) s = do { s \<leftarrow> event_conn rfds wfds cn s; event_conns rfds wfds cns s }"

definition PICA_event_loop :: "fdset \<Rightarrow> fdset \<Rightarrow> nat list \<Rightarrow> lib \<Rightarrow> (int \<times> lib) option" where
  "PICA_event_loop ready_r ready_w connections s =
     do { ((rs, ws), s) \<leftarrow> add_conns connections ([], []) s;
          let (a, s) = sys_call s;
          if a_ret a = -1 then Some (if a_err a = EINTR then PICA_OK else PICA_ERRSOCK, s)
          else
            do { s \<leftarrow> event_conns (\<lambda>fd. fd \<in> set rs \<and> ready_r fd) (\<lambda>fd. fd \<in> set ws \<and> ready_w fd) connections s;
                 Some (PICA_OK, s) } }"

end
