(* ===== verification/ClientAuth.thy ===== *)
theory ClientAuth
  imports ClientLoop
begin

text \<open>
  Authentication in the client library. A channel is past its TLS handshake only with a
  certificate whose hash is the identifier of the peer, whose key is long enough and which
  the application accepted; what the application is told about a peer comes from such
  channels only. The invariant is proved for one round of the event loop and for every
  operation of the interface, and then for all reachable states.

  \<open>steady\<close> relates a state to one in which no channel got past its handshake or left it;
  \<open>tame\<close> only demands that no channel got past it. Everything but the end of the TLS
  handshake itself is tame.
\<close>

section \<open>Definitions\<close>

definition trusted :: "ext \<Rightarrow> pid \<Rightarrow> cert \<Rightarrow> bool" where
  "trusted x i cert \<longleftrightarrow>
     x509_id x cert = Some i \<and> (\<exists>bits. rsa_key_bits x cert = Some bits \<and> PICA_RSA_MINKEYSIZE \<le> bits) \<and>
     peer_cert_verify_cb x i cert"

abbreviation past_tls :: "PICA_c2c \<Rightarrow> bool" where
  "past_tls c \<equiv> ch_state c > PICA_C2C_STATE_WAITINGTLS"

text \<open>The peer that a callback tells the application about, where the peer acted.\<close>

fun event_peer :: "callback \<Rightarrow> pid option" where
  "event_peer (newmsg_cb i _ _) = Some i"
| "event_peer (msgok_cb i) = Some i"
| "event_peer (c2c_established_cb i) = Some i"
| "event_peer (accepted_file_cb i) = Some i"
| "event_peer (denied_file_cb i) = Some i"
| "event_peer (file_progress_cb i _ _) = Some i"
| "event_peer (file_control_cb i _ _) = Some i"
| "event_peer (file_finished_cb i _) = Some i"
| "event_peer _ = None"

definition chans_auth :: "lib \<Rightarrow> bool" where
  "chans_auth s \<longleftrightarrow>
     (\<forall>p c. chans s p = Some c \<longrightarrow> past_tls c \<longrightarrow>
        (\<exists>cert. ch_peer_cert c = Some cert \<and> trusted (lext s) (ch_peer_id c) cert))"

definition events_auth :: "lib \<Rightarrow> bool" where
  "events_auth s \<longleftrightarrow>
     (\<forall>e \<in> set (events s). \<forall>i. event_peer e = Some i \<longrightarrow> (\<exists>cert. trusted (lext s) i cert))"

definition auth :: "lib \<Rightarrow> bool" where
  "auth s \<longleftrightarrow> chans_auth s \<and> events_auth s"

definition up :: "nat \<Rightarrow> lib \<Rightarrow> bool" where
  "up p s \<longleftrightarrow> (\<exists>c. chans s p = Some c \<and> past_tls c)"

definition up_peer :: "lib \<Rightarrow> pid \<Rightarrow> bool" where
  "up_peer s i \<longleftrightarrow> (\<exists>p c. chans s p = Some c \<and> past_tls c \<and> ch_peer_id c = i)"

definition told :: "lib \<Rightarrow> lib \<Rightarrow> bool" where
  "told s s' \<longleftrightarrow> lext s' = lext s \<and>
     (\<exists>es. events s' = events s @ es \<and> (\<forall>e \<in> set es. \<forall>i. event_peer e = Some i \<longrightarrow> up_peer s i))"

definition core_le :: "PICA_c2c \<Rightarrow> PICA_c2c \<Rightarrow> bool" where
  "core_le c c' \<longleftrightarrow> ch_peer_id c' = ch_peer_id c \<and> ch_peer_cert c' = ch_peer_cert c \<and>
     (past_tls c' \<longleftrightarrow> past_tls c)"

definition steady :: "lib \<Rightarrow> lib \<Rightarrow> bool" where
  "steady s s' \<longleftrightarrow> told s s' \<and> (\<forall>p. rel_option core_le (chans s p) (chans s' p))"

definition tame :: "lib \<Rightarrow> lib \<Rightarrow> bool" where
  "tame s s' \<longleftrightarrow> told s s' \<and>
     (\<forall>p c'. chans s' p = Some c' \<longrightarrow> past_tls c' \<longrightarrow>
        (\<exists>c. chans s p = Some c \<and> past_tls c \<and> ch_peer_id c' = ch_peer_id c \<and> ch_peer_cert c' = ch_peer_cert c))"

section \<open>The relations\<close>

lemma core_le_refl [simp]: "core_le c c"
  by (simp add: core_le_def)

lemma steady_refl [simp]: "steady s s"
  by (auto simp: steady_def told_def core_le_def intro: option.rel_refl)

lemma tame_refl [simp]: "tame s s"
  by (auto simp: tame_def told_def)

lemma steady_chan:
  assumes "steady s s'" and "chans s' p = Some c'"
  obtains c where "chans s p = Some c" "core_le c c'"
  using assms unfolding steady_def by (metis option_rel_Some2)

lemma steady_chan':
  assumes "steady s s'" and "chans s p = Some c"
  obtains c' where "chans s' p = Some c'" "core_le c c'"
  using assms unfolding steady_def by (metis option_rel_Some1)

lemma steady_tame: "steady s s' \<Longrightarrow> tame s s'"
  unfolding tame_def
  by (metis core_le_def steady_chan steady_def)

lemma tame_up_peer: "tame s s' \<Longrightarrow> up_peer s' i \<Longrightarrow> up_peer s i"
  by (fastforce simp: tame_def up_peer_def)

lemma told_trans:
  assumes "told s t" "told t u" "\<And>i. up_peer t i \<Longrightarrow> up_peer s i"
  shows "told s u"
proof -
  from assms(1,2) obtain es fs where
    "lext t = lext s" "events t = events s @ es" "\<forall>e\<in>set es. \<forall>i. event_peer e = Some i \<longrightarrow> up_peer s i"
    "lext u = lext t" "events u = events t @ fs" "\<forall>e\<in>set fs. \<forall>i. event_peer e = Some i \<longrightarrow> up_peer t i"
    unfolding told_def by blast
  with assms(3) show ?thesis unfolding told_def by (intro conjI exI [of _ "es @ fs"]) auto
qed

lemma tame_trans: "tame s t \<Longrightarrow> tame t u \<Longrightarrow> tame s u"
  using told_trans [of s t u] tame_up_peer [of s t] unfolding tame_def by metis

lemma steady_trans:
  assumes "steady s t" "steady t u" shows "steady s u"
proof -
  have "told s u"
    using assms told_trans [of s t u] tame_up_peer [OF steady_tame] unfolding steady_def by metis
  moreover have "rel_option core_le (chans s p) (chans u p)" for p
  proof -
    have a: "rel_option core_le (chans s p) (chans t p)" "rel_option core_le (chans t p) (chans u p)"
      using assms by (auto simp: steady_def)
    then have "rel_option (core_le OO core_le) (chans s p) (chans u p)"
      by (auto simp: option.rel_compp)
    then show ?thesis by (rule option.rel_mono_strong) (auto simp: core_le_def)
  qed
  ultimately show ?thesis by (simp add: steady_def)
qed

lemma steady_up: assumes "steady s s'" "up p s" shows "up p s'"
proof -
  from assms(2) obtain c where c: "chans s p = Some c" "past_tls c" by (auto simp: up_def)
  from steady_chan' [OF assms(1) c(1)] obtain c' where "chans s' p = Some c'" "core_le c c'" by blast
  with c(2) show ?thesis by (auto simp: up_def core_le_def)
qed

text \<open>What was trusted stays trusted.\<close>

lemma tame_auth:
  assumes t: "tame s s'" and a: "auth s" shows "auth s'"
proof -
  have l: "lext s' = lext s" using t by (simp add: tame_def told_def)
  have "chans_auth s'"
    using t a l unfolding tame_def auth_def chans_auth_def by metis
  moreover from t obtain es where es: "events s' = events s @ es" "\<forall>e\<in>set es. \<forall>i. event_peer e = Some i \<longrightarrow> up_peer s i"
    unfolding tame_def told_def by blast
  have "\<exists>cert. trusted (lext s) i cert" if "up_peer s i" for i
    using that a unfolding up_peer_def auth_def chans_auth_def by blast
  then have "events_auth s'" using es l a unfolding auth_def events_auth_def by auto
  ultimately show ?thesis by (simp add: auth_def)
qed

section \<open>Fields that do not matter\<close>

lemma steady_frame [simp]:
  "steady s (s'\<lparr>lenv := a\<rparr>) = steady s s'" "steady s (s'\<lparr>n_calls := b\<rparr>) = steady s s'"
  "steady s (s'\<lparr>n_fread := c\<rparr>) = steady s s'" "steady s (s'\<lparr>n_fwrite := d\<rparr>) = steady s s'"
  "steady s (s'\<lparr>lnext := e\<rparr>) = steady s s'" "steady s (s'\<lparr>conns := f\<rparr>) = steady s s'"
  "steady s (s'\<lparr>directs := g\<rparr>) = steady s s'" "steady s (s'\<lparr>listeners := h\<rparr>) = steady s s'"
  "steady s (s'\<lparr>wire := i\<rparr>) = steady s s'" "steady s (s'\<lparr>files := j\<rparr>) = steady s s'"
  "steady s (s'\<lparr>lclosed := k\<rparr>) = steady s s'"
  by (simp_all add: steady_def told_def)

lemma steady_frame_left [simp]:
  "steady (s\<lparr>lenv := a\<rparr>) s' = steady s s'" "steady (s\<lparr>n_calls := b\<rparr>) s' = steady s s'"
  "steady (s\<lparr>n_fread := c\<rparr>) s' = steady s s'" "steady (s\<lparr>n_fwrite := d\<rparr>) s' = steady s s'"
  "steady (s\<lparr>lnext := e\<rparr>) s' = steady s s'" "steady (s\<lparr>conns := f\<rparr>) s' = steady s s'"
  "steady (s\<lparr>directs := g\<rparr>) s' = steady s s'" "steady (s\<lparr>listeners := h\<rparr>) s' = steady s s'"
  "steady (s\<lparr>wire := i\<rparr>) s' = steady s s'" "steady (s\<lparr>files := j\<rparr>) s' = steady s s'"
  "steady (s\<lparr>lclosed := k\<rparr>) s' = steady s s'"
  by (simp_all add: steady_def told_def up_peer_def)

lemma tame_frame_left [simp]:
  "tame (s\<lparr>lenv := a\<rparr>) s' = tame s s'" "tame (s\<lparr>n_calls := b\<rparr>) s' = tame s s'"
  "tame (s\<lparr>n_fread := c\<rparr>) s' = tame s s'" "tame (s\<lparr>n_fwrite := d\<rparr>) s' = tame s s'"
  "tame (s\<lparr>lnext := e\<rparr>) s' = tame s s'" "tame (s\<lparr>conns := f\<rparr>) s' = tame s s'"
  "tame (s\<lparr>directs := g\<rparr>) s' = tame s s'" "tame (s\<lparr>listeners := h\<rparr>) s' = tame s s'"
  "tame (s\<lparr>wire := i\<rparr>) s' = tame s s'" "tame (s\<lparr>files := j\<rparr>) s' = tame s s'"
  "tame (s\<lparr>lclosed := k\<rparr>) s' = tame s s'"
  by (simp_all add: tame_def told_def up_peer_def)

lemma tame_frame [simp]:
  "tame s (s'\<lparr>lenv := a\<rparr>) = tame s s'" "tame s (s'\<lparr>n_calls := b\<rparr>) = tame s s'"
  "tame s (s'\<lparr>n_fread := c\<rparr>) = tame s s'" "tame s (s'\<lparr>n_fwrite := d\<rparr>) = tame s s'"
  "tame s (s'\<lparr>lnext := e\<rparr>) = tame s s'" "tame s (s'\<lparr>conns := f\<rparr>) = tame s s'"
  "tame s (s'\<lparr>directs := g\<rparr>) = tame s s'" "tame s (s'\<lparr>listeners := h\<rparr>) = tame s s'"
  "tame s (s'\<lparr>wire := i\<rparr>) = tame s s'" "tame s (s'\<lparr>files := j\<rparr>) = tame s s'"
  "tame s (s'\<lparr>lclosed := k\<rparr>) = tame s s'"
  by (simp_all add: tame_def told_def)

lemma steady_emit:
  assumes "steady s t" "\<And>i. event_peer e = Some i \<Longrightarrow> up_peer s i" shows "steady s (emit e t)"
proof -
  from assms(1) obtain es where "events t = events s @ es" "\<forall>e\<in>set es. \<forall>i. event_peer e = Some i \<longrightarrow> up_peer s i"
    "lext t = lext s" unfolding steady_def told_def by blast
  with assms(2) have "told s (emit e t)" unfolding told_def by (intro conjI exI [of _ "es @ [e]"]) auto
  with assms(1) show ?thesis by (simp add: steady_def)
qed

lemma tame_emit:
  assumes "tame s t" "\<And>i. event_peer e = Some i \<Longrightarrow> up_peer s i" shows "tame s (emit e t)"
proof -
  from assms(1) obtain es where "events t = events s @ es" "\<forall>e\<in>set es. \<forall>i. event_peer e = Some i \<longrightarrow> up_peer s i"
    "lext t = lext s" unfolding tame_def told_def by blast
  with assms(2) have "told s (emit e t)" unfolding told_def by (intro conjI exI [of _ "es @ [e]"]) auto
  with assms(1) show ?thesis by (simp add: tame_def)
qed

lemma steady_upd:
  assumes "steady s t" "h p = Some c" "core_le c c'" "h = chans t"
  shows "steady s (t\<lparr>chans := h(p \<mapsto> c')\<rparr>)"
proof -
  have "steady t (t\<lparr>chans := h(p \<mapsto> c')\<rparr>)"
    using assms(2,3,4) by (auto simp: steady_def told_def intro: option.rel_refl)
  with assms(1) show ?thesis by (rule steady_trans)
qed

lemma tame_upd:
  assumes "tame s t" "past_tls c' \<Longrightarrow> \<exists>c. h p = Some c \<and> core_le c c'" "h = chans t"
  shows "tame s (t\<lparr>chans := h(p \<mapsto> c')\<rparr>)"
proof -
  have "tame t (t\<lparr>chans := h(p \<mapsto> c')\<rparr>)"
    using assms(2,3) by (auto simp: tame_def told_def core_le_def)
  with assms(1) show ?thesis by (rule tame_trans)
qed

lemma tame_del: "tame s t \<Longrightarrow> h = chans t \<Longrightarrow> tame s (t\<lparr>chans := h(p := None)\<rparr>)"
  by (auto simp: tame_def told_def)


section \<open>Blocks of operations\<close>

text \<open>
  The result of a block of operations: each equation of the block is an assumption, and a
  goal about the last state is reduced along them to the first.
\<close>

lemma bind_SomeE:
  assumes "Option.bind m f = Some y" obtains x where "m = Some x" "f x = Some y"
  using assms by (auto simp: bind_eq_Some_conv)

lemma prod_SomeE:
  assumes "(case x of (a, b) \<Rightarrow> f a b) = Some y" obtains a b where "x = (a, b)" "f a b = Some y"
  using assms by (cases x) auto

lemma if_SomeE:
  assumes "(if b then x else y) = Some z" obtains "b" "x = Some z" | "\<not> b" "y = Some z"
  using assms by (auto split: if_splits)

lemma opt_SomeE:
  assumes "(case m of None \<Rightarrow> x | Some v \<Rightarrow> f v) = Some z" obtains "m = None" "x = Some z" | v where "m = Some v" "f v = Some z"
  using assms by (auto split: option.splits)

lemma Some_pairE:
  assumes "Some (a, b) = Some (c, d)" obtains "a = c" "b = d"
  using assms by auto

lemma list_SomeE:
  assumes "(case xs of [] \<Rightarrow> x | y # ys \<Rightarrow> f y ys) = Some z"
  obtains "xs = []" "x = Some z" | y ys where "xs = y # ys" "f y ys = Some z"
  using assms by (auto split: list.splits)

lemma Some_eqE: assumes "Some a = Some b" obtains "a = b"
  using assms by simp

lemmas eq_elims = Some_pairE Some_eqE Pair_inject
lemmas block_elims = option.distinct(1) [THEN notE] bind_SomeE prod_SomeE if_SomeE opt_SomeE list_SomeE Some_pairE

lemma core_le_upd [simp, intro!]:
  "core_le c (c\<lparr>ch_w := a\<rparr>)" "core_le c (c\<lparr>ch_recvfilestate := b\<rparr>)" "core_le c (c\<lparr>ch_recvfile_pos := d\<rparr>)"
  "core_le c (c\<lparr>ch_recvfile_stream := e\<rparr>)" "core_le c (c\<lparr>ch_sendfilestate := f\<rparr>)" "core_le c (c\<lparr>ch_sendfile_pos := g\<rparr>)"
  "core_le c (c\<lparr>ch_sendfile_stream := h\<rparr>)" "core_le c (c\<lparr>ch_directc2c_state := i\<rparr>)" "core_le c (c\<lparr>ch_direct := j\<rparr>)"
  "core_le c (c\<lparr>ch_switched_to_directc2c_read := k\<rparr>)" "core_le c (c\<lparr>ch_want_write := l\<rparr>)"
  "core_le c (c\<lparr>ch_disconnect_on_empty_write_buf := m\<rparr>)" "core_le c (c\<lparr>ch_write_barrier_pos := n\<rparr>)"
  "core_le c (c\<lparr>ch_read_buf := q, ch_read_pos := r\<rparr>)" "core_le c (c\<lparr>ch_ssl := u\<rparr>)"
  "core_le c (c\<lparr>ch_direct := v, ch_directc2c_state := x\<rparr>)"
  by (simp_all add: core_le_def)

lemma steady_emits:
  "up_peer s i \<Longrightarrow> steady s t \<Longrightarrow> steady s (emit (newmsg_cb i x y) t)"
  "up_peer s i \<Longrightarrow> steady s t \<Longrightarrow> steady s (emit (msgok_cb i) t)"
  "up_peer s i \<Longrightarrow> steady s t \<Longrightarrow> steady s (emit (c2c_established_cb i) t)"
  "up_peer s i \<Longrightarrow> steady s t \<Longrightarrow> steady s (emit (accepted_file_cb i) t)"
  "up_peer s i \<Longrightarrow> steady s t \<Longrightarrow> steady s (emit (denied_file_cb i) t)"
  "up_peer s i \<Longrightarrow> steady s t \<Longrightarrow> steady s (emit (file_progress_cb i x' y') t)"
  "up_peer s i \<Longrightarrow> steady s t \<Longrightarrow> steady s (emit (file_control_cb i x'' y'') t)"
  "up_peer s i \<Longrightarrow> steady s t \<Longrightarrow> steady s (emit (file_finished_cb i z) t)"
  "steady s t \<Longrightarrow> steady s (emit (c2c_failed_cb i) t)"
  "steady s t \<Longrightarrow> steady s (emit (notfound_cb i) t)"
  "steady s t \<Longrightarrow> steady s (emit (c2c_closed_cb i k) t)"
  "steady s t \<Longrightarrow> steady s (emit (nodelist_cb a b c) t)"
  "steady s t \<Longrightarrow> steady s (emit (c2n_established_cb n) t)"
  "steady s t \<Longrightarrow> steady s (emit (c2n_failed_cb n k) t)"
  "steady s t \<Longrightarrow> steady s (emit (c2n_closed_cb n k) t)"
  "steady s t \<Longrightarrow> steady s (emit (multilogin_cb f b c) t)"
  "steady s t \<Longrightarrow> steady s (emit (direct_c2c_established_cb i) t)"
  "steady s t \<Longrightarrow> steady s (emit (listener_error_cb n k) t)"
  by (auto intro: steady_emit)

lemma tame_emits:
  "up_peer s i \<Longrightarrow> tame s t \<Longrightarrow> tame s (emit (newmsg_cb i x y) t)"
  "up_peer s i \<Longrightarrow> tame s t \<Longrightarrow> tame s (emit (msgok_cb i) t)"
  "up_peer s i \<Longrightarrow> tame s t \<Longrightarrow> tame s (emit (c2c_established_cb i) t)"
  "up_peer s i \<Longrightarrow> tame s t \<Longrightarrow> tame s (emit (accepted_file_cb i) t)"
  "up_peer s i \<Longrightarrow> tame s t \<Longrightarrow> tame s (emit (denied_file_cb i) t)"
  "up_peer s i \<Longrightarrow> tame s t \<Longrightarrow> tame s (emit (file_progress_cb i x' y') t)"
  "up_peer s i \<Longrightarrow> tame s t \<Longrightarrow> tame s (emit (file_control_cb i x'' y'') t)"
  "up_peer s i \<Longrightarrow> tame s t \<Longrightarrow> tame s (emit (file_finished_cb i z) t)"
  "tame s t \<Longrightarrow> tame s (emit (c2c_failed_cb i) t)"
  "tame s t \<Longrightarrow> tame s (emit (notfound_cb i) t)"
  "tame s t \<Longrightarrow> tame s (emit (c2c_closed_cb i k) t)"
  "tame s t \<Longrightarrow> tame s (emit (nodelist_cb a b c) t)"
  "tame s t \<Longrightarrow> tame s (emit (c2n_established_cb n) t)"
  "tame s t \<Longrightarrow> tame s (emit (c2n_failed_cb n k) t)"
  "tame s t \<Longrightarrow> tame s (emit (c2n_closed_cb n k) t)"
  "tame s t \<Longrightarrow> tame s (emit (multilogin_cb f b c) t)"
  "tame s t \<Longrightarrow> tame s (emit (direct_c2c_established_cb i) t)"
  "tame s t \<Longrightarrow> tame s (emit (listener_error_cb n k) t)"
  by (auto intro: tame_emit)

section \<open>Operations\<close>

named_theorems steady_ops \<open>operations that no channel's authentication depends on\<close>
named_theorems tame_into \<open>operations that do not authenticate a channel\<close>

lemmas op_splits = if_splits option.splits prod.splits
lemmas core_simps = core_le_def sys_call_def Let_def

lemma past_tls_simps [simp]:
  "\<not> PICA_C2C_STATE_WAITINGTLS < PICA_C2C_STATE_NEW"
  "\<not> PICA_C2C_STATE_WAITINGTLS < PICA_C2C_STATE_CONNECTING"
  "\<not> PICA_C2C_STATE_WAITINGTLS < PICA_C2C_STATE_WAITINGANONTLS"
  "\<not> PICA_C2C_STATE_WAITINGTLS < PICA_C2C_STATE_CONNID"
  "\<not> PICA_C2C_STATE_WAITINGTLS < PICA_C2C_STATE_WAITINGANONTLSSHUTDOWN"
  "\<not> PICA_C2C_STATE_WAITINGTLS < PICA_C2C_STATE_WAITINGTLS"
  "PICA_C2C_STATE_WAITINGTLS < PICA_C2C_STATE_WAITINGREP"
  "PICA_C2C_STATE_WAITINGTLS < PICA_C2C_STATE_WAITINGC2CPROTOVER"
  "PICA_C2C_STATE_WAITINGTLS < PICA_C2C_STATE_ACTIVE"
  by (simp_all add: state_order_defs)

lemma steady_upd_chan [steady_ops]:
  assumes "upd_chan p f s = Some s'" "\<And>c. core_le c (f c)" shows "steady s s'"
  using assms steady_upd [OF steady_refl, of "chans s"] by (auto simp: upd_chan_def split: option.splits)

lemma steady_sys_call [steady_ops]: "sys_call s = (a, s') \<Longrightarrow> steady s s'"
  by (auto simp: sys_call_def)

lemma steady_if: "steady s t \<Longrightarrow> steady s u \<Longrightarrow> steady s (if b then t else u)"
  by simp

lemma steady_upd_conn [steady_ops]: "upd_conn p f s = Some s' \<Longrightarrow> steady s s'"
  by (auto simp: upd_conn_def split: option.splits)

lemma steady_upd_direct [steady_ops]: "upd_direct p f s = Some s' \<Longrightarrow> steady s s'"
  by (auto simp: upd_direct_def split: option.splits)

lemma steady_chan_send [steady_ops]: "chan_send p i m t s = Some (ok, s') \<Longrightarrow> steady s s'"
  by (auto simp: chan_send_def core_le_def intro: steady_upd split: option.splits prod.splits)

lemma steady_conn_send [steady_ops]: "conn_send p i m t s = Some (ok, s') \<Longrightarrow> steady s s'"
  by (auto simp: conn_send_def split: option.splits prod.splits)

lemma steady_send_rand [steady_ops]:
  "chan_send_rand p i m s = Some (ok, s') \<Longrightarrow> steady s s'"
  "conn_send_rand p i m s = Some (ok, s') \<Longrightarrow> steady s s'"
  by (auto simp: chan_send_rand_def conn_send_rand_def dest!: steady_ops)

lemma steady_want [steady_ops]:
  "want_chan p w s = Some s' \<Longrightarrow> steady s s'" "want_conn p w s = Some s' \<Longrightarrow> steady s s'"
  by (auto simp: want_chan_def want_conn_def core_le_def dest!: steady_ops split: if_splits)

lemma steady_fclose [steady_ops]:
  "fclose_recv p s = Some s' \<Longrightarrow> steady s s'" "fclose_send p s = Some s' \<Longrightarrow> steady s s'"
  by (auto simp: fclose_recv_def fclose_send_def core_le_def intro!: steady_upd)

lemma steady_write_session [steady_ops]: "write_session ses w s = (r, w', s') \<Longrightarrow> steady s s'"
  by (auto simp: write_session_def sys_call_def Let_def split: if_splits prod.splits)

subsection \<open>Handlers of a channel\<close>

lemma up_peerI: "chans s p = Some c \<Longrightarrow> up p s \<Longrightarrow> up_peer s (ch_peer_id c)"
  by (auto simp: up_def up_peer_def)

lemma steady_open [steady_ops]:
  "PICA_sendfile_open_read p path s = Some (r, z, s') \<Longrightarrow> steady s s'"
  "PICA_recvfile_open_write p path s = Some (r, s') \<Longrightarrow> steady s s'"
  by (auto simp: PICA_sendfile_open_read_def PICA_recvfile_open_write_def core_simps simp del: upd_chan_Some
      split: op_splits dest!: steady_ops)

lemma steady_filecontrol [steady_ops]: "PICA_send_filecontrol p a b s = Some (r, s') \<Longrightarrow> steady s s'"
  by (auto simp: PICA_send_filecontrol_def dest!: steady_ops)

lemma steady_send_msg [steady_ops]: "PICA_send_msg p m s = Some (r, s') \<Longrightarrow> steady s s'"
  by (auto simp: PICA_send_msg_def split: if_splits dest!: steady_ops)

lemma steady_pause_file [steady_ops]: "PICA_pause_file p b s = Some (r, s') \<Longrightarrow> steady s s'"
  by (auto simp: PICA_pause_file_def core_simps simp del: upd_chan_Some split: if_splits dest!: steady_ops intro: steady_trans)

lemma steady_resume_file [steady_ops]: "PICA_resume_file p b s = Some (r, s') \<Longrightarrow> steady s s'"
  by (auto simp: PICA_resume_file_def core_simps simp del: upd_chan_Some split: if_splits dest!: steady_ops intro: steady_trans)

lemma steady_cancel_file [steady_ops]: "PICA_cancel_file p b s = Some (r, s') \<Longrightarrow> steady s s'"
  by (auto simp: PICA_cancel_file_def core_simps simp del: upd_chan_Some split: if_splits dest!: steady_ops intro: steady_trans)

lemma steady_deny_file [steady_ops]: "PICA_deny_file p s = Some (r, s') \<Longrightarrow> steady s s'"
  by (auto simp: PICA_deny_file_def core_simps simp del: upd_chan_Some split: if_splits dest!: steady_ops intro: steady_trans)

lemma steady_accept_file [steady_ops]: "PICA_accept_file p f s = Some (r, s') \<Longrightarrow> steady s s'"
  by (auto simp: PICA_accept_file_def core_simps simp del: upd_chan_Some split: if_splits dest!: steady_ops intro: steady_trans)

lemma steady_send_file [steady_ops]: "PICA_send_file p f s = Some (r, s') \<Longrightarrow> steady s s'"
  by (auto simp: PICA_send_file_def core_simps simp del: upd_chan_Some split: op_splits dest!: steady_ops intro: steady_trans)


text \<open>A handler of a channel past its handshake tells the application about its peer only.\<close>

lemma steady_emit_peer:
  "steady s t \<Longrightarrow> up_peer s i \<Longrightarrow> event_peer e = Some i \<Longrightarrow> steady s (emit e t)"
  by (rule steady_emit) simp_all

lemma steady_emit_left:
  "steady (emit e s) t \<Longrightarrow> up_peer s i \<Longrightarrow> event_peer e = Some i \<Longrightarrow> steady s t"
  by (rule steady_trans [OF steady_emit_peer [OF steady_refl]])

lemma steady_control [steady_ops]:
  "control_recv b p s = Some (ok, s') \<Longrightarrow> steady s s'"
  "control_send b p s = Some (ok, s') \<Longrightarrow> steady s s'"
  by (auto simp: control_recv_def control_send_def core_simps simp del: upd_chan_Some split: if_splits
      dest!: steady_ops intro: steady_trans)

lemmas steady_into = steady_ops [THEN steady_trans [rotated]]
lemmas steady_path = steady_refl steady_if steady_frame [THEN iffD2] core_le_upd steady_emits

lemma steady_MSGUTF8: "procmsg_MSGUTF8 b n p s = Some (r, s') \<Longrightarrow> up p s \<Longrightarrow> steady s s'"
  unfolding procmsg_MSGUTF8_def Let_def
  by (elim block_elims) (erule eq_elims | hypsubst | rule steady_path | erule steady_into | erule up_peerI | assumption)+

lemma steady_MSGOK: "procmsg_MSGOK b n p s = Some (r, s') \<Longrightarrow> up p s \<Longrightarrow> steady s s'"
  unfolding procmsg_MSGOK_def Let_def
  by (elim block_elims) (erule eq_elims | hypsubst | rule steady_path | erule steady_into | erule up_peerI | assumption)+

lemma steady_FILECONTROL: "procmsg_FILECONTROL b n p s = Some (r, s') \<Longrightarrow> up p s \<Longrightarrow> steady s s'"
  unfolding procmsg_FILECONTROL_def Let_def
  by (elim block_elims) (erule eq_elims | hypsubst | rule steady_path | erule steady_into | erule up_peerI | assumption)+

lemma steady_offer_file [steady_ops]: "offer_file p z f s = Some (r, s') \<Longrightarrow> steady s s'"
  by (auto simp: offer_file_def core_simps simp del: upd_chan_Some split: if_splits
      dest!: steady_ops intro: steady_trans)

lemma steady_SENDFILEREQUEST: "procmsg_SENDFILEREQUEST b n p s = Some (r, s') \<Longrightarrow> steady s s'"
  unfolding procmsg_SENDFILEREQUEST_def Let_def
  by (elim block_elims; hypsubst?) (auto dest!: steady_offer_file)

lemma steady_ACCEPTEDFILE: "procmsg_ACCEPTEDFILE b n p s = Some (r, s') \<Longrightarrow> up p s \<Longrightarrow> steady s s'"
  unfolding procmsg_ACCEPTEDFILE_def Let_def
  by (elim block_elims) (erule eq_elims | hypsubst | rule steady_path | erule steady_into | erule up_peerI | assumption)+

lemma steady_DENIEDFILE: "procmsg_DENIEDFILE b n p s = Some (r, s') \<Longrightarrow> up p s \<Longrightarrow> steady s s'"
  unfolding procmsg_DENIEDFILE_def Let_def
  by (elim block_elims) (erule eq_elims | hypsubst | rule steady_path | erule steady_into | erule up_peerI | assumption)+

lemma steady_FILEFRAGMENT: "procmsg_FILEFRAGMENT b n p s = Some (r, s') \<Longrightarrow> up p s \<Longrightarrow> steady s s'"
  unfolding procmsg_FILEFRAGMENT_def Let_def
  by (elim block_elims) (erule eq_elims | hypsubst | rule steady_path | erule steady_into | erule up_peerI | assumption)+

lemma steady_file_fragment: "PICA_send_file_fragment p s = Some (r, s') \<Longrightarrow> up p s \<Longrightarrow> steady s s'"
  unfolding PICA_send_file_fragment_def Let_def
  by (elim block_elims) (erule eq_elims | hypsubst | rule steady_path | erule steady_into | erule up_peerI | assumption)+


lemma steady_addrlist [steady_ops]: "PICA_send_directc2caddrlist p s = Some s' \<Longrightarrow> steady s s'"
  unfolding PICA_send_directc2caddrlist_def Let_def
  by (elim block_elims) (erule eq_elims | hypsubst | rule steady_path | erule steady_into)+

lemma steady_direct_send [steady_ops]:
  "PICA_send_directc2cfailed p s = Some (r, s') \<Longrightarrow> steady s s'"
  "PICA_send_directc2c_switch p s = Some (r, s') \<Longrightarrow> steady s s'"
  unfolding PICA_send_directc2cfailed_def PICA_send_directc2c_switch_def Let_def
  by (elim block_elims; (erule eq_elims | hypsubst | rule steady_path | erule steady_into)+)+

lemma steady_connect_next [steady_ops]: "directc2c_connect_next d s = Some (r, s') \<Longrightarrow> steady s s'"
  unfolding directc2c_connect_next_def Let_def
  by (elim block_elims) (erule eq_elims | hypsubst | rule steady_path | erule steady_into)+

lemmas steady_into' = steady_ops [THEN steady_trans [rotated]]

lemma steady_ADDRLIST: "procmsg_PICA_PROTO_DIRECTC2C_ADDRLIST b n p s = Some (r, s') \<Longrightarrow> steady s s'"
  unfolding procmsg_PICA_PROTO_DIRECTC2C_ADDRLIST_def Let_def
  by (elim block_elims) (erule eq_elims | hypsubst | rule steady_path | erule steady_into')+

lemma steady_FAILED: "procmsg_PICA_PROTO_DIRECTC2C_FAILED b n p s = Some (r, s') \<Longrightarrow> steady s s'"
  unfolding procmsg_PICA_PROTO_DIRECTC2C_FAILED_def Let_def
  by (elim block_elims) (erule eq_elims | hypsubst | rule steady_path | erule steady_into')+

lemma steady_SWITCH: "procmsg_PICA_PROTO_DIRECTC2C_SWITCH b n p s = Some (r, s') \<Longrightarrow> steady s s'"
  unfolding procmsg_PICA_PROTO_DIRECTC2C_SWITCH_def Let_def
  by (elim block_elims) (erule eq_elims | hypsubst | rule steady_path | erule steady_into')+

text \<open>The end of the handshake on both sides: the channel was past TLS already.\<close>

lemma steady_established: 
  assumes "c2c_established p s = Some s'" "up p s" shows "steady s s'"
proof -
  from assms(2) obtain c where c: "chans s p = Some c" "past_tls c" by (auto simp: up_def)
  let ?t = "s\<lparr>chans := (chans s)(p \<mapsto> c\<lparr>ch_state := PICA_C2C_STATE_ACTIVE\<rparr>)\<rparr>"
  have "steady s ?t" using c by (auto simp: core_le_def intro: steady_upd)
  then have "steady s (emit (c2c_established_cb (ch_peer_id c)) ?t)"
    using c up_peerI [OF c(1) assms(2)] by (intro steady_emits)
  moreover have "steady (emit (c2c_established_cb (ch_peer_id c)) ?t) s'"
    using assms(1) c by (auto simp: c2c_established_def Let_def split: if_splits dest: steady_addrlist)
  ultimately show ?thesis by (rule steady_trans)
qed

lemma steady_C2CCONNREQ: 
  assumes "procmsg_C2CCONNREQ b n p s = Some (r, s')" "up p s" shows "steady s s'"
proof -
  have e: "steady s u" if "chan_send p i m x s = Some (ok, t)" "c2c_established p t = Some u" for i m x ok t u
    using steady_chan_send [OF that(1)] steady_established [OF that(2)] steady_up [OF _ assms(2)] steady_trans by blast
  from assms(1) show ?thesis
    unfolding procmsg_C2CCONNREQ_def Let_def
    by (elim block_elims) (erule eq_elims | hypsubst | erule (1) e | rule steady_path | erule steady_into')+
qed

lemma steady_INITRESP_c2c: "procmsg_INITRESP_c2c b n p s = Some (r, s') \<Longrightarrow> up p s \<Longrightarrow> steady s s'"
  unfolding procmsg_INITRESP_c2c_def Let_def
  by (elim block_elims) (erule eq_elims | hypsubst | erule (1) steady_established | rule steady_path)+


text \<open>Whatever the peer sends.\<close>

lemma steady_c2c_message:
  assumes "PICA_processmsg b n p s c2c_messages = Some (r, s')" "up p s" shows "steady s s'"
  using assms(1)
  by (auto simp: PICA_processmsg_def c2c_messages_def split: if_splits
      intro: assms(2) steady_MSGUTF8 steady_MSGOK steady_SENDFILEREQUEST steady_ACCEPTEDFILE steady_DENIEDFILE
        steady_FILEFRAGMENT steady_FILECONTROL steady_ADDRLIST steady_FAILED steady_SWITCH steady_C2CCONNREQ
        steady_INITRESP_c2c)

lemma steady_c2c_stream:
  "PICA_processdatastream b n p s c2c_messages = Some (r, b', n', s') \<Longrightarrow> up p s \<Longrightarrow> steady s s'"
proof (induction b n p s c2c_messages rule: PICA_processdatastream.induct)
  case (1 buf pos p s)
  from "1.prems"(1) show ?case
    apply (subst (asm) PICA_processdatastream.simps)
    using "1.hyps" "1.prems"(2) steady_c2c_message [OF _ "1.prems"(2)]
    apply (auto simp: Let_def split: op_splits)
    by (meson steady_trans steady_up)
qed

lemma steady_read_c2c [steady_ops]:
  assumes "PICA_read_c2c p s = Some (r, s')" shows "steady s s'"
proof -
  have u: "up p s" using assms by (auto simp: PICA_read_c2c_def up_def split: if_splits)
  have d: "steady s u" if "PICA_processdatastream b n p t c2c_messages = Some (r', b', n', u)" "steady s t"
    for b n t r' b' n' u
    using steady_c2c_stream [OF that(1)] steady_up [OF that(2) u] that(2) steady_trans by blast
  from assms show ?thesis
    unfolding PICA_read_c2c_def Let_def
    by (elim block_elims) (erule eq_elims | hypsubst | erule d | rule steady_path | erule steady_into')+
qed

subsection \<open>Operations that close channels or start them again\<close>

text \<open>
  The facts of \<open>tame_into\<close> lead from the state behind an operation to the state before it;
  a goal about the last state of a block is reduced along them to its first state.
\<close>

lemma tame_if: "tame s t \<Longrightarrow> tame s u \<Longrightarrow> tame s (if b then t else u)"
  by simp

lemmas [tame_into] = steady_ops [THEN steady_tame, THEN tame_trans [rotated]]

lemma tame_upd_chan [tame_into]:
  assumes "upd_chan p f s = Some s'" "tame s0 s" "\<And>c. core_le c (f c) \<or> \<not> past_tls (f c)" shows "tame s0 s'"
  using assms tame_upd [OF assms(2), of "f c" "chans s" p for c]
  by (fastforce simp: upd_chan_def split: option.splits)

lemma low_state:
  "core_le c c' \<Longrightarrow> core_le c c' \<or> \<not> past_tls c'"
  "core_le c (c\<lparr>ch_state := PICA_C2C_STATE_WAITINGANONTLS\<rparr>) \<or> \<not> past_tls (c\<lparr>ch_state := PICA_C2C_STATE_WAITINGANONTLS\<rparr>)"
  "core_le c (c\<lparr>ch_state := PICA_C2C_STATE_CONNID\<rparr>) \<or> \<not> past_tls (c\<lparr>ch_state := PICA_C2C_STATE_CONNID\<rparr>)"
  "core_le c (c\<lparr>ch_state := PICA_C2C_STATE_WAITINGANONTLSSHUTDOWN\<rparr>) \<or> \<not> past_tls (c\<lparr>ch_state := PICA_C2C_STATE_WAITINGANONTLSSHUTDOWN\<rparr>)"
  "core_le c (c\<lparr>ch_state := PICA_C2C_STATE_WAITINGTLS\<rparr>) \<or> \<not> past_tls (c\<lparr>ch_state := PICA_C2C_STATE_WAITINGTLS\<rparr>)"
  "core_le c (c\<lparr>ch_sck := x, ch_state := PICA_C2C_STATE_CONNECTING\<rparr>) \<or> \<not> past_tls (c\<lparr>ch_sck := x, ch_state := PICA_C2C_STATE_CONNECTING\<rparr>)"
  by simp_all

lemmas tame_path = tame_refl tame_if tame_frame [THEN iffD2] tame_emits low_state core_le_upd

lemma tame_close_directc2c [tame_into]: "PICA_close_directc2c d s = Some s' \<Longrightarrow> tame s0 s \<Longrightarrow> tame s0 s'"
  by (auto simp: PICA_close_directc2c_def split: option.splits)

lemma tame_close_c2c [tame_into]: "PICA_close_c2c p s = Some s' \<Longrightarrow> tame s0 s \<Longrightarrow> tame s0 s'"
  unfolding PICA_close_c2c_def Let_def
  by (elim block_elims)
    (erule eq_elims | hypsubst | rule tame_del | rule refl | rule tame_path | erule tame_into | assumption)+

lemma tame_close_chans_step: "close_chans cn s = Some s' \<Longrightarrow> tame s s'"
proof (erule close_chans.raw_induct [where P = "\<lambda>_. tame", rotated], goal_cases)
  case (1 rec cn s s')
  from 1(2) show ?case
    by (elim block_elims)
      (erule eq_elims | hypsubst | rule tame_path | erule 1(1) [THEN tame_trans [rotated]] | erule tame_into)+
qed

lemmas tame_close_chans [tame_into] = tame_close_chans_step [THEN tame_trans [rotated]]

lemma tame_close_c2n [tame_into]: "PICA_close_c2n cn s = Some s' \<Longrightarrow> tame s0 s \<Longrightarrow> tame s0 s'"
  by (auto simp: PICA_close_c2n_def dest!: tame_close_chans)

subsection \<open>Writing and the stages of a channel\<close>

lemma steady_write_before_barrier:
  assumes "write_before_barrier p c s = (r, c', s')" shows "steady s s'" "core_le c c'"
  using assms
  by (auto simp: write_before_barrier_def Let_def core_le_def dest!: steady_write_session split: prod.splits if_splits)

lemma tame_write_c2n [tame_into]:
  "PICA_write_c2n cn s = Some (r, s') \<Longrightarrow> tame s0 s \<Longrightarrow> tame s0 s'"
  unfolding PICA_write_c2n_def Let_def
  by (elim block_elims) (erule eq_elims | hypsubst | rule tame_path | erule tame_into | assumption)+

lemma tame_write_c2c [tame_into]: 
  assumes "PICA_write_c2c p s = Some (r, s')" "tame s0 s" shows "tame s0 s'"
proof -
  have b: "tame s0 u" if c: "chans s p = Some c"
     and e: "(if ch_write_barrier_pos c \<noteq> 0 then write_before_barrier p c s
       else let (ret, w, s) = write_session ses (ch_w c) s in (ret, c\<lparr>ch_w := w\<rparr>, s)) = (ret, c', t)"
     and u: "upd_chan p (\<lambda>_. c') t = Some u" for c ses ret c' t u
  proof -
    have st: "steady s t" "core_le c c'"
      using e steady_write_before_barrier [of p c s ret c' t]
      by (auto split: if_splits prod.splits simp: Let_def dest: steady_write_session)
    obtain d where d: "chans t p = Some d" "core_le c d" using steady_chan' [OF st(1) c] by blast
    have "core_le d c'" using st(2) d(2) by (simp add: core_le_def)
    then have "steady t u" using d(1) u by (auto intro: steady_upd)
    with st(1) assms(2) show ?thesis using steady_tame tame_trans by blast
  qed
  from assms(1) show ?thesis
    unfolding PICA_write_c2c_def Let_def
    by (elim block_elims) (erule eq_elims | hypsubst | erule (2) b [unfolded Let_def] | rule tame_path | erule tame_close_c2c)+
qed

lemma tame_c2c_stage2 [tame_into]:
  "c2c_stage2_startanontls p s = Some (r, s') \<Longrightarrow> tame s0 s \<Longrightarrow> tame s0 s'"
  unfolding c2c_stage2_startanontls_def Let_def
  by (elim block_elims) (erule eq_elims | hypsubst | rule tame_path | erule tame_into | assumption)+

lemma tame_c2c_stage3 [tame_into]:
  "c2c_stage3_connid p s = Some (r, s') \<Longrightarrow> tame s0 s \<Longrightarrow> tame s0 s'"
  unfolding c2c_stage3_connid_def Let_def
  by (elim block_elims) (erule eq_elims | hypsubst | rule tame_path | erule tame_into | assumption)+

lemma tame_c2c_stage4 [tame_into]:
  "c2c_stage4_shutdownanontls p s = Some (r, s') \<Longrightarrow> tame s0 s \<Longrightarrow> tame s0 s'"
  unfolding c2c_stage4_shutdownanontls_def Let_def
  by (elim block_elims) (erule eq_elims | hypsubst | rule tame_path | erule tame_into | assumption)+

lemma tame_c2c_stage5 [tame_into]:
  "c2c_stage5_starttls p s = Some (r, s') \<Longrightarrow> tame s0 s \<Longrightarrow> tame s0 s'"
  unfolding c2c_stage5_starttls_def Let_def
  by (elim block_elims) (erule eq_elims | hypsubst | rule tame_path | erule tame_into | assumption)+

lemma tame_c2c_start [tame_into]:
  "c2c_start p s = Some (r, s') \<Longrightarrow> tame s0 s \<Longrightarrow> tame s0 s'"
  unfolding c2c_start_def Let_def
  by (elim block_elims) (erule eq_elims | hypsubst | rule tame_path | erule tame_into | assumption)+

lemma tame_direct_stage2 [tame_into]:
  "directc2c_stage2_starttls d s = Some (r, s') \<Longrightarrow> tame s0 s \<Longrightarrow> tame s0 s'"
  unfolding directc2c_stage2_starttls_def Let_def
  by (elim block_elims) (erule eq_elims | hypsubst | rule tame_path | erule tame_into | assumption)+


subsection \<open>Direct connections\<close>

lemma tame_write_link [tame_into]: "write_link l v s = Some s' \<Longrightarrow> tame s0 s \<Longrightarrow> tame s0 s'"
  by (cases l) (auto split: option.splits elim: tame_into)

lemma tame_listener_add [tame_into]:
  "listener_add_connection l x s = Some s' \<Longrightarrow> tame s0 s \<Longrightarrow> tame s0 s'"
  unfolding listener_add_connection_def Let_def
  by (elim block_elims) (erule eq_elims | hypsubst | rule tame_path | erule tame_into | assumption)+

lemma tame_listener_conn [tame_into]:
  "process_listener_conn rs ws d s = Some (r, s') \<Longrightarrow> tame s0 s \<Longrightarrow> tame s0 s'"
  unfolding process_listener_conn_def Let_def
  by (elim block_elims) (erule eq_elims | hypsubst | rule tame_path | erule tame_into | assumption)+

lemma tame_listener_loop_step: "listener_loop rs ws l c s = Some s' \<Longrightarrow> tame s s'"
proof (erule listener_loop.raw_induct [where P = "\<lambda>_ _ _ _. tame", rotated], goal_cases)
  case (1 rec rs ws l c s s')
  from 1(2) show ?case
    by (elim block_elims)
      (erule eq_elims | hypsubst | rule tame_path | erule 1(1) [THEN tame_trans [rotated]] | erule tame_into)+
qed

lemmas tame_listener_loop [tame_into] = tame_listener_loop_step [THEN tame_trans [rotated]]

lemma tame_listener [tame_into]:
  "process_listener rs ws l s = Some (r, s') \<Longrightarrow> tame s0 s \<Longrightarrow> tame s0 s'"
  unfolding process_listener_def Let_def
  by (elim block_elims) (erule eq_elims | hypsubst | rule tame_path | erule tame_into | assumption)+

lemma tame_close_accepted_step: "close_accepted l s = Some s' \<Longrightarrow> tame s s'"
proof (erule close_accepted.raw_induct [where P = "\<lambda>_. tame", rotated], goal_cases)
  case (1 rec l s s')
  from 1(2) show ?case
    by (elim block_elims)
      (erule eq_elims | hypsubst | rule tame_path | erule 1(1) [THEN tame_trans [rotated]] | erule tame_into)+
qed

lemmas tame_close_accepted [tame_into] = tame_close_accepted_step [THEN tame_trans [rotated]]

lemma tame_close_listener [tame_into]:
  "PICA_close_listener l s = Some s' \<Longrightarrow> tame s0 s \<Longrightarrow> tame s0 s'"
  unfolding PICA_close_listener_def Let_def
  by (elim block_elims) (erule eq_elims | hypsubst | rule tame_path | erule tame_into | assumption)+

lemma tame_verify [tame_into]: "verify_peer_cert_common i s = (r, x, s') \<Longrightarrow> tame s0 s \<Longrightarrow> tame s0 s'"
  by (auto simp: verify_peer_cert_common_def sys_call_def Let_def split: op_splits)

lemma tame_connect_result [tame_into]: "check_async_connect_result s = (r, s') \<Longrightarrow> tame s0 s \<Longrightarrow> tame s0 s'"
  by (auto simp: check_async_connect_result_def sys_call_def)

lemma tame_direct_verify [tame_into]:
  "directc2c_verify_peer_cert d i s = Some (r, s') \<Longrightarrow> tame s0 s \<Longrightarrow> tame s0 s'"
  unfolding directc2c_verify_peer_cert_def Let_def
  by (elim block_elims) (erule eq_elims | hypsubst | rule tame_path | erule tame_into | assumption)+

lemma tame_accept_direct [tame_into]:
  "accept_direct p d s = Some s' \<Longrightarrow> tame s0 s \<Longrightarrow> tame s0 s'"
  unfolding accept_direct_def Let_def
  by (elim block_elims) (erule eq_elims | hypsubst | rule tame_path | erule tame_into | assumption)+

lemma tame_accepted_loop_step: "accepted_loop cn l c s = Some s' \<Longrightarrow> tame s s'"
proof (erule accepted_loop.raw_induct [where P = "\<lambda>_ _ _. tame", rotated], goal_cases)
  case (1 rec cn l c s s')
  from 1(2) show ?case
    by (elim block_elims)
      (erule eq_elims | hypsubst | rule tame_path | erule 1(1) [THEN tame_trans [rotated]] | erule tame_into)+
qed

lemmas tame_accepted_loop [tame_into] = tame_accepted_loop_step [THEN tame_trans [rotated]]

lemma tame_direct_waitingtls [tame_into]:
  "direct_waitingtls p d s = Some s' \<Longrightarrow> tame s0 s \<Longrightarrow> tame s0 s'"
  unfolding direct_waitingtls_def Let_def
  by (elim block_elims) (erule eq_elims | hypsubst | rule tame_path | erule tame_into | assumption)+

lemma dstate_SomeE:
  assumes "(case x of PICA_DIRECTC2C_CONNSTATE_CONNECTING \<Rightarrow> a | PICA_DIRECTC2C_CONNSTATE_WAITINGTLS \<Rightarrow> b | PICA_DIRECTC2C_CONNSTATE_FAILED \<Rightarrow> c | PICA_DIRECTC2C_CONNSTATE_ACTIVE \<Rightarrow> d | PICA_DIRECTC2C_CONNSTATE_NEW \<Rightarrow> e) = Some z"
  and "x = PICA_DIRECTC2C_CONNSTATE_CONNECTING \<Longrightarrow> a = Some z \<Longrightarrow> P"
  and "x = PICA_DIRECTC2C_CONNSTATE_WAITINGTLS \<Longrightarrow> b = Some z \<Longrightarrow> P"
  and "x = PICA_DIRECTC2C_CONNSTATE_FAILED \<Longrightarrow> c = Some z \<Longrightarrow> P"
  and "x = PICA_DIRECTC2C_CONNSTATE_ACTIVE \<Longrightarrow> d = Some z \<Longrightarrow> P"
  and "x = PICA_DIRECTC2C_CONNSTATE_NEW \<Longrightarrow> e = Some z \<Longrightarrow> P"
  shows P
  using assms by (cases x) simp_all

lemma c2n_state_SomeE:
  assumes "(case x of PICA_C2N_STATE_NEW \<Rightarrow> a | PICA_C2N_STATE_CONNECTING \<Rightarrow> b | PICA_C2N_STATE_WAITINGANONTLS \<Rightarrow> c | PICA_C2N_STATE_WAITINGREP \<Rightarrow> d | PICA_C2N_STATE_WAITINGANONTLSSHUTDOWN \<Rightarrow> e | PICA_C2N_STATE_WAITINGTLS \<Rightarrow> f | PICA_C2N_STATE_CONNECTED \<Rightarrow> g) = Some z"
  and "x = PICA_C2N_STATE_NEW \<Longrightarrow> a = Some z \<Longrightarrow> P"
  and "x = PICA_C2N_STATE_CONNECTING \<Longrightarrow> b = Some z \<Longrightarrow> P"
  and "x = PICA_C2N_STATE_WAITINGANONTLS \<Longrightarrow> c = Some z \<Longrightarrow> P"
  and "x = PICA_C2N_STATE_WAITINGREP \<Longrightarrow> d = Some z \<Longrightarrow> P"
  and "x = PICA_C2N_STATE_WAITINGANONTLSSHUTDOWN \<Longrightarrow> e = Some z \<Longrightarrow> P"
  and "x = PICA_C2N_STATE_WAITINGTLS \<Longrightarrow> f = Some z \<Longrightarrow> P"
  and "x = PICA_C2N_STATE_CONNECTED \<Longrightarrow> g = Some z \<Longrightarrow> P"
  shows P
  using assms by (cases x) simp_all

lemma c2c_state_SomeE:
  assumes "(case x of PICA_C2C_STATE_NEW \<Rightarrow> a | PICA_C2C_STATE_CONNECTING \<Rightarrow> b | PICA_C2C_STATE_WAITINGANONTLS \<Rightarrow> c | PICA_C2C_STATE_CONNID \<Rightarrow> d | PICA_C2C_STATE_WAITINGANONTLSSHUTDOWN \<Rightarrow> e | PICA_C2C_STATE_WAITINGTLS \<Rightarrow> f | PICA_C2C_STATE_WAITINGREP \<Rightarrow> g | PICA_C2C_STATE_WAITINGC2CPROTOVER \<Rightarrow> h | PICA_C2C_STATE_ACTIVE \<Rightarrow> i) = Some z"
  and "x = PICA_C2C_STATE_NEW \<Longrightarrow> a = Some z \<Longrightarrow> P"
  and "x = PICA_C2C_STATE_CONNECTING \<Longrightarrow> b = Some z \<Longrightarrow> P"
  and "x = PICA_C2C_STATE_WAITINGANONTLS \<Longrightarrow> c = Some z \<Longrightarrow> P"
  and "x = PICA_C2C_STATE_CONNID \<Longrightarrow> d = Some z \<Longrightarrow> P"
  and "x = PICA_C2C_STATE_WAITINGANONTLSSHUTDOWN \<Longrightarrow> e = Some z \<Longrightarrow> P"
  and "x = PICA_C2C_STATE_WAITINGTLS \<Longrightarrow> f = Some z \<Longrightarrow> P"
  and "x = PICA_C2C_STATE_WAITINGREP \<Longrightarrow> g = Some z \<Longrightarrow> P"
  and "x = PICA_C2C_STATE_WAITINGC2CPROTOVER \<Longrightarrow> h = Some z \<Longrightarrow> P"
  and "x = PICA_C2C_STATE_ACTIVE \<Longrightarrow> i = Some z \<Longrightarrow> P"
  shows P
  using assms by (cases x) simp_all

lemma sum_SomeE:
  assumes "(case x of Inl u \<Rightarrow> f u | Inr v \<Rightarrow> g v) = Some z"
  obtains u where "x = Inl u" "f u = Some z" | v where "x = Inr v" "g v = Some z"
  using assms by (cases x) simp_all

lemmas state_elims = block_elims dstate_SomeE c2n_state_SomeE c2c_state_SomeE sum_SomeE

lemma tame_direct_connecting [tame_into]:
  "direct_connecting rs ws p s = Some s' \<Longrightarrow> tame s0 s \<Longrightarrow> tame s0 s'"
  unfolding direct_connecting_def Let_def
  by (elim state_elims) (erule eq_elims | hypsubst | rule tame_path | erule tame_into | assumption)+

lemma tame_direct_failed [tame_into]:
  "direct_failedtoconnect p s = Some s' \<Longrightarrow> tame s0 s \<Longrightarrow> tame s0 s'"
  unfolding direct_failedtoconnect_def Let_def
  by (elim block_elims) (erule eq_elims | hypsubst | rule tame_path | erule tame_into | assumption)+

lemma tame_direct_step [tame_into]:
  "direct_step rs ws p s = Some s' \<Longrightarrow> tame s0 s \<Longrightarrow> tame s0 s'"
  unfolding direct_step_def Let_def
  by (elim block_elims) (erule eq_elims | hypsubst | rule tame_path | erule tame_into | assumption)+

lemma tame_direct_loop [tame_into]: "direct_loop rs ws ps s = Some s' \<Longrightarrow> tame s0 s \<Longrightarrow> tame s0 s'"
  by (induction ps arbitrary: s) (auto dest: tame_direct_step)

lemma tame_process_directc2c [tame_into]:
  "process_directc2c rs ws cn s = Some s' \<Longrightarrow> tame s0 s \<Longrightarrow> tame s0 s'"
  unfolding process_directc2c_def Let_def
  by (elim block_elims) (erule eq_elims | hypsubst | rule tame_path | erule tame_into | assumption)+

subsection \<open>Connections to a node\<close>

lemma tame_c2n_stage2 [tame_into]:
  "c2n_stage2_startanontls cn s = Some (r, s') \<Longrightarrow> tame s0 s \<Longrightarrow> tame s0 s'"
  unfolding c2n_stage2_startanontls_def Let_def
  by (elim state_elims) (erule eq_elims | hypsubst | rule tame_path | erule tame_into | assumption)+

lemma tame_c2n_stage3 [tame_into]:
  "c2n_stage3_sendreq cn s = Some (r, s') \<Longrightarrow> tame s0 s \<Longrightarrow> tame s0 s'"
  unfolding c2n_stage3_sendreq_def Let_def
  by (elim state_elims) (erule eq_elims | hypsubst | rule tame_path | erule tame_into | assumption)+

lemma tame_c2n_stage4 [tame_into]:
  "c2n_stage4_shutdownanontls cn s = Some (r, s') \<Longrightarrow> tame s0 s \<Longrightarrow> tame s0 s'"
  unfolding c2n_stage4_shutdownanontls_def Let_def
  by (elim state_elims) (erule eq_elims | hypsubst | rule tame_path | erule tame_into | assumption)+

lemma tame_c2n_stage5 [tame_into]:
  "c2n_stage5_starttls cn s = Some (r, s') \<Longrightarrow> tame s0 s \<Longrightarrow> tame s0 s'"
  unfolding c2n_stage5_starttls_def Let_def
  by (elim state_elims) (erule eq_elims | hypsubst | rule tame_path | erule tame_into | assumption)+

lemma tame_multilogin [tame_into]:
  "c2n_optstage7_multilogin cn s = Some (r, s') \<Longrightarrow> tame s0 s \<Longrightarrow> tame s0 s'"
  unfolding c2n_optstage7_multilogin_def Let_def
  by (elim state_elims) (erule eq_elims | hypsubst | rule tame_path | erule tame_into | assumption)+

lemma tame_c2n_stage6 [tame_into]:
  "c2n_stage6_nodelistrequest cn s = Some (r, s') \<Longrightarrow> tame s0 s \<Longrightarrow> tame s0 s'"
  unfolding c2n_stage6_nodelistrequest_def Let_def
  by (elim state_elims) (erule eq_elims | hypsubst | rule tame_path | erule tame_into | assumption)+

lemma new_c2c_low: "\<not> past_tls (new_c2c n cn i b t ok)"
  by (simp add: new_c2c_def)

lemma tame_new: "tame s t \<Longrightarrow> \<not> past_tls c \<Longrightarrow> h = chans t \<Longrightarrow> tame s (t\<lparr>chans := h(p \<mapsto> c)\<rparr>)"
  by (rule tame_upd) simp_all

lemma tame_alloc_c2c [tame_into]: "c2n_alloc_c2c cn i b s = Some (r, s') \<Longrightarrow> tame s0 s \<Longrightarrow> tame s0 s'"
  unfolding c2n_alloc_c2c_def Let_def
  by (elim block_elims)
    (erule eq_elims | hypsubst | rule tame_new | rule new_c2c_low | rule tame_path | assumption | simp (no_asm))+

lemma tame_new_c2c [tame_into]:
  "PICA_new_c2c cn i s = Some (r, x, s') \<Longrightarrow> tame s0 s \<Longrightarrow> tame s0 s'"
  unfolding PICA_new_c2c_def Let_def
  by (elim block_elims) (erule eq_elims | hypsubst | rule tame_path | erule tame_into | assumption)+

lemma tame_new_c2n [tame_into]:
  "PICA_new_c2n a b c d e l s = Some (r, x, s') \<Longrightarrow> tame s0 s \<Longrightarrow> tame s0 s'"
  unfolding PICA_new_c2n_def Let_def
  by (cases a; cases b; simp only: prod.case option.case; elim state_elims) (erule eq_elims | hypsubst | rule tame_path | erule tame_into | assumption)+

lemma tame_flush_step: "flush_c2n cn s = Some x \<Longrightarrow> tame s (snd x)"
proof (erule flush_c2n.raw_induct [where P = "\<lambda>_ s x. tame s (snd x)", rotated], goal_cases)
  case (1 rec cn s x)
  have w: "tame s t" if "PICA_write_c2n cn s = Some (r, t)" for r t
    by (rule tame_write_c2n [OF that tame_refl])
  from 1(2) show ?case
    by (auto split: if_splits dest!: w 1(1) intro: tame_trans)
qed

lemma tame_flush [tame_into]: "flush_c2n cn s = Some (r, s') \<Longrightarrow> tame s0 s \<Longrightarrow> tame s0 s'"
  using tame_flush_step [of cn s "(r, s')"] tame_trans by simp

lemma tame_clnodelist [tame_into]: "clnodelist_loop b n i s = Some (r, s') \<Longrightarrow> tame s0 s \<Longrightarrow> tame s0 s'"
proof (induction b n i s rule: clnodelist_loop.induct)
  case (1 b n i s)
  have e: "tame s0 (emit cb s)" if "clnodelist_item b i = Some (Some (cb, k))" for cb k
    using that "1.prems"(2) by (auto simp: clnodelist_item_def split: if_splits intro: tame_emits)
  from "1.prems" "1.IH" e show ?case
    by (subst (asm) clnodelist_loop.simps) (auto split: option.splits prod.splits if_splits)
qed

lemma tame_CLNODELIST: "procmsg_CLNODELIST b n cn s = Some (r, s') \<Longrightarrow> tame s0 s \<Longrightarrow> tame s0 s'"
  unfolding procmsg_CLNODELIST_def by (rule tame_clnodelist)

lemma tame_INITRESP [tame_into]:
  "procmsg_INITRESP b n cn s = Some (r, s') \<Longrightarrow> tame s0 s \<Longrightarrow> tame s0 s'"
  unfolding procmsg_INITRESP_def Let_def
  by (elim block_elims) (erule eq_elims | hypsubst | rule tame_path | erule tame_into | assumption)+

lemma tame_CONNREQINC [tame_into]:
  "procmsg_CONNREQINC b n cn s = Some (r, s') \<Longrightarrow> tame s0 s \<Longrightarrow> tame s0 s'"
  unfolding procmsg_CONNREQINC_def Let_def
  by (elim block_elims) (erule eq_elims | hypsubst | rule tame_path | erule tame_into | assumption)+

lemma tame_NOTFOUND [tame_into]:
  "procmsg_NOTFOUND b n cn s = Some (r, s') \<Longrightarrow> tame s0 s \<Longrightarrow> tame s0 s'"
  unfolding procmsg_NOTFOUND_def Let_def
  by (elim block_elims) (erule eq_elims | hypsubst | rule tame_path | erule tame_into | assumption)+

lemma tame_FOUND [tame_into]:
  "procmsg_FOUND b n cn s = Some (r, s') \<Longrightarrow> tame s0 s \<Longrightarrow> tame s0 s'"
  unfolding procmsg_FOUND_def Let_def
  by (elim block_elims) (erule eq_elims | hypsubst | rule tame_path | erule tame_into | assumption)+

lemma tame_PINGREQ [tame_into]:
  "procmsg_PINGREQ b n cn s = Some (r, s') \<Longrightarrow> tame s0 s \<Longrightarrow> tame s0 s'"
  unfolding procmsg_PINGREQ_def Let_def
  by (elim block_elims) (erule eq_elims | hypsubst | rule tame_path | erule tame_into | assumption)+

lemma tame_MULTILOGIN [tame_into]:
  "procmsg_MULTILOGIN b n cn s = Some (r, s') \<Longrightarrow> tame s0 s \<Longrightarrow> tame s0 s'"
  unfolding procmsg_MULTILOGIN_def Let_def
  by (elim block_elims) (erule eq_elims | hypsubst | rule tame_path | erule tame_into | assumption)+

lemma tame_c2n_message:
  "PICA_processmsg b n cn s c2n_messages = Some (r, s') \<Longrightarrow> tame s0 s \<Longrightarrow> tame s0 s'"
  by (auto simp: PICA_processmsg_def c2n_messages_def split: if_splits
      intro: tame_INITRESP tame_CONNREQINC tame_NOTFOUND tame_FOUND tame_CLNODELIST tame_PINGREQ tame_MULTILOGIN)

lemma tame_c2n_stream [tame_into]:
  "PICA_processdatastream b n cn s c2n_messages = Some (r, b', n', s') \<Longrightarrow> tame s0 s \<Longrightarrow> tame s0 s'"
proof (induction b n cn s c2n_messages rule: PICA_processdatastream.induct)
  case (1 buf pos cn s)
  from "1.prems"(1) "1.hyps" "1.prems"(2) tame_c2n_message [OF _ "1.prems"(2)] show ?case
    by (subst (asm) PICA_processdatastream.simps) (auto simp: Let_def split: op_splits)
qed

lemma tame_read_c2n [tame_into]:
  "PICA_read_c2n cn s = Some (r, s') \<Longrightarrow> tame s0 s \<Longrightarrow> tame s0 s'"
  unfolding PICA_read_c2n_def Let_def
  by (elim block_elims) (erule eq_elims | hypsubst | rule tame_path | erule tame_into | assumption)+

lemma tame_c2n_write_read [tame_into]:
  "c2n_write_read rs ws cn s = Some (r, s') \<Longrightarrow> tame s0 s \<Longrightarrow> tame s0 s'"
  unfolding c2n_write_read_def Let_def
  by (elim block_elims) (erule eq_elims | hypsubst | rule tame_path | erule tame_into | assumption)+

lemma tame_c2n_waitingrep [tame_into]:
  "c2n_waitingrep rs ws cn s = Some (r, s') \<Longrightarrow> tame s0 s \<Longrightarrow> tame s0 s'"
  unfolding c2n_waitingrep_def Let_def
  by (elim block_elims) (erule eq_elims | hypsubst | rule tame_path | erule tame_into | assumption)+

lemma tame_process_c2n [tame_into]:
  "process_c2n rs ws cn s = Some (r, s') \<Longrightarrow> tame s0 s \<Longrightarrow> tame s0 s'"
  unfolding process_c2n_def Let_def
  by (elim state_elims) (erule eq_elims | hypsubst | rule tame_path | erule tame_into | assumption)+

subsection \<open>What the loop waits for\<close>

lemma tame_add_accepted_step: "add_accepted c i s = Some x \<Longrightarrow> tame s (snd x)"
proof (erule add_accepted.raw_induct [where P = "\<lambda>_ _ s x. tame s (snd x)", rotated], goal_cases)
  case (1 rec c i s x)
  have u: "tame s t" if "upd_direct d f s = Some t" for d f t
    using that by (auto simp: upd_direct_def split: option.splits)
  from 1(2) show ?case
    by (auto split: option.splits simp del: upd_direct_Some dest!: u 1(1) intro: tame_trans)
qed

lemma tame_add_accepted [tame_into]: "add_accepted c i s = Some (r, s') \<Longrightarrow> tame s0 s \<Longrightarrow> tame s0 s'"
  using tame_add_accepted_step [of c i s "(r, s')"] tame_trans by simp

lemma tame_add_direct [tame_into]:
  "add_direct p i s = Some (r, s') \<Longrightarrow> tame s0 s \<Longrightarrow> tame s0 s'"
  unfolding add_direct_def Let_def
  by (elim block_elims) (erule eq_elims | hypsubst | rule tame_path | erule tame_into | assumption)+

lemma tame_add_chan [tame_into]:
  "add_chan p i s = Some (r, s') \<Longrightarrow> tame s0 s \<Longrightarrow> tame s0 s'"
  unfolding add_chan_def Let_def
  by (elim block_elims) (erule eq_elims | hypsubst | rule tame_path | erule tame_into | assumption)+

lemma tame_add_chans [tame_into]: "add_chans ps i s = Some (r, s') \<Longrightarrow> tame s0 s \<Longrightarrow> tame s0 s'"
  by (induction ps arbitrary: i s) (auto dest: tame_add_chan)

lemma tame_add_conn [tame_into]:
  "add_conn cn i s = Some (r, s') \<Longrightarrow> tame s0 s \<Longrightarrow> tame s0 s'"
  unfolding add_conn_def Let_def
  by (elim block_elims) (erule eq_elims | hypsubst | rule tame_path | erule tame_into | assumption)+

lemma tame_add_conns [tame_into]: "add_conns cns i s = Some (r, s') \<Longrightarrow> tame s0 s \<Longrightarrow> tame s0 s'"
  by (induction cns arbitrary: i s) (auto dest: tame_add_conn)

section \<open>The end of the TLS handshake\<close>

lemma verify_trusted:
  assumes "verify_peer_cert_common i s = (PICA_OK, x, s')"
  shows "\<exists>cert. x = Some cert \<and> trusted (lext s') i cert"
  using assms
  by (auto simp: verify_peer_cert_common_def sys_call_def Let_def trusted_def split: op_splits intro: sym)

lemma auth_upd:
  assumes "auth s" "past_tls c \<Longrightarrow> \<exists>cert. ch_peer_cert c = Some cert \<and> trusted (lext s) (ch_peer_id c) cert"
  shows "auth (s\<lparr>chans := (chans s)(p \<mapsto> c)\<rparr>)"
  using assms by (auto simp: auth_def chans_auth_def events_auth_def)

text \<open>A verified certificate is kept in the channel, whose state is not past the handshake yet.\<close>

lemma verify_chan:
  assumes "c2c_verify_peer_cert p s = Some (r, s')" "auth s" "chans s p = Some c" "\<not> past_tls c"
  obtains x where "auth s'" "chans s' p = Some (c\<lparr>ch_peer_cert := x\<rparr>)"
    "r = PICA_OK \<Longrightarrow> \<exists>cert. x = Some cert \<and> trusted (lext s') (ch_peer_id c) cert"
proof -
  obtain r' x t where v: "verify_peer_cert_common (ch_peer_id c) s = (r', x, t)" by (metis prod_cases3)
  then have t: "chans t = chans s" "tame s t"
    using tame_verify [OF v tame_refl]
    by (auto simp: verify_peer_cert_common_def sys_call_def Let_def split: op_splits)
  have s': "s' = t\<lparr>chans := (chans t)(p \<mapsto> c\<lparr>ch_peer_cert := x\<rparr>)\<rparr>" "r' = r"
    using assms(1,3) v t(1) by (auto simp: c2c_verify_peer_cert_def)
  have "auth s'" unfolding s' using tame_auth [OF t(2) assms(2)] assms(4) by (intro auth_upd) simp_all
  moreover have "\<exists>cert. x = Some cert \<and> trusted (lext s') (ch_peer_id c) cert" if "r = PICA_OK"
    using verify_trusted [of "ch_peer_id c" s x t] v s' that by simp
  ultimately show thesis using that [of x] s'(1) by simp
qed

lemma chan_send_chan:
  assumes "chan_send p i m t s = Some (ok, s')" "chans s p = Some c"
  obtains w where "chans s' p = Some (c\<lparr>ch_w := w\<rparr>)" "lext s' = lext s"
  using assms by (auto simp: chan_send_def split: prod.splits)

lemma auth_connreq:
  assumes "c2c_stage6_sendc2cconnreq p s = Some (r, s')" "auth s" "chans s p = Some c"
    "\<exists>cert. ch_peer_cert c = Some cert \<and> trusted (lext s) (ch_peer_id c) cert"
  shows "auth s'"
proof -
  from assms(1) obtain ok x where x: "chan_send p PICA_PROTO_C2CCONNREQ PICA_PROTO_C2CCONNREQ_SIZE
      [PICA_C2CPROTO_VER_HIGH, PICA_C2CPROTO_VER_LOW] s = Some (ok, x)"
    and u: "s' = x \<or> upd_chan p (\<lambda>c. c\<lparr>ch_state := PICA_C2C_STATE_WAITINGREP\<rparr>) x = Some s'"
    by (auto simp: c2c_stage6_sendc2cconnreq_def simp del: upd_chan_Some split: if_splits)
  have ax: "auth x" using steady_tame [OF steady_chan_send [OF x]] assms(2) by (rule tame_auth)
  from chan_send_chan [OF x assms(3)] obtain w where "chans x p = Some (c\<lparr>ch_w := w\<rparr>)" "lext x = lext s" .
  with u ax assms(4) show ?thesis by (auto intro: auth_upd)
qed

lemma auth_waitingtls:
  assumes "c2c_waitingtls p s = Some (r, s')" "auth s" "chans s p = Some c" "\<not> past_tls c"
  shows "auth s'"
proof -
  obtain a t where a: "sys_call s = (a, t)" by (cases "sys_call s")
  have t: "chans t p = Some c" "auth t"
    using a tame_auth [of s t] assms(2,3) by (auto simp: sys_call_def)
  have w: "auth u" if "want_chan p b t = Some u" for b u
    using steady_tame [OF steady_want(1) [OF that]] t(2) by (rule tame_auth)
  have v: "auth v" if v: "c2c_verify_peer_cert p t = Some (q, v)" for q v
    using verify_chan [OF v t(2,1) assms(4)] by blast
  have out: "auth u" if v: "c2c_verify_peer_cert p t = Some (PICA_OK, v)"
    and 6: "c2c_stage6_sendc2cconnreq p v = Some (q, u)" for v q u
  proof (rule verify_chan [OF v t(2,1) assms(4)])
    fix x assume "auth v" "chans v p = Some (c\<lparr>ch_peer_cert := x\<rparr>)"
      "PICA_OK = PICA_OK \<Longrightarrow> \<exists>cert. x = Some cert \<and> trusted (lext v) (ch_peer_id c) cert"
    then show "auth u" by (auto intro!: auth_connreq [OF 6])
  qed
  have inc: "auth u" if v: "c2c_verify_peer_cert p t = Some (PICA_OK, v)"
    and u: "upd_chan p (\<lambda>c. c\<lparr>ch_state := PICA_C2C_STATE_WAITINGC2CPROTOVER\<rparr>) v = Some u" for v u
  proof (rule verify_chan [OF v t(2,1) assms(4)])
    fix x assume "auth v" "chans v p = Some (c\<lparr>ch_peer_cert := x\<rparr>)"
      "PICA_OK = PICA_OK \<Longrightarrow> \<exists>cert. x = Some cert \<and> trusted (lext v) (ch_peer_id c) cert"
    with u show "auth u" by (auto intro: auth_upd)
  qed
  from assms(1) show ?thesis
    unfolding c2c_waitingtls_def Let_def a prod.case
    by (elim block_elims; insert t(2)) (auto simp del: upd_chan_Some dest: w v out inc)
qed

section \<open>The event loop\<close>

lemma tame_c2c_active:
  assumes "c2c_active rs ws p s = Some (r, s')" "chans s p = Some c" "past_tls c" shows "tame s s'"
proof -
  have f: "tame s t" if "PICA_send_file_fragment p s = Some (q, t)" for q t
    using steady_file_fragment [OF that] assms(2,3) by (auto simp: up_def intro: steady_tame)
  from assms(1) show ?thesis
    unfolding c2c_active_def Let_def
    by (elim block_elims) (erule eq_elims | hypsubst | erule f | rule tame_path | erule tame_into)+
qed

lemma tame_handshake_io: "c2c_handshake_io rs ws p s = Some (r, s') \<Longrightarrow> tame s0 s \<Longrightarrow> tame s0 s'"
  unfolding c2c_handshake_io_def Let_def
  by (elim block_elims) (erule eq_elims | hypsubst | rule tame_path | erule tame_into | assumption)+

lemma auth_dispatch:
  assumes "c2c_dispatch rs ws p s = Some (r, s')" "auth s" shows "auth s'"
proof -
  have h: "auth t" if "tame s t" for t using that assms(2) by (rule tame_auth)
  have tls: "auth t" if "chans s p = Some c" "ch_state c = PICA_C2C_STATE_WAITINGTLS" "c2c_waitingtls p s = Some (q, t)" for c q t
    using auth_waitingtls [OF that(3) assms(2) that(1)] that(2) by simp
  have act: "tame s t" if "chans s p = Some c" "ch_state c = PICA_C2C_STATE_ACTIVE" "c2c_active rs ws p s = Some (q, t)" for c q t
    using tame_c2c_active [OF that(3,1)] that(2) by simp
  from assms(1) show ?thesis
    unfolding c2c_dispatch_def Let_def
    by (elim state_elims) (erule (2) tls | (rule h,
      (erule (2) act | erule eq_elims | hypsubst | rule tame_path | erule tame_into | erule tame_handshake_io)+))+
qed

lemma auth_process_c2c:
  assumes "process_c2c rs ws p s = Some (r, s')" "auth s" shows "auth s'"
proof -
  from assms(1) obtain q t where d: "c2c_dispatch rs ws p s = Some (q, t)" and s': "tame t s'"
    unfolding process_c2c_def Let_def
    by (elim block_elims; hypsubst) (auto simp: tame_emits split: if_splits)
  from s' auth_dispatch [OF d assms(2)] show ?thesis by (rule tame_auth)
qed

lemma auth_chan_loop_step: "chan_loop rs ws cn c s = Some s' \<Longrightarrow> auth s \<longrightarrow> auth s'"
proof (erule chan_loop.raw_induct [where P = "\<lambda>_ _ _ _ s s'. auth s \<longrightarrow> auth s'", rotated], goal_cases)
  case (1 rec rs ws cn c s s')
  have c: "auth u" if "PICA_close_c2c p t = Some u" "auth t" for p t u
    using tame_close_c2c [OF that(1) tame_refl] that(2) by (rule tame_auth)
  from 1(2) show ?case
    by (auto simp: Let_def split: option.splits if_splits dest!: 1(1) auth_process_c2c c)
qed

lemma auth_event_conn:
  assumes "event_conn rs ws cn s = Some s'" "auth s" shows "auth s'"
proof -
  have n: "auth t" if "process_c2n rs ws cn s = Some (r, t)" for r t
    using tame_process_c2n [OF that tame_refl] assms(2) by (rule tame_auth)
  have l: "auth u" if "auth t" "tame t u" for t u using that(2,1) by (rule tame_auth)
  have d: "auth u" if "process_directc2c rs ws cn t = Some u" "auth t" for t u
    using tame_process_directc2c [OF that(1) tame_refl] that(2) by (rule tame_auth)
  have k: "auth u" if "chan_loop rs ws cn c t = Some u" "auth t" for c t u
    using auth_chan_loop_step [OF that(1)] that(2) by blast
  have cl: "auth u" if "PICA_close_c2n cn (emit (if b then c2n_closed_cb cn r else c2n_failed_cb cn r) t) = Some u" "auth t" for b r t u
    using that by (auto intro!: l [OF that(2)] tame_close_c2n [OF that(1)] tame_emits)
  have li: "auth u" if "process_listener rs ws q t = Some (r, u)" "auth t" for q r t u
    using tame_listener [OF that(1) tame_refl] that(2) by (rule tame_auth)
  have lc: "auth u" if "PICA_close_listener q (emit (listener_error_cb q r) t) = Some u" "auth t" for q r t u
    using that by (auto intro!: l [OF that(2)] tame_close_listener [OF that(1)] tame_emits)
  from assms(1) show ?thesis
    unfolding event_conn_def Let_def
    by (elim block_elims) (erule eq_elims | hypsubst | erule cl | erule d | erule k | erule li | erule lc | erule n)+
qed

lemma auth_event_conns: "event_conns rs ws cns s = Some s' \<Longrightarrow> auth s \<Longrightarrow> auth s'"
  by (induction cns arbitrary: s) (auto dest: auth_event_conn)

lemma auth_event_loop:
  assumes "PICA_event_loop rs ws cns s = Some (r, s')" "auth s" shows "auth s'"
proof -
  have "auth t" if "add_conns cns i s = Some (q, t)" for i q t
    using tame_add_conns [OF that tame_refl] assms(2) by (rule tame_auth)
  moreover have "auth t = auth (t\<lparr>n_calls := n\<rparr>)" for t n
    by (simp add: auth_def chans_auth_def events_auth_def)
  ultimately show ?thesis using assms(1)
    by (fastforce simp: PICA_event_loop_def sys_call_def Let_def split: if_splits dest: auth_event_conns)
qed

section \<open>Reachable states\<close>

text \<open>
  The operations of the interface, the event loop, and the passing of time; a run starts
  with no channel past its handshake and nothing told about a peer.
\<close>

inductive client_step :: "lib \<Rightarrow> lib \<Rightarrow> bool" where
  loop: "PICA_event_loop rs ws cns s = Some (r, s') \<Longrightarrow> client_step s s'"
| new_c2n: "PICA_new_c2n acc addr port mode pol l s = Some (r, cn, s') \<Longrightarrow> client_step s s'"
| new_c2c: "PICA_new_c2c cn i s = Some (r, p, s') \<Longrightarrow> client_step s s'"
| new_listener: "PICA_new_listener f b a pp lp s = (r, l, s') \<Longrightarrow> client_step s s'"
| send_msg: "PICA_send_msg p m s = Some (r, s') \<Longrightarrow> client_step s s'"
| send_file: "PICA_send_file p path s = Some (r, s') \<Longrightarrow> client_step s s'"
| accept_file: "PICA_accept_file p name s = Some (r, s') \<Longrightarrow> client_step s s'"
| deny_file: "PICA_deny_file p s = Some (r, s') \<Longrightarrow> client_step s s'"
| pause_file: "PICA_pause_file p b s = Some (r, s') \<Longrightarrow> client_step s s'"
| resume_file: "PICA_resume_file p b s = Some (r, s') \<Longrightarrow> client_step s s'"
| cancel_file: "PICA_cancel_file p b s = Some (r, s') \<Longrightarrow> client_step s s'"
| close_c2c: "PICA_close_c2c p s = Some s' \<Longrightarrow> client_step s s'"
| close_c2n: "PICA_close_c2n cn s = Some s' \<Longrightarrow> client_step s s'"
| close_listener: "PICA_close_listener l s = Some s' \<Longrightarrow> client_step s s'"
| time: "client_step s (s\<lparr>lenv := (lenv s)\<lparr>now := t\<rparr>\<rparr>)"

inductive client_reach :: "lib \<Rightarrow> bool" where
  start: "\<forall>p c. chans s p = Some c \<longrightarrow> \<not> past_tls c \<Longrightarrow> \<forall>e \<in> set (events s). event_peer e = None \<Longrightarrow> client_reach s"
| step: "client_reach s \<Longrightarrow> client_step s s' \<Longrightarrow> client_reach s'"

lemma tame_new_listener: "PICA_new_listener f b a pp lp s = (r, l, s') \<Longrightarrow> tame s s'"
  by (auto simp: PICA_new_listener_def sys_call_def Let_def split: op_splits)

lemma client_step_auth:
  assumes "client_step s s'" "auth s" shows "auth s'"
  using assms
proof cases
  case loop then show ?thesis using assms(2) by (rule auth_event_loop)
qed (rule tame_auth [OF _ assms(2)], (erule tame_into steady_ops [THEN steady_tame] tame_new_listener | rule tame_refl | simp)+)+

lemma client_reach_auth: "client_reach s \<Longrightarrow> auth s"
proof (induction rule: client_reach.induct)
  case (start s) then show ?case by (auto simp: auth_def chans_auth_def events_auth_def)
qed (rule client_step_auth)

section \<open>Properties\<close>

text \<open>An incoming channel that waits for the end of its TLS handshake.\<close>

definition demo_lib :: lib where
  "demo_lib = (init_lib demo_ext calm_env)
     \<lparr>lnext := 2, conns := [0 \<mapsto> demo_conn],
      chans := [1 \<mapsto> (new_c2c demo_conn 0 demo_id False 0 False)\<lparr>ch_sck := 5, ch_state := PICA_C2C_STATE_WAITINGTLS\<rparr>]\<rparr>"

lemma demo_lib_reach: "client_reach demo_lib"
  by (rule client_reach.start) (auto simp: demo_lib_def init_lib_def)

lemma demo_round:
  "(case PICA_event_loop (\<lambda>fd. fd = 5) (\<lambda>_. False) [0] demo_lib of
      None \<Rightarrow> False
    | Some (r, s) \<Rightarrow> map_option ch_state (chans s 1) = Some PICA_C2C_STATE_WAITINGC2CPROTOVER)"
  by code_simp

text \<open>C1. Peers are authenticated. In every state a client library reaches, through calls of
  its interface and rounds of its event loop and whatever the sockets, the nodes and the
  peers deliver, a channel past its TLS handshake holds a certificate whose hash is the
  identifier of the peer, whose RSA key has at least 4096 bits and which the application
  accepted; and the application has been told of messages, established channels and file
  transfers only of peers for which there is such a certificate.\<close>

theorem client_peers_authenticated:
  assumes "client_reach s"
  shows "(\<forall>p c. chans s p = Some c \<longrightarrow>
           ch_state c \<in> {PICA_C2C_STATE_WAITINGREP, PICA_C2C_STATE_WAITINGC2CPROTOVER, PICA_C2C_STATE_ACTIVE} \<longrightarrow>
           (\<exists>cert. ch_peer_cert c = Some cert \<and> trusted (lext s) (ch_peer_id c) cert))
    \<and> (\<forall>e \<in> set (events s). \<forall>i. event_peer e = Some i \<longrightarrow> (\<exists>cert. trusted (lext s) i cert))"
  using client_reach_auth [OF assms] by (auto simp: auth_def chans_auth_def events_auth_def)

theorem client_peers_authenticated_witness:
  "\<exists>s c cert. client_reach s \<and> chans s 1 = Some c \<and> ch_state c = PICA_C2C_STATE_WAITINGC2CPROTOVER \<and>
     ch_peer_cert c = Some cert \<and> trusted (lext s) (ch_peer_id c) cert"
proof -
  from demo_round obtain r s c where l: "PICA_event_loop (\<lambda>fd. fd = 5) (\<lambda>_. False) [0] demo_lib = Some (r, s)"
    and c: "chans s 1 = Some c" "ch_state c = PICA_C2C_STATE_WAITINGC2CPROTOVER"
    by (auto split: option.splits)
  have "client_reach s" using client_reach.step [OF demo_lib_reach client_step.loop [OF l]] .
  with client_peers_authenticated [OF this] c show ?thesis by blast
qed

end
