(* ===== verification/ClientXfer.thy ===== *)
theory ClientXfer
  imports ClientLoop
begin

text \<open>
  What travels over an established channel. The table of a channel's handlers is a table
  of local handlers, so that a channel's stream is processed packet by packet however it
  was cut; on top of it the round trips: a text message and a file arrive as they were
  sent.
\<close>

section \<open>The handlers of a channel read their own packet only\<close>

lemma name_size_underflow: "k < 8 \<Longrightarrow> unat (of_nat k - 8 :: u32) \<ge> 2 ^ 32 - 8"
proof -
  assume "k < 8"
  then have "k \<in> {0, 1, 2, 3, 4, 5, 6, 7}" by auto
  then show ?thesis by (auto simp: unsigned_minus_1_eq_mask mask_eq_exp_minus_1)
qed

lemma var_handlers_local:
  assumes "rd16 buf 2 = Some k" "unat n = 4 + k" "unat n \<le> length buf" "length buf < 2 ^ 32"
  shows "procmsg_MSGUTF8 (take (unat n) buf) n = procmsg_MSGUTF8 buf n"
    "procmsg_FILEFRAGMENT (take (unat n) buf) n = procmsg_FILEFRAGMENT buf n"
    "procmsg_PICA_PROTO_DIRECTC2C_ADDRLIST (take (unat n) buf) n = procmsg_PICA_PROTO_DIRECTC2C_ADDRLIST buf n"
    "procmsg_SENDFILEREQUEST (take (unat n) buf) n = procmsg_SENDFILEREQUEST buf n"
proof -
  have m: "unat (n - 4) = k" "unat (n - 2) = k + 2"
    using assms(2) by (subst unat_sub; simp add: word_le_nat_alt)+
  show "procmsg_MSGUTF8 (take (unat n) buf) n = procmsg_MSGUTF8 buf n"
    "procmsg_FILEFRAGMENT (take (unat n) buf) n = procmsg_FILEFRAGMENT buf n"
    "procmsg_PICA_PROTO_DIRECTC2C_ADDRLIST (take (unat n) buf) n = procmsg_PICA_PROTO_DIRECTC2C_ADDRLIST buf n"
    using assms m by (intro ext, simp add: procmsg_MSGUTF8_def procmsg_FILEFRAGMENT_def
        procmsg_PICA_PROTO_DIRECTC2C_ADDRLIST_def del: rd_bytes_Some rd8_Some cong: if_cong)+
  have l: "rd16 (take (unat n) buf) 2 = Some k" using assms by simp
  have k: "k < 65536" using assms(1) le_nat_take2_less by (auto simp: rd16_def rd_bytes_def split: if_splits)
  show "procmsg_SENDFILEREQUEST (take (unat n) buf) n = procmsg_SENDFILEREQUEST buf n"
  proof (cases "8 \<le> k")
    case True
    have "unat (of_nat k - 8 :: u32) = k - 8"
      using True k by (subst unat_sub) (simp_all add: word_le_nat_alt unat_of_nat take_bit_nat_eq_self)
    with True assms l show ?thesis
      by (intro ext) (simp add: procmsg_SENDFILEREQUEST_def del: rd_bytes_Some cong: if_cong)
  next
    case False
    then have "unat (of_nat k - 8 :: u32) \<ge> 2 ^ 32 - 8" by (intro name_size_underflow) simp
    with assms(2,4) have "rd_bytes buf 12 (unat (of_nat k - 8 :: u32)) = None"
      "rd_bytes (take (unat n) buf) 12 (unat (of_nat k - 8 :: u32)) = None"
      by (simp_all add: rd_bytes_def)
    with assms(1) l show ?thesis
      by (intro ext) (simp add: procmsg_SENDFILEREQUEST_def cong: if_cong)
  qed
qed

lemma fixed_chan_handlers_local:
  "4 \<le> n \<Longrightarrow> n \<le> length buf \<Longrightarrow> procmsg_FILECONTROL (take n buf) = procmsg_FILECONTROL buf"
  "4 \<le> n \<Longrightarrow> n \<le> length buf \<Longrightarrow> procmsg_C2CCONNREQ (take n buf) = procmsg_C2CCONNREQ buf"
  "4 \<le> n \<Longrightarrow> n \<le> length buf \<Longrightarrow> procmsg_INITRESP_c2c (take n buf) = procmsg_INITRESP_c2c buf"
  by (intro ext, simp add: procmsg_FILECONTROL_def procmsg_C2CCONNREQ_def procmsg_INITRESP_c2c_def
      del: rd_bytes_Some rd8_Some cong: if_cong)+

lemma no_buffer_chan_handlers_local:
  "procmsg_MSGOK b = procmsg_MSGOK b'" "procmsg_ACCEPTEDFILE b = procmsg_ACCEPTEDFILE b'"
  "procmsg_DENIEDFILE b = procmsg_DENIEDFILE b'"
  "procmsg_PICA_PROTO_DIRECTC2C_FAILED b = procmsg_PICA_PROTO_DIRECTC2C_FAILED b'"
  "procmsg_PICA_PROTO_DIRECTC2C_SWITCH b = procmsg_PICA_PROTO_DIRECTC2C_SWITCH b'"
  by (simp_all add: fun_eq_iff procmsg_MSGOK_def procmsg_ACCEPTEDFILE_def procmsg_DENIEDFILE_def
      procmsg_PICA_PROTO_DIRECTC2C_FAILED_def procmsg_PICA_PROTO_DIRECTC2C_SWITCH_def)

interpretation c2c_msgs: msg_table c2c_messages
proof (unfold_locales, goal_cases)
  case (1 m)
  then show ?case by (auto simp: c2c_messages_def table_entry_ok_def)
next
  case (2 m n buf arg s)
  show ?case
  proof (cases "fixedsz m = PICA_MSG_VAR_SIZE")
    case True
    then obtain i f k where m: "m = \<lparr>msgid = i, fixedsz = PICA_MSG_VAR_SIZE, sz = k, msgprocfn = f\<rparr>"
      by (cases m) auto
    with size_var 2 obtain l where "rd16 buf 2 = Some l" "unat n = 4 + l" by blast
    from var_handlers_local [OF this 2(2,3)] 2(1) m show ?thesis
      by (auto simp: c2c_messages_def)
  next
    case False
    with 2 have "unat n = unat (sz m)" by (simp add: msg_size_ok_def)
    with False 2(1,2) show ?thesis
      by (auto simp: c2c_messages_def fixed_chan_handlers_local
          intro: no_buffer_chan_handlers_local [THEN fun_cong, THEN fun_cong, THEN fun_cong])
  qed
qed

section \<open>Packets of a channel\<close>

lemma var_packet_simps [simp]:
  "var_packet i x ! 0 = ucast i" "var_packet i x ! Suc 0 = ucast i"
  "take 2 (drop 2 (var_packet i x)) = put16 (length x)" "drop 4 (var_packet i x) = x"
  by (simp_all add: var_packet_def packet_def put16_def)

lemma rd_var_packet [simp]:
  "rd16 (var_packet i x) 2 = Some (le_nat (put16 (length x)))"
  by (simp add: rd16_def rd_bytes_def)

lemma complete_chan_packet:
  assumes "length x < 65536" "i \<in> {PICA_PROTO_MSGUTF8, PICA_PROTO_SENDFILEREQUEST, PICA_PROTO_FILEFRAGMENT}"
  shows "complete_packet c2c_messages (var_packet i x)"
proof -
  let ?n = "of_nat (4 + length x) :: u32"
  have n: "unat ?n = 4 + length x" using assms(1) by (simp only: unat_of_nat take_bit_nat_eq_self) (simp add: take_bit_nat_eq_self)
  then have "?n \<ge> 4" "\<not> ?n < 2" by (simp_all add: word_le_nat_alt word_less_nat_alt del: of_nat_add)
  then have "PICA_msggetsize (var_packet i x) ?n c2c_messages = 2 + PICA_MSG_VARSIZE_INT16 + of_nat (le_nat (put16 (length x)))"
    using assms by (auto simp: PICA_msggetsize_def c2c_messages_def simp del: of_nat_add)
  also have "\<dots> = ?n" using assms(1) by simp
  finally show ?thesis using n assms(1) by (simp add: complete_packet_def del: of_nat_add) (simp add: var_packet_def packet_def)
qed

lemma processmsg_chan:
  "PICA_processmsg (var_packet PICA_PROTO_MSGUTF8 x) n p s c2c_messages
     = procmsg_MSGUTF8 (var_packet PICA_PROTO_MSGUTF8 x) n p s"
  "PICA_processmsg (var_packet PICA_PROTO_SENDFILEREQUEST x) n p s c2c_messages
     = procmsg_SENDFILEREQUEST (var_packet PICA_PROTO_SENDFILEREQUEST x) n p s"
  "PICA_processmsg (var_packet PICA_PROTO_FILEFRAGMENT x) n p s c2c_messages
     = procmsg_FILEFRAGMENT (var_packet PICA_PROTO_FILEFRAGMENT x) n p s"
  by (simp_all add: PICA_processmsg_def c2c_messages_def)

lemma var_size_sub: "length x < 65536 \<Longrightarrow> (of_nat (length (var_packet i x)) - 4 :: u32) = of_nat (length x)"
  by simp

lemma ucast_len: "length x < 65536 \<Longrightarrow> ucast (of_nat (length x) :: u32) = (of_nat (length x) :: u64)"
  by (simp add: word_unat_eq_iff unsigned_ucast_eq unsigned_of_nat take_bit_nat_eq_self)

lemma unat_len: "length x < 65536 \<Longrightarrow> unat (of_nat (length x) :: u32) = length x"
  by (simp add: unat_of_nat take_bit_nat_eq_self)

section \<open>Text messages\<close>

text \<open>The queue of a channel has room for a packet, and there is memory.\<close>

definition chan_ok :: "nat \<Rightarrow> nat \<Rightarrow> lib \<Rightarrow> bool" where
  "chan_ok p n s \<longleftrightarrow> alloc_ok (lenv s) = (\<lambda>_. True) \<and>
     (case chans s p of None \<Rightarrow> False | Some c \<Rightarrow> wbuf_ok (ch_w c) \<and> unat (w_pos (ch_w c)) + n < 2 ^ 32)"

lemma chan_send_ok:
  assumes "chan_ok p (length tail + 2) s" "chans s p = Some c" "unat msz = length tail + 2"
  shows "\<exists>e w. chan_send p i msz tail s = Some (True, s\<lparr>lenv := e, chans := (chans s)(p \<mapsto> c\<lparr>ch_w := w\<rparr>)\<rparr>) \<and>
     pending w = pending (ch_w c) @ packet i tail \<and> wbuf_ok w \<and> alloc_ok e = (\<lambda>_. True) \<and> btw_ssl w = btw_ssl (ch_w c)"
proof -
  have pre: "alloc_ok (lenv s) = (\<lambda>_. True)" "wbuf_ok (ch_w c)" "unat (w_pos (ch_w c)) + unat msz < 2 ^ 32"
    "length tail + 2 = unat msz"
    using assms by (auto simp: chan_ok_def)
  show ?thesis by (rule chan_send_queues [OF assms(2) pre, of i]) blast
qed

lemma unat_len4: "length x < 65536 \<Longrightarrow> unat (of_nat (length x) + 4 :: u32) = length x + 4"
  by (simp add: unat_word_ariths unat_of_nat take_bit_nat_eq_self)

lemma send_var_packet:
  assumes "chan_ok p (length x + 4) s" "chans s p = Some c" "length x < 65536"
  shows "\<exists>e w. chan_send p i (of_nat (length x) + 4) (put16 (length x) @ x) s
        = Some (True, s\<lparr>lenv := e, chans := (chans s)(p \<mapsto> c\<lparr>ch_w := w\<rparr>)\<rparr>) \<and>
      pending w = pending (ch_w c) @ var_packet i x \<and> wbuf_ok w \<and> alloc_ok e = (\<lambda>_. True) \<and> btw_ssl w = btw_ssl (ch_w c)"
proof -
  have "length (put16 (length x) @ x) + 2 = length x + 4" by simp
  note ok = chan_send_ok [of p "put16 (length x) @ x" s c "of_nat (length x) + 4" i, unfolded this]
  show ?thesis unfolding var_packet_def by (rule ok) (use assms in \<open>simp_all add: unat_len4\<close>)
qed

lemma send_msg_ok:
  assumes "chan_ok p (length msg + 4) s" "chans s p = Some c" "length msg \<le> PICA_PROTO_C2CMSG_MAXDATASIZE"
  shows "\<exists>e w. PICA_send_msg p msg s = Some (PICA_OK, s\<lparr>lenv := e, chans := (chans s)(p \<mapsto> c\<lparr>ch_w := w\<rparr>)\<rparr>) \<and>
     pending w = pending (ch_w c) @ var_packet PICA_PROTO_MSGUTF8 msg"
proof -
  have "length msg < 65536" using assms(3) by simp
  from send_var_packet [OF assms(1,2) this, of PICA_PROTO_MSGUTF8] obtain e w where
    "chan_send p PICA_PROTO_MSGUTF8 (of_nat (length msg) + 4) (put16 (length msg) @ msg) s
      = Some (True, s\<lparr>lenv := e, chans := (chans s)(p \<mapsto> c\<lparr>ch_w := w\<rparr>)\<rparr>)"
    "pending w = pending (ch_w c) @ var_packet PICA_PROTO_MSGUTF8 msg" by blast
  with assms(3) show ?thesis by (intro exI [of _ e] exI [of _ w]) (simp add: PICA_send_msg_def)
qed

lemma chan_send_rand_ok:
  assumes "chan_ok p 4 s" "chans s p = Some c" "msz = 4"
  shows "\<exists>e w t. chan_send_rand p i msz s = Some (True, s\<lparr>lenv := e, chans := (chans s)(p \<mapsto> c\<lparr>ch_w := w\<rparr>)\<rparr>) \<and>
     pending w = pending (ch_w c) @ packet i t \<and> length t = 2 \<and> wbuf_ok w \<and> alloc_ok e = (\<lambda>_. True)"
proof -
  let ?t = "fst (RAND_pseudo_bytes 2 (lenv s))"
  from chan_send_ok [of p ?t s c msz i] assms obtain e w where
    "chan_send p i msz ?t s = Some (True, s\<lparr>lenv := e, chans := (chans s)(p \<mapsto> c\<lparr>ch_w := w\<rparr>)\<rparr>)"
    "pending w = pending (ch_w c) @ packet i ?t" "wbuf_ok w" "alloc_ok e = (\<lambda>_. True)"
    by auto
  then show ?thesis
    by (intro exI [of _ "snd (RAND_pseudo_bytes 2 e)"] exI [of _ w] exI [of _ ?t]) (simp add: chan_send_rand_def)
qed

lemma MSGUTF8_delivers:
  assumes "chan_ok q 4 r" "chans r q = Some d" "ch_state d = PICA_C2C_STATE_ACTIVE" "length msg < 65536"
  shows "\<exists>e w t. procmsg_MSGUTF8 (var_packet PICA_PROTO_MSGUTF8 msg) (of_nat (length (var_packet PICA_PROTO_MSGUTF8 msg))) q r
      = Some (1, (emit (newmsg_cb (ch_peer_id d) msg (ucast PICA_PROTO_MSGUTF8)) r)
          \<lparr>lenv := e, chans := (chans r)(q \<mapsto> d\<lparr>ch_w := w\<rparr>)\<rparr>) \<and>
    pending w = pending (ch_w d) @ packet PICA_PROTO_MSGOK t \<and> length t = 2"
proof -
  let ?r = "emit (newmsg_cb (ch_peer_id d) msg (ucast PICA_PROTO_MSGUTF8)) r"
  have "chan_ok q 4 ?r" "chans ?r q = Some d" using assms by (simp_all add: chan_ok_def)
  from chan_send_rand_ok [OF this, of PICA_PROTO_MSGOK_SIZE PICA_PROTO_MSGOK]
  obtain e w t where "chan_send_rand q PICA_PROTO_MSGOK PICA_PROTO_MSGOK_SIZE ?r
      = Some (True, ?r\<lparr>lenv := e, chans := (chans r)(q \<mapsto> d\<lparr>ch_w := w\<rparr>)\<rparr>)"
    "pending w = pending (ch_w d) @ packet PICA_PROTO_MSGOK t" "length t = 2" by auto
  with assms show ?thesis
    by (intro exI [of _ e] exI [of _ w] exI [of _ t]) (simp add: procmsg_MSGUTF8_def unat_len)
qed

lemma MSGOK_delivers:
  assumes "chans s p = Some c" "length t = 2"
  shows "complete_packet c2c_messages (packet PICA_PROTO_MSGOK t)"
    "run_handlers c2c_messages p [packet PICA_PROTO_MSGOK t] s = Some (1, emit (msgok_cb (ch_peer_id c)) s)"
  using assms by (auto simp: complete_packet_def PICA_msggetsize_def c2c_messages_def packet_def PICA_processmsg_def procmsg_MSGOK_def)

text \<open>C4. Round trip of a text message. When a message of at most 65532 octets is sent on a
  channel with memory and room in its queue, the queued bytes are one packet. Delivered to
  the peer's active channel in any pieces they produce one callback with exactly the
  message, and queue one acknowledgement; delivered back in any pieces, the
  acknowledgement produces one callback of the sender.\<close>

theorem message_round_trip:
  assumes "chan_ok p (length msg + 4) s" "chans s p = Some c" "length msg \<le> PICA_PROTO_C2CMSG_MAXDATASIZE"
    and "chan_ok q 4 r" "chans r q = Some d" "ch_state d = PICA_C2C_STATE_ACTIVE"
  shows "\<exists>s' w out. PICA_send_msg p msg s = Some (PICA_OK, s') \<and> chans s' p = Some (c\<lparr>ch_w := w\<rparr>) \<and>
     pending w = pending (ch_w c) @ out \<and>
     (\<forall>rs. concat rs = out \<longrightarrow>
        (\<exists>r' v ack. map_option (\<lambda>(x, b, n, r'). (x, r')) (stream_reads c2c_messages q [] 0 rs r) = Some (1, r') \<and>
           events r' = events r @ [newmsg_cb (ch_peer_id d) msg (ucast PICA_PROTO_MSGUTF8)] \<and>
           chans r' q = Some (d\<lparr>ch_w := v\<rparr>) \<and> pending v = pending (ch_w d) @ ack \<and>
           (\<forall>as. concat as = ack \<longrightarrow>
              map_option (\<lambda>(x, b, n, t). (x, events t)) (stream_reads c2c_messages p [] 0 as s')
                = Some (1, events s @ [msgok_cb (ch_peer_id c)]))))"
proof -
  let ?out = "var_packet PICA_PROTO_MSGUTF8 msg"
  from send_msg_ok [OF assms(1-3)] obtain e w where
    sent: "PICA_send_msg p msg s = Some (PICA_OK, s\<lparr>lenv := e, chans := (chans s)(p \<mapsto> c\<lparr>ch_w := w\<rparr>)\<rparr>)"
      "pending w = pending (ch_w c) @ ?out" by blast
  let ?s = "s\<lparr>lenv := e, chans := (chans s)(p \<mapsto> c\<lparr>ch_w := w\<rparr>)\<rparr>"
  have l: "length msg < 65536" using assms(3) by simp
  from MSGUTF8_delivers [OF assms(4-6) l] obtain e' v t where
    got: "procmsg_MSGUTF8 ?out (of_nat (length ?out)) q r
        = Some (1, (emit (newmsg_cb (ch_peer_id d) msg (ucast PICA_PROTO_MSGUTF8)) r)
            \<lparr>lenv := e', chans := (chans r)(q \<mapsto> d\<lparr>ch_w := v\<rparr>)\<rparr>)"
      "pending v = pending (ch_w d) @ packet PICA_PROTO_MSGOK t" "length t = 2" by blast
  have run: "map_option (\<lambda>(x, b, n, r'). (x, r')) (stream_reads c2c_messages q [] 0 rs r)
      = run_handlers c2c_messages q [?out] r" if "concat rs = ?out" for rs
    using c2c_msgs.stream_reads_packets [of "[?out]" rs q r] that l
    by (simp add: complete_chan_packet)
  have ack: "map_option (\<lambda>(x, b, n, t). (x, t)) (stream_reads c2c_messages p [] 0 as ?s)
      = Some (1, emit (msgok_cb (ch_peer_id c)) ?s)" if "concat as = packet PICA_PROTO_MSGOK t" for as
    using c2c_msgs.stream_reads_packets [of "[packet PICA_PROTO_MSGOK t]" as p ?s] that
      MSGOK_delivers [of ?s p "c\<lparr>ch_w := w\<rparr>" t] got(3) by simp
  show ?thesis
    by (intro exI [of _ ?s] exI [of _ w] exI [of _ ?out])
      (use sent got run ack in \<open>fastforce simp: processmsg_chan simp del: length_var_packet\<close>)
qed

definition demo_active :: lib where
  "demo_active = (init_lib demo_ext calm_env)\<lparr>lnext := 2, conns := [0 \<mapsto> demo_conn], chans := [1 \<mapsto> demo_chan]\<rparr>"

lemma demo_active_ok: "chans demo_active 1 = Some demo_chan" "n < 2 ^ 32 \<Longrightarrow> chan_ok 1 n demo_active"
  "ch_state demo_chan = PICA_C2C_STATE_ACTIVE" "events demo_active = []"
  by (simp_all add: demo_active_def chan_ok_def init_lib_def calm_env_def demo_chan_def new_c2c_def)
    (simp add: empty_wbuf_def)

theorem message_round_trip_witness:
  "\<exists>s' out. PICA_send_msg 1 [72, 105] demo_active = Some (PICA_OK, s') \<and>
     (\<exists>r'. map_option (\<lambda>(x, b, n, r'). (x, r')) (stream_reads c2c_messages 1 [] 0 [out] demo_active) = Some (1, r') \<and>
        events r' = [newmsg_cb (ch_peer_id demo_chan) [72, 105] 0x30])"
proof -
  have l: "length [72, 105 :: byte] \<le> PICA_PROTO_C2CMSG_MAXDATASIZE" "length [72, 105 :: byte] + 4 < 2 ^ 32" "(4 :: nat) < 2 ^ 32"
    by simp_all
  note k = demo_active_ok
  from message_round_trip [OF k(2) [OF l(2)] k(1) l(1) k(2) [OF l(3)] k(1,3)] obtain s' out where
    "PICA_send_msg 1 [72, 105] demo_active = Some (PICA_OK, s')"
    and d: "\<forall>rs. concat rs = out \<longrightarrow>
        (\<exists>r'. map_option (\<lambda>(x, b, n, r'). (x, r')) (stream_reads c2c_messages 1 [] 0 rs demo_active) = Some (1, r') \<and>
           events r' = events demo_active @ [newmsg_cb (ch_peer_id demo_chan) [72, 105] (ucast PICA_PROTO_MSGUTF8)])"
    by blast
  moreover have "concat [out] = out" by simp
  ultimately show ?thesis using k(4) by fastforce
qed

section \<open>Sending a file\<close>

text \<open>What was written to the session with a peer, and what waits in the channel's queue.\<close>

definition sent :: "nat \<Rightarrow> lib \<Rightarrow> byte list" where
  "sent p s = concat (map snd (filter (\<lambda>x. fst x = ToPeer p) (wire s)))"

definition queued :: "nat \<Rightarrow> lib \<Rightarrow> byte list" where
  "queued p s = (case chans s p of None \<Rightarrow> [] | Some c \<Rightarrow> pending (ch_w c))"

text \<open>An established channel that has not been switched to a direct connection.\<close>

definition plain_chan :: "PICA_c2c \<Rightarrow> bool" where
  "plain_chan c \<longleftrightarrow> ch_state c = PICA_C2C_STATE_ACTIVE \<and> ch_directc2c_state c \<noteq> PICA_DIRECTC2C_STATE_ACTIVE \<and>
     ch_write_barrier_pos c = 0 \<and> \<not> ch_switched_to_directc2c_write c \<and> \<not> ch_disconnect_on_empty_write_buf c \<and>
     wbuf_ok (ch_w c)"

text \<open>The bytes \<open>f\<close> of a file are still to be read and sent on the channel.\<close>

definition outgoing_file :: "nat \<Rightarrow> byte list \<Rightarrow> lib \<Rightarrow> bool" where
  "outgoing_file p f s \<longleftrightarrow> alloc_ok (lenv s) = (\<lambda>_. True) \<and>
     (case chans s p of None \<Rightarrow> False
      | Some c \<Rightarrow> plain_chan c \<and>
          (if f = [] then ch_sendfilestate c = PICA_CHANSENDFILESTATE_IDLE \<and> ch_sendfile_stream c = None
           else ch_sendfilestate c = PICA_CHANSENDFILESTATE_SENDING \<and> ch_sendfile_stream c = Some f \<and>
                unat (ch_sendfile_pos c) + length f = unat (ch_sendfile_size c)))"

text \<open>Rounds of the event loop in which the socket of the channel takes data.\<close>

fun send_rounds :: "nat \<Rightarrow> nat \<Rightarrow> lib \<Rightarrow> lib option" where
  "send_rounds 0 p s = Some s"
| "send_rounds (Suc k) p s =
     do { (ret, s) \<leftarrow> c2c_active (\<lambda>_. False) (\<lambda>_. True) p s;
          if ret \<noteq> PICA_OK then None else send_rounds k p s }"

text \<open>The socket and the file make progress with every call.\<close>

definition progressing :: "ext \<Rightarrow> bool" where
  "progressing x \<longleftrightarrow> (\<forall>n. a_ret (answers x n) > 0) \<and> (\<forall>n. fread_max x n > 0)"

lemma write_session_progress:
  assumes "wbuf_ok w" "w_pos w \<noteq> 0" "a_ret (answers (lext s) (n_calls s)) > 0"
  shows "\<exists>m w'. write_session ses w s =
       (PICA_OK, w', s\<lparr>n_calls := Suc (n_calls s), wire := wire s @ [(ses, take m (pending w))]\<rparr>) \<and>
     0 < m \<and> m \<le> length (pending w) \<and> wbuf_ok w' \<and> pending w' = drop m (pending w)"
proof -
  let ?a = "answers (lext s) (n_calls s)" and ?b = "btw_ssl (buf_set_btw w)"
  define ret where "ret = min (a_ret ?a) (uint ?b)"
  have "?b \<noteq> 0" using assms(2) by (auto simp: buf_set_btw_def)
  then have pos: "0 < ret" using assms(3) by (simp add: ret_def word_neq_0_conv word_less_def)
  obtain code w' where r: "PICA_write_ssl ret (ssl_err (a_err ?a)) w = (code, w')" by fastforce
  have "ret \<le> uint ?b" by (simp add: ret_def)
  from PICA_write_ssl_ok [OF assms(1) this r] have w': "wbuf_ok w'" "pending w' = drop (nat ret) (pending w)" by auto
  have "code = PICA_OK" using r pos assms(2) by (auto simp: PICA_write_ssl_def Let_def word_neq_0_conv split: if_splits)
  moreover have "nat ret \<le> length (pending w)"
  proof -
    have "nat ret \<le> unat ?b" using nat_mono [OF \<open>ret \<le> uint ?b\<close>] by simp
    also have "\<dots> \<le> unat (w_pos w)" using buf_set_btw_ok [OF assms(1)] by (simp add: wbuf_ok_def word_le_nat_alt)
    finally show ?thesis using length_pending [OF assms(1)] by simp
  qed
  ultimately show ?thesis using r w' pos assms(2)
    by (intro exI [of _ "nat ret"] exI [of _ w']) (simp add: write_session_def sys_call_def Let_def ret_def)
qed

lemma write_plain:
  assumes "chans s p = Some c" "plain_chan c" "pending (ch_w c) \<noteq> []" "progressing (lext s)"
  shows "\<exists>m w. PICA_write_c2c p s = Some (PICA_OK, s\<lparr>n_calls := Suc (n_calls s),
       wire := wire s @ [(ToPeer p, take m (pending (ch_w c)))], chans := (chans s)(p \<mapsto> c\<lparr>ch_w := w\<rparr>)\<rparr>) \<and>
     0 < m \<and> m \<le> length (pending (ch_w c)) \<and> wbuf_ok w \<and> pending w = drop m (pending (ch_w c))"
proof -
  have "wbuf_ok (ch_w c)" using assms(2) by (simp add: plain_chan_def)
  moreover have "w_pos (ch_w c) \<noteq> 0" using assms(3) length_pending [OF calculation] by auto
  ultimately obtain m w where "write_session (ToPeer p) (ch_w c) s =
      (PICA_OK, w, s\<lparr>n_calls := Suc (n_calls s), wire := wire s @ [(ToPeer p, take m (pending (ch_w c)))]\<rparr>)"
    "0 < m" "m \<le> length (pending (ch_w c))" "wbuf_ok w" "pending w = drop m (pending (ch_w c))"
    using write_session_progress [of "ch_w c" s "ToPeer p"] assms(4) by (auto simp: progressing_def)
  then show ?thesis using assms(1,2)
    by (intro exI [of _ m] exI [of _ w]) (simp add: PICA_write_c2c_def plain_chan_def)
qed

lemma fragment_step:
  assumes out: "outgoing_file p f s" "f \<noteq> []" "queued p s = []" "progressing (lext s)" and c: "chans s p = Some c"
  shows "\<exists>n s'. PICA_send_file_fragment p s = Some (PICA_OK, s') \<and> 0 < n \<and> n \<le> PICA_FILEFRAGMENTSIZE - 4 \<and>
     outgoing_file p (drop n f) s' \<and> queued p s' = var_packet PICA_PROTO_FILEFRAGMENT (take n f) \<and>
     wire s' = wire s \<and> lext s' = lext s \<and> map_option ch_peer_id (chans s' p) = Some (ch_peer_id c) \<and>
     (drop n f = [] \<longrightarrow> file_finished_cb (ch_peer_id c) True \<in> set (events s')) \<and> set (events s) \<subseteq> set (events s')"
proof -
  define n where "n = min (PICA_FILEFRAGMENTSIZE - 4) (fread_max (lext s) (n_fread s))"
  let ?x = "take n f"
  have n: "0 < n" "n \<le> PICA_FILEFRAGMENTSIZE - 4" using out(4) by (auto simp: n_def progressing_def)
  then have x: "?x \<noteq> []" "length ?x < 65536" using out(2) by auto
  from out c have st: "ch_sendfilestate c = PICA_CHANSENDFILESTATE_SENDING" "ch_sendfile_stream c = Some f"
    "unat (ch_sendfile_pos c) + length f = unat (ch_sendfile_size c)" "plain_chan c" "pending (ch_w c) = []"
    "alloc_ok (lenv s) = (\<lambda>_. True)"
    by (auto simp: outgoing_file_def queued_def)
  let ?c1 = "c\<lparr>ch_sendfile_stream := Some (drop n f)\<rparr>"
  let ?s1 = "s\<lparr>n_fread := Suc (n_fread s), chans := (chans s)(p \<mapsto> ?c1)\<rparr>"
  have "w_pos (ch_w c) = 0" using st(4,5) length_pending [of "ch_w c"] by (simp add: plain_chan_def unat_eq_zero)
  then have "chan_ok p (length ?x + 4) ?s1" using st x(2) by (simp add: chan_ok_def plain_chan_def)
  moreover have "chans ?s1 p = Some ?c1" by simp
  ultimately obtain e w where snd: "chan_send p PICA_PROTO_FILEFRAGMENT (of_nat (length ?x) + 4) (put16 (length ?x) @ ?x) ?s1
      = Some (True, ?s1\<lparr>lenv := e, chans := (chans ?s1)(p \<mapsto> ?c1\<lparr>ch_w := w\<rparr>)\<rparr>)"
    "pending w = var_packet PICA_PROTO_FILEFRAGMENT ?x" "wbuf_ok w" "alloc_ok e = (\<lambda>_. True)"
    using send_var_packet [of p ?x ?s1 ?c1 PICA_PROTO_FILEFRAGMENT] x(2) st(5) by auto
  let ?pos = "ch_sendfile_pos c + of_nat (length ?x)"
  have pos: "unat ?pos + length (drop n f) = unat (ch_sendfile_size c)" "unat ?pos \<le> unat (ch_sendfile_size c)"
  proof -
    have "length ?x \<le> length f" "unat (ch_sendfile_size c) < 2 ^ 64" by (simp, rule unsigned_less [THEN order.strict_trans2]) simp
    then have "unat ?pos = unat (ch_sendfile_pos c) + length ?x"
      using st(3) by (simp add: unat_word_ariths unat_of_nat take_bit_nat_eq_self)
    then show "unat ?pos + length (drop n f) = unat (ch_sendfile_size c)" "unat ?pos \<le> unat (ch_sendfile_size c)"
      using st(3) by simp_all
  qed
  have fin: "?pos \<ge> ch_sendfile_size c \<longleftrightarrow> drop n f = []" "\<not> ?pos > ch_sendfile_size c"
    using pos by (auto simp: word_le_nat_alt word_less_nat_alt)
  note go = PICA_send_file_fragment_def n_def [symmetric] c st(1,2) x(1) snd(1) fclose_send_def fin
  show ?thesis
  proof (cases "drop n f = []")
    case True
    let ?s' = "emit (file_finished_cb (ch_peer_id c) True) (emit (file_progress_cb (ch_peer_id c) ?pos 0)
       (?s1\<lparr>lenv := e, chans := (chans s)(p \<mapsto> c\<lparr>ch_w := w, ch_sendfile_pos := ?pos,
          ch_sendfilestate := PICA_CHANSENDFILESTATE_IDLE, ch_sendfile_stream := None\<rparr>)\<rparr>))"
    have "PICA_send_file_fragment p s = Some (PICA_OK, ?s')" using True n(1) go by (simp add: emit_def Let_def)
    then show ?thesis using n st snd True
      by (intro exI [of _ n] exI [of _ ?s']) (simp add: outgoing_file_def queued_def plain_chan_def subset_iff)
  next
    case False
    let ?s' = "emit (file_progress_cb (ch_peer_id c) ?pos 0)
       (?s1\<lparr>lenv := e, chans := (chans s)(p \<mapsto> ?c1\<lparr>ch_w := w, ch_sendfile_pos := ?pos\<rparr>)\<rparr>)"
    have "PICA_send_file_fragment p s = Some (PICA_OK, ?s')" using False n(1) go by (simp add: emit_def Let_def)
    then show ?thesis using n st snd False pos
      by (intro exI [of _ n] exI [of _ ?s']) (simp add: outgoing_file_def queued_def plain_chan_def subset_iff)
  qed
qed

lemma flush_step:
  assumes "outgoing_file p f s" "chans s p = Some c" "queued p s \<noteq> []" "progressing (lext s)"
  shows "\<exists>s'. PICA_write_c2c p s = Some (PICA_OK, s') \<and> outgoing_file p f s' \<and>
     sent p s' @ queued p s' = sent p s @ queued p s \<and> length (queued p s') < length (queued p s) \<and>
     lext s' = lext s \<and> map_option ch_peer_id (chans s' p) = Some (ch_peer_id c) \<and> events s' = events s"
proof -
  have c: "plain_chan c" "pending (ch_w c) \<noteq> []" "queued p s = pending (ch_w c)"
    using assms by (auto simp: outgoing_file_def queued_def)
  from write_plain [OF assms(2) c(1,2) assms(4)] obtain m w where
    w: "PICA_write_c2c p s = Some (PICA_OK, s\<lparr>n_calls := Suc (n_calls s),
       wire := wire s @ [(ToPeer p, take m (pending (ch_w c)))], chans := (chans s)(p \<mapsto> c\<lparr>ch_w := w\<rparr>)\<rparr>)"
      "0 < m" "m \<le> length (pending (ch_w c))" "wbuf_ok w" "pending w = drop m (pending (ch_w c))" by blast
  with c assms(1,2) show ?thesis
    by (intro exI [of _ "s\<lparr>n_calls := Suc (n_calls s), wire := wire s @ [(ToPeer p, take m (pending (ch_w c)))],
        chans := (chans s)(p \<mapsto> c\<lparr>ch_w := w\<rparr>)\<rparr>"])
      (auto simp: outgoing_file_def plain_chan_def sent_def queued_def split: if_splits)
qed

lemma outgoing_fd:
  assumes "outgoing_file p f s" "chans s p = Some c"
  shows "c2c_fd_isset (\<lambda>_. False) c t = Some False" "c2c_fd_isset (\<lambda>_. True) c t = Some True"
    "w_pos (ch_w c) = 0 \<longleftrightarrow> queued p s = []" "0 < w_pos (ch_w c) \<longleftrightarrow> queued p s \<noteq> []"
proof -
  show z: "w_pos (ch_w c) = 0 \<longleftrightarrow> queued p s = []"
    using assms length_pending [of "ch_w c"]
    by (auto simp: outgoing_file_def plain_chan_def queued_def unat_eq_zero)
  then show "0 < w_pos (ch_w c) \<longleftrightarrow> queued p s \<noteq> []" by (simp add: word_neq_0_conv [symmetric])
qed (use assms in \<open>simp_all add: c2c_fd_isset_def outgoing_file_def plain_chan_def\<close>)

lemma active_round:
  assumes out: "outgoing_file p f s" "progressing (lext s)" and c: "chans s p = Some c"
  shows "\<exists>s' x f'. c2c_active (\<lambda>_. False) (\<lambda>_. True) p s = Some (PICA_OK, s') \<and> outgoing_file p f' s' \<and>
     f = x @ f' \<and> length x < 65536 \<and> lext s' = lext s \<and> map_option ch_peer_id (chans s' p) = Some (ch_peer_id c) \<and>
     sent p s' @ queued p s' =
       sent p s @ queued p s @ (if x = [] then [] else var_packet PICA_PROTO_FILEFRAGMENT x) \<and>
     5 * length f' + length (queued p s') \<le> 5 * length f + length (queued p s) - 1 \<and>
     (x \<noteq> [] \<and> f' = [] \<longrightarrow> file_finished_cb (ch_peer_id c) True \<in> set (events s')) \<and> set (events s) \<subseteq> set (events s')"
proof -
  have peer: "\<exists>d. chans t p = Some d \<and> ch_peer_id d = ch_peer_id c" if "map_option ch_peer_id (chans t p) = Some (ch_peer_id c)" for t
    using that by auto
  have st: "ch_sendfilestate c = PICA_CHANSENDFILESTATE_SENDING \<longleftrightarrow> f \<noteq> []"
    using out(1) c by (auto simp: outgoing_file_def split: if_splits)
  note fd = outgoing_fd [OF out(1) c]
  consider (idle) "f = []" "queued p s = []" | (full) "queued p s \<noteq> []" | (next_part) "f \<noteq> []" "queued p s = []" by blast
  then show ?thesis
  proof cases
    case idle
    then show ?thesis using c st fd out
      by (intro exI [of _ s] exI [of _ "[]"] exI [of _ f]) (simp add: c2c_active_def)
  next
    case full
    from flush_step [OF out(1) c this out(2)] obtain s' where
      s': "PICA_write_c2c p s = Some (PICA_OK, s')" "outgoing_file p f s'"
      "sent p s' @ queued p s' = sent p s @ queued p s" "length (queued p s') < length (queued p s)"
      "lext s' = lext s" "map_option ch_peer_id (chans s' p) = Some (ch_peer_id c)" "events s' = events s" by blast
    from peer [OF s'(6)] obtain d where d: "chans s' p = Some d" by blast
    show ?thesis using full s' c d st fd outgoing_fd(1) [OF s'(2) d]
      by (intro exI [of _ s'] exI [of _ "[]"] exI [of _ f]) (simp add: c2c_active_def)
  next
    case next_part
    from fragment_step [OF out(1) next_part out(2) c] obtain n t where
      t: "PICA_send_file_fragment p s = Some (PICA_OK, t)" "0 < n" "n \<le> PICA_FILEFRAGMENTSIZE - 4"
        "outgoing_file p (drop n f) t" "queued p t = var_packet PICA_PROTO_FILEFRAGMENT (take n f)"
        "wire t = wire s" "lext t = lext s" "map_option ch_peer_id (chans t p) = Some (ch_peer_id c)"
        "drop n f = [] \<longrightarrow> file_finished_cb (ch_peer_id c) True \<in> set (events t)" "set (events s) \<subseteq> set (events t)"
      by blast
    from peer [OF t(8)] obtain d where d: "chans t p = Some d" "ch_peer_id d = ch_peer_id c" by blast
    have full: "queued p t \<noteq> []" using t(5) by (simp add: var_packet_def packet_def)
    from flush_step [OF t(4) d(1) full] t(7) out(2) obtain s' where
      s': "PICA_write_c2c p t = Some (PICA_OK, s')" "outgoing_file p (drop n f) s'"
      "sent p s' @ queued p s' = sent p t @ queued p t" "length (queued p s') < length (queued p t)"
      "lext s' = lext t" "map_option ch_peer_id (chans s' p) = Some (ch_peer_id d)" "events s' = events t" by auto
    from peer s'(6) d(2) obtain d' where d': "chans s' p = Some d'" by auto
    have "c2c_active (\<lambda>_. False) (\<lambda>_. True) p s = Some (PICA_OK, s')"
      using t(1) s'(1) c d d' st fd next_part outgoing_fd(4) [OF t(4) d(1)] full outgoing_fd(1) [OF s'(2) d']
      by (simp add: c2c_active_def)
    moreover have "sent p s' @ queued p s' = sent p s @ var_packet PICA_PROTO_FILEFRAGMENT (take n f)"
      using s'(3) t(5,6) by (simp add: sent_def)
    moreover have "5 * length (drop n f) + length (queued p s') \<le> 5 * length f - 1" "length (take n f) < 65536"
      using s'(4) t(2,3,5) next_part(1) by (cases f; simp; linarith)+
    ultimately show ?thesis using s' t next_part d(2)
      by (intro exI [of _ s'] exI [of _ "take n f"] exI [of _ "drop n f"]) auto
  qed
qed

lemma send_rounds_complete:
  assumes "outgoing_file p f s" "progressing (lext s)" "chans s p = Some c" "5 * length f + length (queued p s) \<le> k"
  shows "\<exists>s' xs. send_rounds k p s = Some s' \<and> outgoing_file p [] s' \<and> concat xs = f \<and> (\<forall>x\<in>set xs. x \<noteq> [] \<and> length x < 65536) \<and>
     sent p s' = sent p s @ queued p s @ concat (map (var_packet PICA_PROTO_FILEFRAGMENT) xs) \<and>
     (f \<noteq> [] \<longrightarrow> file_finished_cb (ch_peer_id c) True \<in> set (events s')) \<and> set (events s) \<subseteq> set (events s')"
  using assms
proof (induction k arbitrary: f s c)
  case 0
  then show ?case by (intro exI [of _ s] exI [of _ "[]"]) simp
next
  case (Suc k)
  from active_round [OF Suc.prems(1-3)] obtain t x f' where
    t: "c2c_active (\<lambda>_. False) (\<lambda>_. True) p s = Some (PICA_OK, t)" "outgoing_file p f' t" "f = x @ f'" "length x < 65536"
      "lext t = lext s" "map_option ch_peer_id (chans t p) = Some (ch_peer_id c)"
      "sent p t @ queued p t = sent p s @ queued p s @ (if x = [] then [] else var_packet PICA_PROTO_FILEFRAGMENT x)"
      "5 * length f' + length (queued p t) \<le> 5 * length f + length (queued p s) - 1"
      "x \<noteq> [] \<and> f' = [] \<longrightarrow> file_finished_cb (ch_peer_id c) True \<in> set (events t)" "set (events s) \<subseteq> set (events t)"
    by blast
  from t(6) obtain d where d: "chans t p = Some d" "ch_peer_id d = ch_peer_id c" by auto
  have "progressing (lext t)" "5 * length f' + length (queued p t) \<le> k" using t(5,8) Suc.prems(2,4) by auto
  from Suc.IH [OF t(2) this(1) d(1) this(2)] obtain s' xs where
    s': "send_rounds k p t = Some s'" "outgoing_file p [] s'" "concat xs = f'" "\<forall>x\<in>set xs. x \<noteq> [] \<and> length x < 65536"
      "sent p s' = sent p t @ queued p t @ concat (map (var_packet PICA_PROTO_FILEFRAGMENT) xs)"
      "f' \<noteq> [] \<longrightarrow> file_finished_cb (ch_peer_id d) True \<in> set (events s')" "set (events t) \<subseteq> set (events s')"
    by blast
  have "sent p s' = sent p s @ queued p s @ concat (map (var_packet PICA_PROTO_FILEFRAGMENT) (if x = [] then xs else x # xs))"
    using s'(5) t(7) by (simp flip: append_assoc)
  moreover have "f \<noteq> [] \<longrightarrow> file_finished_cb (ch_peer_id c) True \<in> set (events s')"
    using s'(6,7) t(3,9) d(2) by auto
  ultimately show ?case using s' t(1,3,4,10)
    by (intro exI [of _ s'] exI [of _ "if x = [] then xs else x # xs"]) auto
qed

section \<open>Receiving a file\<close>

text \<open>\<open>n\<close> octets of a file are still to come, \<open>g\<close> have been written.\<close>

definition incoming_file :: "nat \<Rightarrow> byte list \<Rightarrow> nat \<Rightarrow> lib \<Rightarrow> bool" where
  "incoming_file q g n s \<longleftrightarrow>
     (case chans s q of None \<Rightarrow> False
      | Some d \<Rightarrow> ch_recvfilestate d \<in> {PICA_CHANRECVFILESTATE_RECEIVING, PICA_CHANRECVFILESTATE_PAUSED} \<and>
          ch_recvfile_stream d = Some g \<and> unat (ch_recvfile_pos d) + n = unat (ch_recvfile_size d))"

lemma fragment_received:
  assumes inc: "incoming_file q g (length x + n) s" "x \<noteq> []" "length x < 65536" and ok: "fwrite_ok (lext s) (n_fwrite s)"
    and d: "chans s q = Some d"
  shows "\<exists>s'. procmsg_FILEFRAGMENT (var_packet PICA_PROTO_FILEFRAGMENT x) (of_nat (length (var_packet PICA_PROTO_FILEFRAGMENT x))) q s
       = Some (1, s') \<and> lext s' = lext s \<and>
     (if n = 0 then files s' = files s @ [g @ x] \<and> events s' = events s @ [file_progress_cb (ch_peer_id d) 0 (ch_recvfile_size d),
          file_finished_cb (ch_peer_id d) False] \<and>
          map_option ch_recvfilestate (chans s' q) = Some PICA_CHANRECVFILESTATE_IDLE
      else incoming_file q (g @ x) n s' \<and> files s' = files s \<and> map_option ch_peer_id (chans s' q) = Some (ch_peer_id d))"
proof -
  define l where "l = (of_nat (length x) :: u32)"
  define buf where "buf = var_packet PICA_PROTO_FILEFRAGMENT x"
  have l: "unat l = length x" using inc(3) by (simp add: l_def unat_len)
  have rd: "rd16 buf 2 = Some (length x)" "of_nat (length buf) - 4 = l" "rd_bytes buf 4 (length x) = Some x"
    using inc(3) by (simp_all add: buf_def l_def rd_bytes_def)
  have st: "ch_recvfilestate d \<in> {PICA_CHANRECVFILESTATE_RECEIVING, PICA_CHANRECVFILESTATE_PAUSED}"
    "ch_recvfile_stream d = Some g" "unat (ch_recvfile_pos d) + (length x + n) = unat (ch_recvfile_size d)"
    using inc(1) d by (auto simp: incoming_file_def)
  define pos where "pos = ch_recvfile_pos d + ucast l"
  have "unat (ch_recvfile_size d) < 2 ^ 64" by (rule unsigned_less [THEN order.strict_trans2]) simp
  moreover have "unat (ucast l :: u64) = length x"
    using inc(3) l by (simp add: unsigned_ucast_eq take_bit_nat_eq_self)
  ultimately have u: "unat pos + n = unat (ch_recvfile_size d)"
    unfolding pos_def using st(3) by (simp add: unat_word_ariths)
  then have cmp: "\<not> pos > ch_recvfile_size d" "pos = ch_recvfile_size d \<longleftrightarrow> n = 0"
    by (auto simp: word_less_nat_alt word_unat_eq_iff)
  note go = procmsg_FILEFRAGMENT_def d Option.bind.simps rd Let_def l st(2)
    and fin = d st(1) inc(2) ok l_def [symmetric] pos_def [symmetric] cmp fclose_recv_def
  show ?thesis
  proof (cases "n = 0")
    case True
    let ?s' = "emit (file_finished_cb (ch_peer_id d) False) (emit (file_progress_cb (ch_peer_id d) 0 pos)
      (s\<lparr>n_fwrite := Suc (n_fwrite s), chans := (chans s)(q \<mapsto> d\<lparr>ch_recvfile_pos := pos,
         ch_recvfilestate := PICA_CHANRECVFILESTATE_IDLE, ch_recvfile_stream := None\<rparr>), files := files s @ [g @ x]\<rparr>))"
    have "procmsg_FILEFRAGMENT buf (of_nat (length buf)) q s = Some (1, ?s')"
      by (simp only: go) (simp add: fin True emit_def del: insert_iff)
    then show ?thesis using True cmp(2) by (intro exI [of _ ?s']) (simp add: buf_def)
  next
    case False
    let ?s' = "emit (file_progress_cb (ch_peer_id d) 0 pos) (s\<lparr>n_fwrite := Suc (n_fwrite s),
       chans := (chans s)(q \<mapsto> d\<lparr>ch_recvfile_stream := Some (g @ x), ch_recvfile_pos := pos\<rparr>)\<rparr>)"
    have "procmsg_FILEFRAGMENT buf (of_nat (length buf)) q s = Some (1, ?s')"
      by (simp only: go) (simp add: fin False emit_def del: insert_iff)
    then show ?thesis using False u st(1) by (intro exI [of _ ?s']) (simp add: incoming_file_def buf_def)
  qed
qed

lemma fragments_received:
  assumes "incoming_file q g (length (concat xs)) r" "xs \<noteq> []" "\<forall>x\<in>set xs. x \<noteq> [] \<and> length x < 65536"
    and "\<forall>n. fwrite_ok (lext r) n" "chans r q = Some d"
  shows "\<exists>r'. run_handlers c2c_messages q (map (var_packet PICA_PROTO_FILEFRAGMENT) xs) r = Some (1, r') \<and>
     files r' = files r @ [g @ concat xs] \<and> file_finished_cb (ch_peer_id d) False \<in> set (events r') \<and>
     map_option ch_recvfilestate (chans r' q) = Some PICA_CHANRECVFILESTATE_IDLE"
  using assms
proof (induction xs arbitrary: g r d)
  case (Cons x xs)
  then have x: "x \<noteq> []" "length x < 65536" by simp_all
  have n: "length (concat xs) = 0 \<longleftrightarrow> xs = []" using Cons.prems(3) by (cases xs) auto
  have "incoming_file q g (length x + length (concat xs)) r" using Cons.prems(1) by simp
  from fragment_received [OF this x Cons.prems(4) [rule_format] Cons.prems(5)] n obtain t where
    t: "procmsg_FILEFRAGMENT (var_packet PICA_PROTO_FILEFRAGMENT x) (of_nat (length (var_packet PICA_PROTO_FILEFRAGMENT x))) q r
       = Some (1, t)" "lext t = lext r"
      "xs = [] \<Longrightarrow> files t = files r @ [g @ x] \<and> file_finished_cb (ch_peer_id d) False \<in> set (events t) \<and>
         map_option ch_recvfilestate (chans t q) = Some PICA_CHANRECVFILESTATE_IDLE"
      "xs \<noteq> [] \<Longrightarrow> incoming_file q (g @ x) (length (concat xs)) t \<and> files t = files r \<and>
         map_option ch_peer_id (chans t q) = Some (ch_peer_id d)"
    by (auto simp del: length_var_packet)
  note run = t(1) processmsg_chan
  show ?case
  proof (cases "xs = []")
    case True
    then show ?thesis using t(3) run by (simp del: length_var_packet)
  next
    case False
    from t(4) [OF False] obtain d' where d': "chans t q = Some d'" "ch_peer_id d' = ch_peer_id d" by auto
    from Cons.IH [OF conjunct1 [OF t(4) [OF False]] False _ _ d'(1)] Cons.prems(3,4) t(2,4) False d'(2) show ?thesis
      using run by (simp del: length_var_packet)
  qed
qed simp

lemma length_fragments:
  "\<forall>x\<in>set xs. x \<noteq> [] \<Longrightarrow> length (concat (map (var_packet i) xs)) \<le> 5 * length (concat xs)"
proof (induction xs)
  case (Cons x xs)
  then show ?case by (cases x) auto
qed simp

section \<open>Round trips\<close>

text \<open>C3. Round trip of a file. A channel that is sending a file of \<open>n\<close> octets, through a
  socket and from a disk that make progress with every call, has written the whole file
  after at most \<open>5 * n\<close> rounds of its event handler, tells its application and closes the
  file; and what it has written, delivered to the receiving channel in any pieces, makes
  the receiver write exactly the octets of the file, close it, and tell its application.\<close>

theorem file_round_trip:
  assumes "outgoing_file p f s" "f \<noteq> []" "queued p s = []" "progressing (lext s)" "chans s p = Some c"
    and "incoming_file q [] (length f) r" "chans r q = Some d" "\<forall>n. fwrite_ok (lext r) n"
    and "5 * length f < 2 ^ 32 - 1"
  shows "\<exists>s' out. send_rounds (5 * length f) p s = Some s' \<and> sent p s' = sent p s @ out \<and>
     outgoing_file p [] s' \<and> file_finished_cb (ch_peer_id c) True \<in> set (events s') \<and>
     (\<forall>rs. concat rs = out \<longrightarrow>
        (\<exists>r'. map_option (\<lambda>(x, b, n, r'). (x, r')) (stream_reads c2c_messages q [] 0 rs r) = Some (1, r') \<and>
           files r' = files r @ [f] \<and> file_finished_cb (ch_peer_id d) False \<in> set (events r') \<and>
           map_option ch_recvfilestate (chans r' q) = Some PICA_CHANRECVFILESTATE_IDLE))"
proof -
  from send_rounds_complete [OF assms(1,4,5), of "5 * length f"] assms(3) obtain s' xs where
    s': "send_rounds (5 * length f) p s = Some s'" "outgoing_file p [] s'" "concat xs = f"
      "\<forall>x\<in>set xs. x \<noteq> [] \<and> length x < 65536" "f \<noteq> [] \<longrightarrow> file_finished_cb (ch_peer_id c) True \<in> set (events s')"
      "sent p s' = sent p s @ concat (map (var_packet PICA_PROTO_FILEFRAGMENT) xs)" by auto
  let ?ps = "map (var_packet PICA_PROTO_FILEFRAGMENT) xs"
  have ne: "xs \<noteq> []" using s'(3) assms(2) by auto
  from fragments_received [OF _ ne s'(4) assms(8,7), of "[]"] s'(3) assms(6) obtain r' where
    r': "run_handlers c2c_messages q ?ps r = Some (1, r')" "files r' = files r @ [f]"
      "file_finished_cb (ch_peer_id d) False \<in> set (events r')"
      "map_option ch_recvfilestate (chans r' q) = Some PICA_CHANRECVFILESTATE_IDLE" by auto
  have dl: "map_option (\<lambda>(x, b, n, r'). (x, r')) (stream_reads c2c_messages q [] 0 rs r) = Some (1, r')"
    if "concat rs = concat ?ps" for rs
    unfolding r'(1) [symmetric] using that s'(3,4) assms(9) length_fragments [of xs PICA_PROTO_FILEFRAGMENT]
    by (intro c2c_msgs.stream_reads_packets) (auto simp: complete_chan_packet)
  show ?thesis
    by (rule exI [of _ s'], rule exI [of _ "concat ?ps"], intro conjI allI impI exI [of _ r'])
      (use s' r' assms(2) dl in simp_all)
qed

definition demo_sender :: lib where
  "demo_sender = demo_active\<lparr>chans := [1 \<mapsto> demo_chan\<lparr>ch_sendfilestate := PICA_CHANSENDFILESTATE_SENDING,
     ch_sendfile_stream := Some [1, 2, 3], ch_sendfile_size := 3\<rparr>]\<rparr>"

definition demo_receiver :: lib where
  "demo_receiver = demo_active\<lparr>chans := [1 \<mapsto> demo_chan\<lparr>ch_recvfilestate := PICA_CHANRECVFILESTATE_RECEIVING,
     ch_recvfile_stream := Some [], ch_recvfile_size := 3\<rparr>]\<rparr>"

theorem file_round_trip_witness:
  "\<exists>s' out. send_rounds 15 1 demo_sender = Some s' \<and> sent 1 s' = out \<and>
     (\<exists>r'. map_option (\<lambda>(x, b, n, r'). (x, r')) (stream_reads c2c_messages 1 [] 0 [out] demo_receiver) = Some (1, r') \<and>
        files r' = [[1, 2, 3]])"
proof -
  have *: "outgoing_file 1 [1, 2, 3] demo_sender" "queued 1 demo_sender = []" "progressing (lext demo_sender)"
    "incoming_file 1 [] (length [1, 2, 3 :: byte]) demo_receiver" "\<forall>n. fwrite_ok (lext demo_receiver) n"
    "5 * length [1, 2, 3 :: byte] < 2 ^ 32 - 1" "[1, 2, 3 :: byte] \<noteq> []" "sent 1 demo_sender = []" "files demo_receiver = []"
    "5 * length [1, 2, 3 :: byte] = 15"
    by (simp_all add: outgoing_file_def incoming_file_def queued_def progressing_def plain_chan_def demo_sender_def sent_def
        demo_receiver_def demo_active_def demo_chan_def new_c2c_def init_lib_def calm_env_def demo_ext_def)
  obtain c d where "chans demo_sender 1 = Some c" "chans demo_receiver 1 = Some d"
    by (simp add: demo_sender_def demo_receiver_def)
  note rt = file_round_trip [OF *(1,7,2,3) this(1) *(4) this(2) *(5,6), unfolded *(8,9,10) append_Nil]
  show ?thesis
  proof (rule exE [OF rt], elim exE conjE, goal_cases)
    case (1 s' out)
    from 1(5) [rule_format, of "[out]"] obtain r' where
      "map_option (\<lambda>(x, b, n, r'). (x, r')) (stream_reads c2c_messages 1 [] 0 [out] demo_receiver) = Some (1, r')"
      "files r' = [[1, 2, 3]]" by auto
    with 1(1,2) show ?case by blast
  qed
qed

end
