(* ===== verification/ClientFaults.thy ===== *)
theory ClientFaults
  imports ClientXfer
begin

text \<open>
  Inputs on which the client library has no defined result. Each theorem is about the
  stream of an authenticated peer, or about the files of the receiver: a peer can make the
  library read far outside its buffer, close a stream that is not open, or call
  \<open>exit\<close>.
\<close>

section \<open>One packet of a channel\<close>

lemma stream_one:
  assumes "complete_packet c2c_messages pk" "PICA_processmsg pk (of_nat (length pk)) p s c2c_messages = None"
  shows "PICA_processdatastream pk (of_nat (length pk)) p s c2c_messages = None"
proof -
  have pk: "pk \<noteq> []" "length pk < 65540" "unat (PICA_msggetsize pk (of_nat (length pk)) c2c_messages) = length pk"
    using assms(1) by (auto simp: complete_packet_def)
  have u: "unat (of_nat (length pk) :: u32) = length pk" using pk(2) by (simp add: unat_of_nat take_bit_nat_eq_self)
  then have "PICA_msggetsize pk (of_nat (length pk)) c2c_messages = of_nat (length pk)"
    using pk(3) u by (simp add: word_unat_eq_iff)
  moreover have "(of_nat (length pk) :: u32) \<noteq> 0" using u pk(1) by (metis length_0_conv unat_0)
  ultimately show ?thesis
    using processdatastream_go [of "of_nat (length pk)" pk c2c_messages "of_nat (length pk)" p s] assms(2) by simp
qed

lemma complete_fixed_packet:
  assumes "length t = 2" "i \<in> {PICA_PROTO_FILECONTROL, PICA_PROTO_C2CCONNREQ}"
  shows "complete_packet c2c_messages (packet i t)"
  using assms by (auto simp: complete_packet_def PICA_msggetsize_def c2c_messages_def packet_def)

lemma send_filecontrol_ok:
  assumes "chan_ok p 4 s" "chans s p = Some c"
  shows "\<exists>s'. PICA_send_filecontrol p a b s = Some (PICA_OK, s') \<and>
     map_option ch_recvfile_stream (chans s' p) = Some (ch_recvfile_stream c)"
proof -
  have "chan_ok p (length [a, b] + 2) s" using assms(1) by (simp add: eval_nat_numeral)
  from chan_send_ok [OF this assms(2), of PICA_PROTO_FILECONTROL_SIZE PICA_PROTO_FILECONTROL] obtain e w where
    "chan_send p PICA_PROTO_FILECONTROL PICA_PROTO_FILECONTROL_SIZE [a, b] s
      = Some (True, s\<lparr>lenv := e, chans := (chans s)(p \<mapsto> c\<lparr>ch_w := w\<rparr>)\<rparr>)" by auto
  then show ?thesis
    by (intro exI [of _ "s\<lparr>lenv := e, chans := (chans s)(p \<mapsto> c\<lparr>ch_w := w\<rparr>)\<rparr>"]) (simp add: PICA_send_filecontrol_def)
qed

section \<open>Properties\<close>

text \<open>C37. A request to send a file whose payload has less than 8 octets, from a peer of an
  idle channel, has no defined result: the length of the name is computed as a difference
  of unsigned integers, and about 4 GiB are read behind the packet.\<close>

theorem sendfilerequest_short_overreads:
  assumes "length x < 8" "chans s p = Some c" "ch_recvfilestate c = PICA_CHANRECVFILESTATE_IDLE"
  shows "PICA_processdatastream (var_packet PICA_PROTO_SENDFILEREQUEST x) (of_nat (4 + length x)) p s c2c_messages = None"
proof -
  let ?pk = "var_packet PICA_PROTO_SENDFILEREQUEST x"
  have "rd_bytes ?pk 12 (unat (of_nat (length x) - 8 :: u32)) = None"
    using assms(1) name_size_underflow [OF assms(1)] by (simp add: rd_bytes_def)
  with assms have "procmsg_SENDFILEREQUEST ?pk n p s = None" for n
    by (simp add: procmsg_SENDFILEREQUEST_def)
  then have "PICA_processmsg ?pk (of_nat (length ?pk)) p s c2c_messages = None" by (simp add: processmsg_chan)
  with stream_one [OF complete_chan_packet, of x PICA_PROTO_SENDFILEREQUEST] assms(1) show ?thesis by simp
qed

theorem sendfilerequest_short_overreads_witness:
  "PICA_processdatastream (var_packet PICA_PROTO_SENDFILEREQUEST [0]) 5 1 demo_active c2c_messages = None"
  using sendfilerequest_short_overreads [of "[0]" demo_active 1 demo_chan] demo_active_ok
  by (simp add: demo_chan_def new_c2c_def)

text \<open>C38. When the sender cancels a file that the receiver has not accepted yet, the receiver
  closes a stream that is not open.\<close>

theorem cancel_before_accept_faults:
  assumes "chans s p = Some c" "ch_recvfilestate c = PICA_CHANRECVFILESTATE_WAITACCEPT" "ch_recvfile_stream c = None"
    and "cmd \<in> {PICA_PROTO_FILECONTROL_CANCEL, PICA_PROTO_FILECONTROL_IOERROR}"
  shows "PICA_processdatastream (packet PICA_PROTO_FILECONTROL [cmd, PICA_PROTO_FILECONTROL_VOID]) 4 p s c2c_messages = None"
proof -
  have "procmsg_FILECONTROL (packet PICA_PROTO_FILECONTROL [cmd, PICA_PROTO_FILECONTROL_VOID]) 4 p s = None"
    using assms by (auto simp: procmsg_FILECONTROL_def packet_def control_recv_def fclose_recv_def)
  then have "PICA_processmsg (packet PICA_PROTO_FILECONTROL [cmd, PICA_PROTO_FILECONTROL_VOID])
      (of_nat (length (packet PICA_PROTO_FILECONTROL [cmd, PICA_PROTO_FILECONTROL_VOID]))) p s c2c_messages = None"
    by (simp add: PICA_processmsg_def c2c_messages_def packet_def)
  from stream_one [OF complete_fixed_packet this] show ?thesis by simp
qed

theorem cancel_before_accept_faults_witness:
  "PICA_processdatastream [0x54, 0x54, PICA_PROTO_FILECONTROL_CANCEL, PICA_PROTO_FILECONTROL_VOID] 4 1
     (demo_active\<lparr>chans := [1 \<mapsto> demo_chan\<lparr>ch_recvfilestate := PICA_CHANRECVFILESTATE_WAITACCEPT\<rparr>]\<rparr>) c2c_messages = None"
  using cancel_before_accept_faults [of "demo_active\<lparr>chans := [1 \<mapsto> demo_chan\<lparr>ch_recvfilestate := PICA_CHANRECVFILESTATE_WAITACCEPT\<rparr>]\<rparr>"
      1 "demo_chan\<lparr>ch_recvfilestate := PICA_CHANRECVFILESTATE_WAITACCEPT\<rparr>" PICA_PROTO_FILECONTROL_CANCEL]
  by (simp add: demo_chan_def new_c2c_def packet_def)

text \<open>C39. When the disk refuses the last fragment of a file, the receiver closes its stream
  twice: the error branch closes it and the function goes on.\<close>

theorem write_error_on_last_fragment_faults:
  assumes "chans s p = Some c" "ch_recvfilestate c = PICA_CHANRECVFILESTATE_RECEIVING" "ch_recvfile_stream c = Some g"
    and "length x < 65536" "\<not> fwrite_ok (lext s) (n_fwrite s)" "ch_recvfile_pos c + of_nat (length x) = ch_recvfile_size c"
    and "chan_ok p 4 s"
  shows "PICA_processdatastream (var_packet PICA_PROTO_FILEFRAGMENT x) (of_nat (4 + length x)) p s c2c_messages = None"
proof -
  define buf where "buf = var_packet PICA_PROTO_FILEFRAGMENT x"
  have rd: "rd16 buf 2 = Some (length x)" "of_nat (length buf) - 4 = (of_nat (length x) :: u32)"
    "rd_bytes buf 4 (unat (of_nat (length x) :: u32)) = Some x"
    using assms(4) by (simp_all add: buf_def rd_bytes_def unat_len)
  have pos: "ch_recvfile_pos c + ucast (of_nat (length x) :: u32) = ch_recvfile_size c"
    using assms(4,6) by (simp add: ucast_len)
  let ?c1 = "c\<lparr>ch_recvfile_stream := None, ch_recvfilestate := PICA_CHANRECVFILESTATE_IDLE\<rparr>"
  let ?s1 = "s\<lparr>n_fwrite := Suc (n_fwrite s), files := files s @ [g], chans := (chans s)(p \<mapsto> ?c1)\<rparr>"
  have "chan_ok p 4 ?s1" "chans ?s1 p = Some ?c1"
    using assms(1,7) by (auto simp: chan_ok_def)
  from send_filecontrol_ok [OF this, of PICA_PROTO_FILECONTROL_VOID PICA_PROTO_FILECONTROL_IOERROR] obtain s' where
    s': "PICA_send_filecontrol p PICA_PROTO_FILECONTROL_VOID PICA_PROTO_FILECONTROL_IOERROR ?s1 = Some (PICA_OK, s')"
      "map_option ch_recvfile_stream (chans s' p) = Some None" by auto
  then obtain c' where "chans s' p = Some c'" "ch_recvfile_stream c' = None" by auto
  with s'(1) have "procmsg_FILEFRAGMENT buf (of_nat (length buf)) p s = None"
    by (simp only: procmsg_FILEFRAGMENT_def assms(1-3) Option.bind.simps rd Let_def)
      (simp add: assms(1,3,5) fclose_recv_def pos)
  then have "PICA_processmsg buf (of_nat (length buf)) p s c2c_messages = None"
    unfolding buf_def by (simp only: processmsg_chan)
  with stream_one [OF complete_chan_packet, of x PICA_PROTO_FILEFRAGMENT] assms(4) show ?thesis by (simp add: buf_def)
qed

definition demo_last :: lib where
  "demo_last = demo_active\<lparr>lext := demo_ext\<lparr>fwrite_ok := (\<lambda>_. False)\<rparr>,
     chans := [1 \<mapsto> demo_chan\<lparr>ch_recvfilestate := PICA_CHANRECVFILESTATE_RECEIVING, ch_recvfile_stream := Some [1],
        ch_recvfile_pos := 1, ch_recvfile_size := 2\<rparr>]\<rparr>"

theorem write_error_on_last_fragment_faults_witness:
  "PICA_processdatastream (var_packet PICA_PROTO_FILEFRAGMENT [2]) 5 1 demo_last c2c_messages = None"
  using write_error_on_last_fragment_faults [of demo_last 1 _ "[1]" "[2]"]
  by (simp add: demo_last_def chan_ok_def demo_chan_def new_c2c_def demo_active_def init_lib_def calm_env_def)
    (simp add: empty_wbuf_def)

text \<open>C36. A peer that announces another version of the protocol ends the program: the answer
  is queued while the channel waits for the version, the event loop waits for the socket to
  take it, and then the writer finds the channel in a state in which it calls \<open>exit\<close>.\<close>

theorem version_mismatch_exits:
  assumes "chans s p = Some c" "ch_state c = PICA_C2C_STATE_WAITINGC2CPROTOVER" "chan_ok p 4 s"
    and "ch_directc2c_state c \<noteq> PICA_DIRECTC2C_STATE_ACTIVE" "[h, l] \<noteq> [PICA_C2CPROTO_VER_HIGH, PICA_C2CPROTO_VER_LOW]"
  shows "\<exists>s'. PICA_processmsg (packet PICA_PROTO_C2CCONNREQ [h, l]) 4 p s c2c_messages = Some (1, s') \<and>
     (\<forall>i i' t. add_chan p i s' = Some (i', t) \<longrightarrow> ch_sck c \<in> set (snd i')) \<and>
     (\<forall>rfds wfds. wfds (ch_sck c) \<longrightarrow> process_c2c rfds wfds p s' = None)"
proof -
  let ?t = "[PICA_C2CPROTO_VER_HIGH, PICA_C2CPROTO_VER_LOW]"
  have "chan_ok p (length ?t + 2) s" using assms(3) by (simp add: eval_nat_numeral)
  from chan_send_ok [OF this assms(1), of PICA_PROTO_VERDIFFER_SIZE PICA_PROTO_VERDIFFER] obtain e w where
    w: "chan_send p PICA_PROTO_VERDIFFER PICA_PROTO_VERDIFFER_SIZE ?t s
      = Some (True, s\<lparr>lenv := e, chans := (chans s)(p \<mapsto> c\<lparr>ch_w := w\<rparr>)\<rparr>)"
      "pending w = pending (ch_w c) @ packet PICA_PROTO_VERDIFFER ?t" "wbuf_ok w" by auto
  let ?s' = "s\<lparr>lenv := e, chans := (chans s)(p \<mapsto> c\<lparr>ch_w := w, ch_disconnect_on_empty_write_buf := True\<rparr>)\<rparr>"
  have "w_pos w \<noteq> 0" using w(2) length_pending [OF w(3)] by auto
  then have "ch_sck c \<in> set (snd i')" if "add_chan p i ?s' = Some (i', t)" for i i' t
    using that assms(2,4)
    by (auto simp: add_chan_def add_direct_def add_rw_def fdset_add_def state_order_defs split: option.splits prod.splits if_splits)
  moreover have "process_c2c rfds wfds p ?s' = None" if "wfds (ch_sck c)" for rfds wfds
    using that assms(2) by (simp add: process_c2c_def c2c_dispatch_def c2c_handshake_io_def PICA_write_c2c_def)
  moreover have "PICA_processmsg (packet PICA_PROTO_C2CCONNREQ [h, l]) 4 p s c2c_messages = Some (1, ?s')"
    using assms w(1) by (auto simp: PICA_processmsg_def c2c_messages_def packet_def procmsg_C2CCONNREQ_def)
  ultimately show ?thesis by blast
qed

theorem version_mismatch_exits_witness:
  "\<exists>s'. PICA_processmsg (packet PICA_PROTO_C2CCONNREQ [9, 9]) 4 1
       (demo_active\<lparr>chans := [1 \<mapsto> demo_chan\<lparr>ch_state := PICA_C2C_STATE_WAITINGC2CPROTOVER\<rparr>]\<rparr>) c2c_messages = Some (1, s') \<and>
     process_c2c (\<lambda>_. False) (\<lambda>fd. fd = 5) 1 s' = None"
  using version_mismatch_exits [of "demo_active\<lparr>chans := [1 \<mapsto> demo_chan\<lparr>ch_state := PICA_C2C_STATE_WAITINGC2CPROTOVER\<rparr>]\<rparr>"
      1 "demo_chan\<lparr>ch_state := PICA_C2C_STATE_WAITINGC2CPROTOVER\<rparr>" 9 9]
  by (auto simp: chan_ok_def demo_chan_def new_c2c_def demo_active_def init_lib_def calm_env_def empty_wbuf_def wbuf_ok_def)

end
