(* ===== verification/ClientLife.thy ===== *)
theory ClientLife
  imports ClientLoop
begin

text \<open>
  The life of the client library's objects: closing a connection frees its channels and
  their direct connections and closes their sockets, each once; a channel that does not
  become active in time is given up.
\<close>

section \<open>Closing a connection\<close>

text \<open>The direct connection of a channel, and the sockets a channel closes.\<close>

definition chan_direct :: "lib \<Rightarrow> nat \<Rightarrow> nat list" where
  "chan_direct s p =
     (case chans s p of None \<Rightarrow> [] | Some c \<Rightarrow> (case ch_direct c of None \<Rightarrow> [] | Some d \<Rightarrow> [d]))"

definition chan_sockets :: "lib \<Rightarrow> nat \<Rightarrow> int list" where
  "chan_sockets s p =
     (case chans s p of None \<Rightarrow> [] | Some c \<Rightarrow> ch_sck c # map (\<lambda>d. dc_sck (the (directs s d))) (chan_direct s p))"

text \<open>
  The channels of a connection exist and belong to it, and their direct connections exist
  and are not shared.
\<close>

definition owns :: "nat \<Rightarrow> nat list \<Rightarrow> lib \<Rightarrow> bool" where
  "owns cn ps s \<longleftrightarrow> distinct ps \<and> distinct (concat (map (chan_direct s) ps)) \<and>
     (\<forall>p\<in>set ps. \<exists>c. chans s p = Some c \<and> ch_conn c = cn \<and> (\<forall>d. ch_direct c = Some d \<longrightarrow> d \<in> dom (directs s)))"

definition conn_wf :: "nat \<Rightarrow> lib \<Rightarrow> bool" where
  "conn_wf cn s \<longleftrightarrow> (\<exists>n. conns s cn = Some n \<and> owns cn (cn_chan_list n) s)"

lemma close_c2c_owned:
  assumes "owns cn xs s" "p \<in> set xs" "conns s cn = Some n" "cn_chan_list n = xs"
  obtains s' where "PICA_close_c2c p s = Some s'" "conns s' = (conns s)(cn \<mapsto> n\<lparr>cn_chan_list := remove1 p xs\<rparr>)"
    "chans s' = (chans s)(p := None)" "directs s' = directs s |` (- set (chan_direct s p))"
    "lclosed s' = lclosed s @ chan_sockets s p" "lenv s' = lenv s" "events s' = events s"
proof -
  from assms(1,2) obtain c where c: "chans s p = Some c" "ch_conn c = cn"
    "\<And>d. ch_direct c = Some d \<Longrightarrow> d \<in> dom (directs s)" by (auto simp: owns_def)
  show thesis
  proof (cases "ch_direct c")
    case None
    with c assms(3,4) that show thesis
      by (simp add: PICA_close_c2c_def chan_direct_def chan_sockets_def restrict_map_def)
  next
    case (Some d)
    with c(3) obtain dc where "directs s d = Some dc" by auto
    moreover have "directs s |` (- {d}) = (directs s)(d := None)" by (auto simp: restrict_map_def)
    ultimately show thesis using Some c(1,2) assms(3,4) that
      by (simp add: PICA_close_c2c_def PICA_close_directc2c_def chan_direct_def chan_sockets_def)
  qed
qed

lemma chan_direct_frame:
  "q \<noteq> p \<Longrightarrow> chans s' = (chans s)(p := None) \<Longrightarrow> chan_direct s' q = chan_direct s q"
  by (simp add: chan_direct_def)

lemma owns_distinct:
  assumes "owns cn xs s" "p \<in> set xs" "q \<in> set xs" "p \<noteq> q"
  shows "set (chan_direct s p) \<inter> set (chan_direct s q) = {}"
proof -
  from assms(2) obtain ys zs where xs: "xs = ys @ p # zs" by (meson split_list)
  with assms have "q \<in> set (ys @ zs)" by auto
  with assms(1) xs show ?thesis by (fastforce simp: owns_def)
qed

text \<open>The other channels keep their direct connections, and are still owned.\<close>

lemma owns_remove:
  assumes o: "owns cn xs s" "p \<in> set xs" and s': "chans s' = (chans s)(p := None)"
    "directs s' = directs s |` (- set (chan_direct s p))"
  shows "owns cn (remove1 p xs) s'"
    "\<And>q. q \<in> set xs \<Longrightarrow> q \<noteq> p \<Longrightarrow> chan_direct s' q = chan_direct s q \<and> chan_sockets s' q = chan_sockets s q"
proof -
  have d: "distinct xs" using o(1) by (simp add: owns_def)
  then have q: "q \<in> set xs \<and> q \<noteq> p" if "q \<in> set (remove1 p xs)" for q using that by auto
  have keep: "directs s' d = directs s d" if "q \<in> set xs" "q \<noteq> p" "d \<in> set (chan_direct s q)" for q d
    using owns_distinct [OF o(1,2) that(1)] that s'(2) by (auto simp: restrict_map_def)
  show same: "\<And>q. q \<in> set xs \<Longrightarrow> q \<noteq> p \<Longrightarrow> chan_direct s' q = chan_direct s q \<and> chan_sockets s' q = chan_sockets s q"
  proof -
    fix q
    assume q: "q \<in> set xs" "q \<noteq> p"
    note cd = chan_direct_frame [OF q(2) s'(1)]
    have "map (\<lambda>d. dc_sck (the (directs s' d))) (chan_direct s q) = map (\<lambda>d. dc_sck (the (directs s d))) (chan_direct s q)"
      using keep [OF q] by (intro map_cong) simp_all
    then show "chan_direct s' q = chan_direct s q \<and> chan_sockets s' q = chan_sockets s q"
      using cd q(2) s'(1) by (simp add: chan_sockets_def split: option.split)
  qed
  have cd: "map (chan_direct s') (remove1 p xs) = map (chan_direct s) (remove1 p xs)"
    by (rule map_cong [OF refl]) (use q same in blast)
  have "distinct (concat (map (chan_direct s) (remove1 p xs)))"
  proof -
    from o(2) obtain ys zs where "xs = ys @ p # zs" "p \<notin> set ys" by (meson split_list_first)
    with o(1) show ?thesis by (auto simp: owns_def remove1_append)
  qed
  moreover have "\<exists>c. chans s' r = Some c \<and> ch_conn c = cn \<and> (\<forall>d. ch_direct c = Some d \<longrightarrow> d \<in> dom (directs s'))"
    if "r \<in> set (remove1 p xs)" for r
  proof -
    from q [OF that] o(1) obtain c where c: "chans s r = Some c" "ch_conn c = cn" "\<forall>d. ch_direct c = Some d \<longrightarrow> d \<in> dom (directs s)"
      by (auto simp: owns_def)
    have "d \<in> dom (directs s')" if "ch_direct c = Some d" for d
      using keep [of r d] q [OF \<open>r \<in> set (remove1 p xs)\<close>] that c by (auto simp: chan_direct_def dom_def)
    with c q [OF that] s'(1) show ?thesis by auto
  qed
  ultimately show "owns cn (remove1 p xs) s'" using d unfolding owns_def cd by simp
qed

lemma close_chans_owned:
  assumes "owns cn ps s" "conns s cn = Some n" "cn_chan_list n = ps"
  shows "\<exists>s'. close_chans cn s = Some s' \<and> conns s' = (conns s)(cn \<mapsto> n\<lparr>cn_chan_list := []\<rparr>) \<and>
     chans s' = chans s |` (- set ps) \<and> directs s' = directs s |` (- set (concat (map (chan_direct s) ps))) \<and>
     lclosed s' = lclosed s @ concat (map (chan_sockets s) ps)"
  using assms
proof (induction ps arbitrary: s n)
  case Nil
  then have "n\<lparr>cn_chan_list := []\<rparr> = n" by simp
  with Nil show ?case by (subst close_chans.simps) (simp add: fun_upd_idem restrict_map_def)
next
  case (Cons p ps)
  have p: "p \<in> set (p # ps)" by simp
  from close_c2c_owned [OF Cons.prems(1) p Cons.prems(2,3)] obtain t where
    t: "PICA_close_c2c p s = Some t" "conns t = (conns s)(cn \<mapsto> n\<lparr>cn_chan_list := ps\<rparr>)"
      "chans t = (chans s)(p := None)" "directs t = directs s |` (- set (chan_direct s p))"
      "lclosed t = lclosed s @ chan_sockets s p" by auto
  note own = owns_remove [OF Cons.prems(1) p t(3,4)]
  have np: "p \<notin> set ps" using Cons.prems(1) by (simp add: owns_def)
  have cd: "map (chan_direct t) ps = map (chan_direct s) ps" "map (chan_sockets t) ps = map (chan_sockets s) ps"
    by (rule map_cong [OF refl], metis own(2) np list.set_intros(2))+
  have "owns cn ps t" using own(1) by simp
  moreover have "conns t cn = Some (n\<lparr>cn_chan_list := ps\<rparr>)" using t(2) by simp
  ultimately have "\<exists>s'. close_chans cn t = Some s' \<and>
     conns s' = (conns t)(cn \<mapsto> n\<lparr>cn_chan_list := []\<rparr>) \<and> chans s' = chans t |` (- set ps) \<and>
     directs s' = directs t |` (- set (concat (map (chan_direct s) ps))) \<and>
     lclosed s' = lclosed t @ concat (map (chan_sockets s) ps)"
    using Cons.IH [of t "n\<lparr>cn_chan_list := ps\<rparr>"] unfolding cd by (simp add: fun_upd_def)
  with t Cons.prems(2,3) show ?case
    by (subst close_chans.simps) (auto simp: restrict_map_def fun_eq_iff)
qed

section \<open>Timeouts\<close>

definition overdue :: "lib \<Rightarrow> nat \<Rightarrow> bool" where
  "overdue s p \<longleftrightarrow> (case chans s p of None \<Rightarrow> False
     | Some c \<Rightarrow> ch_state c \<noteq> PICA_C2C_STATE_ACTIVE \<and> now (lenv s) - ch_timestamp c > PICA_C2C_ACTIVATE_TIMEOUT)"

text \<open>What the application is told of a channel that is given up.\<close>

definition timeout_event :: "lib \<Rightarrow> nat \<Rightarrow> callback" where
  "timeout_event s p = (case chans s p of None \<Rightarrow> msgok_cb []
     | Some c \<Rightarrow> if ch_state c = PICA_C2C_STATE_NEW then c2c_closed_cb (ch_peer_id c) PICA_ERRTIMEDOUT
                 else c2c_failed_cb (ch_peer_id c))"

text \<open>
  A channel that waits: it does not leave the state in which it sends its identifiers with
  an empty queue, and an active direct connection exists.
\<close>

definition waits :: "lib \<Rightarrow> nat \<Rightarrow> bool" where
  "waits s p \<longleftrightarrow> (\<forall>c. chans s p = Some c \<longrightarrow>
     (ch_state c = PICA_C2C_STATE_CONNID \<longrightarrow> w_pos (ch_w c) \<noteq> 0) \<and>
     (ch_directc2c_state c = PICA_DIRECTC2C_STATE_ACTIVE \<longrightarrow> chan_direct s p \<noteq> []))"

lemma quiet_process_c2c:
  assumes "owns cn xs s" "p \<in> set xs" "waits s p"
  shows "process_c2c (\<lambda>_. False) (\<lambda>_. False) p s =
     Some (if overdue s p then PICA_ERRTIMEDOUT else PICA_OK, if overdue s p then emit (timeout_event s p) s else s)"
proof -
  from assms(1,2) obtain c where c: "chans s p = Some c" "\<And>d. ch_direct c = Some d \<Longrightarrow> d \<in> dom (directs s)"
    by (auto simp: owns_def)
  have fd: "c2c_fd_isset (\<lambda>_. False) c s = Some False"
    using assms(3) c by (auto simp: c2c_fd_isset_def waits_def chan_direct_def split: option.splits)
  have "c2c_dispatch (\<lambda>_. False) (\<lambda>_. False) p s = Some (PICA_OK, s)"
    using assms(3) c(1) fd
    by (cases "ch_state c") (auto simp: c2c_dispatch_def c2c_ready_def c2c_handshake_io_def c2c_active_def waits_def)
  then show ?thesis using c(1)
    by (cases "ch_state c") (auto simp: process_c2c_def overdue_def timeout_event_def state_order_defs Let_def)
qed

lemma next_in_append: "p \<notin> set xs \<Longrightarrow> next_in p (xs @ p # ys) = (case ys of [] \<Rightarrow> None | y # _ \<Rightarrow> Some y)"
  by (induction xs) auto

lemma waits_frame:
  "chans s' q = chans s q \<Longrightarrow> waits s' q = waits s q" "chans s' q = chans s q \<Longrightarrow> timeout_event s' q = timeout_event s q"
  "chans s' q = chans s q \<Longrightarrow> lenv s' = lenv s \<Longrightarrow> overdue s' q = overdue s q"
  by (simp_all add: waits_def timeout_event_def overdue_def chan_direct_def split: option.split)

lemma owns_emit [simp]: "owns cn xs (emit e s) = owns cn xs s" "chan_direct (emit e s) = chan_direct s"
  "chan_sockets (emit e s) = chan_sockets s"
proof -
  show d: "chan_direct (emit e s) = chan_direct s" by (simp add: fun_eq_iff chan_direct_def)
  then show "owns cn xs (emit e s) = owns cn xs s" by (simp add: owns_def)
  show "chan_sockets (emit e s) = chan_sockets s" using d by (simp add: fun_eq_iff chan_sockets_def split: option.split)
qed

lemma quiet_loop:
  assumes "owns cn (xs @ ps) s" "conns s cn = Some n" "cn_chan_list n = xs @ ps" "\<forall>p\<in>set ps. waits s p"
  shows "\<exists>s'. chan_loop (\<lambda>_. False) (\<lambda>_. False) cn (case ps of [] \<Rightarrow> None | p # _ \<Rightarrow> Some p) s = Some s' \<and>
     conns s' = (conns s)(cn \<mapsto> n\<lparr>cn_chan_list := xs @ filter (\<lambda>p. \<not> overdue s p) ps\<rparr>) \<and>
     chans s' = chans s |` (- set (filter (overdue s) ps)) \<and>
     lclosed s' = lclosed s @ concat (map (chan_sockets s) (filter (overdue s) ps)) \<and>
     events s' = events s @ map (timeout_event s) (filter (overdue s) ps)"
  using assms
proof (induction ps arbitrary: xs s n)
  case Nil
  then have "n\<lparr>cn_chan_list := xs\<rparr> = n" by simp
  with Nil show ?case by (subst chan_loop.simps) (simp add: fun_upd_idem restrict_map_def)
next
  case (Cons p ps)
  have p: "p \<in> set (xs @ p # ps)" by simp
  have dist: "p \<notin> set xs" "p \<notin> set ps" using Cons.prems(1) by (auto simp: owns_def)
  note nxt = next_in_append [OF dist(1), of ps]
  note proc = quiet_process_c2c [OF Cons.prems(1) p]
  show ?case
  proof (cases "overdue s p")
    case False
    have "owns cn ((xs @ [p]) @ ps) s" "cn_chan_list n = (xs @ [p]) @ ps" using Cons.prems by simp_all
    from Cons.IH [OF this(1) Cons.prems(2) this(2)] Cons.prems(4) False proc Cons.prems(2,3) nxt show ?thesis
      by (subst chan_loop.simps) (simp add: fun_upd_def)
  next
    case True
    let ?s = "emit (timeout_event s p) s"
    have o: "owns cn (xs @ p # ps) ?s" "conns ?s cn = Some n" using Cons.prems by simp_all
    from close_c2c_owned [OF o(1) p o(2) Cons.prems(3)] dist obtain t where
      t: "PICA_close_c2c p ?s = Some t" "conns t = (conns s)(cn \<mapsto> n\<lparr>cn_chan_list := xs @ ps\<rparr>)"
        "chans t = (chans s)(p := None)" "directs t = directs s |` (- set (chan_direct s p))"
        "lclosed t = lclosed s @ chan_sockets s p" "lenv t = lenv s" "events t = events s @ [timeout_event s p]"
      by (auto simp: remove1_append)
    have own: "owns cn (xs @ ps) t" "\<And>q. q \<in> set ps \<Longrightarrow> chan_sockets t q = chan_sockets s q"
      using owns_remove [OF Cons.prems(1) p t(3,4)] dist by (auto simp: remove1_append)
    have same: "overdue t q = overdue s q" "waits t q = waits s q" "timeout_event t q = timeout_event s q" if q: "q \<in> set ps" for q
    proof -
      have "q \<noteq> p" using q dist(2) by auto
      then have "chans t q = chans s q" using t(3) by simp
      then show "overdue t q = overdue s q" "waits t q = waits s q" "timeout_event t q = timeout_event s q"
        using waits_frame [of t q s] t(6) by simp_all
    qed
    have f: "filter (\<lambda>q. \<not> overdue t q) ps = filter (\<lambda>q. \<not> overdue s q) ps" "filter (overdue t) ps = filter (overdue s) ps"
      using same(1) by (auto intro!: filter_cong)
    have m: "map (timeout_event t) (filter (overdue s) ps) = map (timeout_event s) (filter (overdue s) ps)"
      "map (chan_sockets t) (filter (overdue s) ps) = map (chan_sockets s) (filter (overdue s) ps)"
      using same(3) own(2) by auto
    have n: "conns t cn = Some (n\<lparr>cn_chan_list := xs @ ps\<rparr>)" "cn_chan_list (n\<lparr>cn_chan_list := xs @ ps\<rparr>) = xs @ ps"
      "\<forall>q\<in>set ps. waits t q" using t(2) Cons.prems(4) same(2) by auto
    from Cons.IH [OF own(1) n, unfolded f m] obtain s' where
      "chan_loop (\<lambda>_. False) (\<lambda>_. False) cn (case ps of [] \<Rightarrow> None | p # _ \<Rightarrow> Some p) t = Some s'"
      "conns s' = (conns t)(cn \<mapsto> n\<lparr>cn_chan_list := xs @ ps\<rparr>\<lparr>cn_chan_list := xs @ filter (\<lambda>p. \<not> overdue s p) ps\<rparr>)"
      "chans s' = chans t |` (- set (filter (overdue s) ps))"
      "lclosed s' = lclosed t @ concat (map (chan_sockets s) (filter (overdue s) ps))"
      "events s' = events t @ map (timeout_event s) (filter (overdue s) ps)"
      by blast
    with t True proc Cons.prems(2-4) nxt show ?thesis
      by (subst chan_loop.simps) (auto simp: restrict_map_def fun_eq_iff)
  qed
qed

section \<open>Properties\<close>

text \<open>C16. Closing a connection to a node always returns, and frees exactly its own objects:
  the connection, its channels and their direct connections; every socket of them is
  closed, in order, and those of no other object.\<close>

theorem close_c2n_frees_all:
  assumes "conn_wf cn s" "conns s cn = Some n"
  shows "\<exists>s'. PICA_close_c2n cn s = Some s' \<and> conns s' = (conns s)(cn := None) \<and>
     chans s' = chans s |` (- set (cn_chan_list n)) \<and>
     directs s' = directs s |` (- set (concat (map (chan_direct s) (cn_chan_list n)))) \<and>
     lclosed s' = lclosed s @ concat (map (chan_sockets s) (cn_chan_list n)) @ [cn_sck n]"
proof -
  from assms have "owns cn (cn_chan_list n) s" by (auto simp: conn_wf_def)
  from close_chans_owned [OF this assms(2) refl] obtain t where
    "close_chans cn s = Some t" "conns t = (conns s)(cn \<mapsto> n\<lparr>cn_chan_list := []\<rparr>)" "chans t = chans s |` (- set (cn_chan_list n))"
    "directs t = directs s |` (- set (concat (map (chan_direct s) (cn_chan_list n))))"
    "lclosed t = lclosed s @ concat (map (chan_sockets s) (cn_chan_list n))" by blast
  then show ?thesis by (simp add: PICA_close_c2n_def)
qed

definition demo_pair :: lib where
  "demo_pair = (init_lib demo_ext calm_env)\<lparr>lnext := 4, conns := [0 \<mapsto> demo_conn\<lparr>cn_chan_list := [1, 2]\<rparr>],
     chans := [1 \<mapsto> demo_chan, 2 \<mapsto> demo_chan\<lparr>ch_sck := 6, ch_direct := Some 3\<rparr>],
     directs := [3 \<mapsto> new_directc2c True 7]\<rparr>"

theorem close_c2n_frees_all_witness:
  "\<exists>s'. PICA_close_c2n 0 demo_pair = Some s' \<and> lclosed s' = [5, 6, 7, 4] \<and> directs s' 3 = None"
proof -
  have "conn_wf 0 demo_pair" "conns demo_pair 0 = Some (demo_conn\<lparr>cn_chan_list := [1, 2]\<rparr>)"
    by (simp_all add: conn_wf_def owns_def demo_pair_def chan_direct_def demo_chan_def new_c2c_def)
  from close_c2n_frees_all [OF this] show ?thesis
    by (auto simp: demo_pair_def chan_direct_def chan_sockets_def demo_chan_def new_c2c_def demo_conn_def init_lib_def
        new_directc2c_def)
qed

text \<open>C17. Channels that do not become active are given up. In a round of the event loop in
  which no socket is ready, exactly the channels that have not become active within the
  time limit are closed, with their sockets, and the application is told about each of
  them, in the order of the list; the other channels stay as they are.\<close>

theorem quiet_round_times_out:
  assumes "conn_wf cn s" "conns s cn = Some n" "\<forall>p\<in>set (cn_chan_list n). waits s p"
  shows "\<exists>s'. chan_loop (\<lambda>_. False) (\<lambda>_. False) cn (case cn_chan_list n of [] \<Rightarrow> None | p # _ \<Rightarrow> Some p) s = Some s' \<and>
     conns s' = (conns s)(cn \<mapsto> n\<lparr>cn_chan_list := filter (\<lambda>p. \<not> overdue s p) (cn_chan_list n)\<rparr>) \<and>
     chans s' = chans s |` (- set (filter (overdue s) (cn_chan_list n))) \<and>
     lclosed s' = lclosed s @ concat (map (chan_sockets s) (filter (overdue s) (cn_chan_list n))) \<and>
     events s' = events s @ map (timeout_event s) (filter (overdue s) (cn_chan_list n))"
  using quiet_loop [of cn "[]" "cn_chan_list n" s n] assms by (auto simp: conn_wf_def)

definition demo_late :: lib where
  "demo_late = demo_pair\<lparr>lenv := calm_env\<lparr>now := 100\<rparr>,
     chans := [1 \<mapsto> demo_chan, 2 \<mapsto> demo_chan\<lparr>ch_sck := 6, ch_direct := Some 3, ch_state := PICA_C2C_STATE_WAITINGTLS\<rparr>]\<rparr>"

theorem quiet_round_times_out_witness:
  "\<exists>s'. chan_loop (\<lambda>_. False) (\<lambda>_. False) 0 (Some 1) demo_late = Some s' \<and> lclosed s' = [6, 7] \<and> chans s' 2 = None \<and>
     chans s' 1 = Some demo_chan"
proof -
  have "conn_wf 0 demo_late" "conns demo_late 0 = Some (demo_conn\<lparr>cn_chan_list := [1, 2]\<rparr>)"
    "\<forall>p\<in>set (cn_chan_list (demo_conn\<lparr>cn_chan_list := [1, 2]\<rparr>)). waits demo_late p"
    by (simp_all add: conn_wf_def owns_def waits_def demo_late_def demo_pair_def chan_direct_def demo_chan_def new_c2c_def)
  from quiet_round_times_out [OF this] show ?thesis
    by (auto simp: demo_late_def demo_pair_def chan_direct_def chan_sockets_def demo_chan_def new_c2c_def demo_conn_def init_lib_def
        new_directc2c_def overdue_def calm_env_def)
qed

end
