(* ===== verification/ClientSwitch.thy ===== *)
theory ClientSwitch
  imports ClientXfer
begin

text \<open>
  Switching a channel to a direct connection. The packet that announces the switch is the
  last one that goes through the node: a barrier is put behind it, the bytes before the
  barrier are written to the session through the node and the bytes behind it to the
  direct connection. The block is a queue of the two parts; no byte is lost, doubled or
  put into the other stream, however the sessions take the bytes and whatever is sent
  meanwhile.
\<close>

section \<open>The two parts of the queue\<close>

text \<open>The number of bytes before the barrier that are still to be written.\<close>

definition barrier_left :: "PICA_c2c \<Rightarrow> u32" where
  "barrier_left c = (if ch_write_before_barrier_pos c = 0 then ch_write_barrier_pos c else ch_write_before_barrier_pos c)"

definition before :: "PICA_c2c \<Rightarrow> byte list" where
  "before c =
     (if ch_write_barrier_pos c \<noteq> 0 then take (unat (barrier_left c)) (pending (ch_w c))
      else if ch_switched_to_directc2c_write c then [] else pending (ch_w c))"

definition after :: "PICA_c2c \<Rightarrow> byte list" where
  "after c =
     (if ch_write_barrier_pos c \<noteq> 0 then drop (unat (ch_write_barrier_pos c)) (pending (ch_w c))
      else if ch_switched_to_directc2c_write c then pending (ch_w c) else [])"

definition queue_inv :: "PICA_c2c \<Rightarrow> bool" where
  "queue_inv c \<longleftrightarrow> wbuf_ok (ch_w c) \<and>
     (ch_write_barrier_pos c \<noteq> 0 \<longrightarrow> \<not> ch_switched_to_directc2c_write c \<and>
        ch_write_barrier_pos c \<le> w_pos (ch_w c) \<and> barrier_left c \<le> ch_write_barrier_pos c \<and> btw_ssl (ch_w c) \<le> barrier_left c)"

section \<open>Writing\<close>

lemma drop_memmove_down:
  "n \<le> k \<Longrightarrow> k \<le> length m \<Longrightarrow> drop k (memmove_down n (k - n) m) = drop k m"
  by (simp add: memmove_down_def blit_def)

lemma PICA_write_ssl_block:
  assumes w: "wbuf_ok w" and ret: "ret \<le> uint (btw_ssl (buf_set_btw w))" and r: "PICA_write_ssl ret err w = (code, w')"
    and m: "w_buf w = Some m"
  shows "\<exists>m'. w_buf w' = Some m' \<and> length m' = length m \<and> drop (unat (w_pos w)) m' = drop (unat (w_pos w)) m \<and>
     buflen_w w' = buflen_w w \<and> (0 < ret \<and> w_pos w \<noteq> 0 \<longrightarrow> btw_ssl w' = 0) \<and> (ret \<le> 0 \<longrightarrow> btw_ssl w' = btw_ssl (buf_set_btw w) \<or> w' = w)
     \<and> w_pos w' = w_pos w - of_nat (if w_pos w \<noteq> 0 then nat ret else 0)"
proof -
  have lm: "length m = unat (buflen_w w)" "unat (w_pos w) \<le> length m" using w m by (auto simp: wbuf_ok_def word_le_nat_alt)
  have "unat (btw_ssl (buf_set_btw w)) \<le> unat (w_pos w)"
    using buf_set_btw_ok [OF w] by (simp add: wbuf_ok_def word_le_nat_alt)
  with nat_mono [OF ret] have k: "nat ret \<le> unat (w_pos w)" by simp
  have mm: "drop (unat (w_pos w)) (memmove_down (nat ret) (unat (w_pos w) - nat ret) m) = drop (unat (w_pos w)) m"
    "length (memmove_down (nat ret) (unat (w_pos w) - nat ret) m) = length m"
    using k lm(2) by (simp_all add: drop_memmove_down)
  show ?thesis
    using r m mm by (auto simp: PICA_write_ssl_def Let_def word_neq_0_conv split: if_splits)
qed

text \<open>A write takes some bytes from the front of its queue and does not touch what is behind it.\<close>

lemma write_session_step:
  assumes w: "wbuf_ok w" and r: "write_session ses w s = (ret, w', s')"
  shows "\<exists>n. n \<le> unat (w_pos w) \<and> (0 < n \<longrightarrow> ret = PICA_OK) \<and> wbuf_ok w' \<and> pending w' = drop n (pending w) \<and>
     unat (w_pos w') = unat (w_pos w) - n \<and> buflen_w w' = buflen_w w \<and>
     (\<forall>m. w_buf w = Some m \<longrightarrow> (\<exists>m'. w_buf w' = Some m' \<and> length m' = length m \<and>
        drop (unat (w_pos w)) m' = drop (unat (w_pos w)) m)) \<and>
     s' = s\<lparr>n_calls := n_calls s', wire := wire s @ (if n = 0 then [] else [(ses, take n (pending w))])\<rparr>"
proof (cases "w_pos w = 0")
  case True
  with r w show ?thesis by (intro exI [of _ 0]) (auto simp: write_session_def)
next
  case False
  let ?a = "answers (lext s) (n_calls s)"
  define k where "k = min (a_ret ?a) (uint (btw_ssl (buf_set_btw w)))"
  have kb: "k \<le> uint (btw_ssl (buf_set_btw w))" by (simp add: k_def)
  obtain m where m: "w_buf w = Some m" using w False by (cases "w_buf w") (auto simp: wbuf_ok_def)
  from r False have wr: "PICA_write_ssl k (ssl_err (a_err ?a)) w = (ret, w')"
    and s': "s' = s\<lparr>n_calls := n_calls s', wire := wire s @ (if nat k = 0 then [] else [(ses, take (nat k) (pending w))])\<rparr>"
    by (auto simp: write_session_def sys_call_def Let_def k_def split: prod.splits)
  have "unat (btw_ssl (buf_set_btw w)) \<le> unat (w_pos w)"
    using buf_set_btw_ok [OF w] by (simp add: wbuf_ok_def word_le_nat_alt)
  with nat_mono [OF kb] have kw: "nat k \<le> unat (w_pos w)" by simp
  have code: "0 < nat k \<longrightarrow> ret = PICA_OK" using wr False by (auto simp: PICA_write_ssl_def Let_def word_neq_0_conv split: if_splits)
  note ok = PICA_write_ssl_ok [OF w kb wr] PICA_write_ssl_block [OF w kb wr m]
  have "unat (w_pos w') = unat (w_pos w) - nat k"
    using length_pending [of w'] length_pending [OF w] ok(1) by simp
  with ok kw s' m code show ?thesis by (intro exI [of _ "nat k"]) auto
qed

lemma before_barrier_step:
  assumes inv: "queue_inv c" and b: "ch_write_barrier_pos c \<noteq> 0" and r: "write_before_barrier p c s = (ret, c', s')"
  shows "\<exists>n. n \<le> length (before c) \<and> before c' = drop n (before c) \<and> after c' = after c \<and> queue_inv c' \<and>
     s' = s\<lparr>n_calls := n_calls s', wire := wire s @ (if n = 0 then [] else [(ToPeer p, take n (before c))])\<rparr> \<and>
     ch_state c' = ch_state c \<and> ch_direct c' = ch_direct c \<and>
     ch_disconnect_on_empty_write_buf c' = ch_disconnect_on_empty_write_buf c"
proof -
  let ?w = "ch_w c" and ?b = "ch_write_barrier_pos c" and ?bb = "barrier_left c"
  let ?u = "?w\<lparr>w_pos := ?bb\<rparr>"
  have q: "wbuf_ok ?w" "\<not> ch_switched_to_directc2c_write c" "?b \<le> w_pos ?w" "?bb \<le> ?b" "btw_ssl ?w \<le> ?bb"
    using inv b by (auto simp: queue_inv_def)
  have bb: "?bb \<noteq> 0" using b by (simp add: barrier_left_def)
  have le: "unat ?bb \<le> unat ?b" "unat ?b \<le> unat (w_pos ?w)" using q by (simp_all add: word_le_nat_alt)
  obtain m where m: "w_buf ?w = Some m" "length m = unat (buflen_w ?w)" "unat (w_pos ?w) \<le> length m"
    using q(1,3) b by (cases "w_buf ?w") (auto simp: wbuf_ok_def word_le_nat_alt unat_eq_zero)
  have w0: "wbuf_ok ?u" using q m by (auto simp: wbuf_ok_def word_le_nat_alt)
  have pen: "pending ?u = before c" "before c = take (unat ?bb) m" "after c = drop (unat ?b) (take (unat (w_pos ?w)) m)"
    using m le b by (simp_all add: pending_def before_def after_def)
  obtain w1 s1 ret1 where ws: "write_session (ToPeer p) ?u s = (ret1, w1, s1)" by (metis prod_cases3)
  from write_session_step [OF w0 ws, unfolded pen(1)] obtain n where
    r1: "n \<le> unat (w_pos ?u)" "0 < n \<longrightarrow> ret1 = PICA_OK" "wbuf_ok w1" "pending w1 = drop n (before c)"
      "unat (w_pos w1) = unat (w_pos ?u) - n" "buflen_w w1 = buflen_w ?u"
    and blk: "\<forall>m. w_buf ?u = Some m \<longrightarrow> (\<exists>m'. w_buf w1 = Some m' \<and> length m' = length m \<and>
        drop (unat (w_pos ?u)) m' = drop (unat (w_pos ?u)) m)"
    and s1: "s1 = s\<lparr>n_calls := n_calls s1, wire := wire s @ (if n = 0 then [] else [(ToPeer p, take n (before c))])\<rparr>"
    by blast
  from blk m(1) obtain m' where n': "w_buf w1 = Some m'" "length m' = length m" "drop (unat ?bb) m' = drop (unat ?bb) m"
    by auto
  have n: "n \<le> unat ?bb" "0 < n \<longrightarrow> ret1 = PICA_OK" "wbuf_ok w1" "pending w1 = drop n (before c)"
    "unat (w_pos w1) = unat ?bb - n" "buflen_w w1 = buflen_w ?w" using r1 by simp_all
  note n = n n'
  have lb: "length (before c) = unat ?bb" using pen(2) m(3) le by simp
  have post: "drop (unat ?b) m' = drop (unat ?b) m"
    using arg_cong [OF n(9), of "drop (unat ?b - unat ?bb)"] le(1) by simp
  then have post': "drop (unat ?b) (take (unat (w_pos ?w)) m') = after c"
    unfolding pen(3) by (simp add: drop_take)
  let ?c1 = "c\<lparr>ch_w := w1\<lparr>w_pos := w_pos ?w\<rparr>, ch_write_before_barrier_pos := w_pos w1\<rparr>"
  show ?thesis
  proof (cases "n = unat ?bb")
    case True
    have z: "w_pos w1 = 0" "btw_ssl w1 = 0" "ret1 = PICA_OK"
      using n True bb by (auto simp: wbuf_ok_def unat_eq_zero word_neq_0_conv word_less_nat_alt)
    let ?m = "memmove_down (unat ?b) (unat (w_pos ?w - ?b)) m'"
    let ?c2 = "?c1\<lparr>ch_switched_to_directc2c_write := True, ch_w := (w1\<lparr>w_pos := w_pos ?w\<rparr>)\<lparr>w_buf := Some ?m, w_pos := w_pos ?w - ?b\<rparr>,
      ch_write_barrier_pos := 0\<rparr>"
    have c': "c' = ?c2" "s' = s1" using r ws z n(7) by (auto simp: write_before_barrier_def barrier_left_def [symmetric] Let_def)
    have sub: "unat (w_pos ?w - ?b) = unat (w_pos ?w) - unat ?b" using q(3) by (simp add: unat_sub word_le_nat_alt)
    have mm: "length ?m = length m" "take (unat (w_pos ?w - ?b)) ?m = after c"
      using sub le m(3) n(8) post' by (simp_all add: drop_take)
    have "queue_inv ?c2" using q m mm(1) n z sub le by (simp add: queue_inv_def wbuf_ok_def word_le_nat_alt)
    moreover have "before ?c2 = drop n (before c)" "after ?c2 = after c"
      using mm True lb by (simp_all add: before_def after_def pending_def)
    ultimately show ?thesis using c' n(1) s1 lb by (intro exI [of _ n] conjI) simp_all
  next
    case False
    then have nz: "w_pos w1 \<noteq> 0" using n(1,5) by (metis diff_is_0_eq le_antisym unat_0)
    have c': "c' = ?c1" "s' = s1" using r ws nz by (auto simp: write_before_barrier_def barrier_left_def [symmetric] Let_def split: if_splits)
    have bl: "barrier_left ?c1 = w_pos w1" using nz by (simp add: barrier_left_def)
    have pw: "pending w1 = take (unat ?bb - n) m'" using n(5,7) by (simp add: pending_def)
    have "queue_inv ?c1"
      using q m n le bl by (auto simp: queue_inv_def wbuf_ok_def word_le_nat_alt)
    moreover have "before ?c1 = drop n (before c)"
      using b bl n(4,5,7) pw le by (simp add: before_def pending_def)
    moreover have "after ?c1 = after c" using b post' n(7) by (simp add: after_def pending_def)
    ultimately show ?thesis using c' n(1) s1 lb by (intro exI [of _ n] conjI) simp_all
  qed
qed

section \<open>Runs of sends and writes\<close>

definition wire_to :: "session \<Rightarrow> lib \<Rightarrow> byte list" where
  "wire_to ses s = concat (map snd (filter (\<lambda>x. fst x = ses) (wire s)))"

lemma wire_to_append [simp]:
  "wire_to ses (s\<lparr>n_calls := k, wire := wire s @ xs\<rparr>) = wire_to ses s @ concat (map snd (filter (\<lambda>x. fst x = ses) xs))"
  "wire_to ses (s\<lparr>n_calls := k, wire := wire s @ xs, chans := h\<rparr>) = wire_to ses s @ concat (map snd (filter (\<lambda>x. fst x = ses) xs))"
  "wire_to ses (s\<lparr>lenv := e, chans := h\<rparr>) = wire_to ses s" "wire_to ses (s\<lparr>chans := h\<rparr>) = wire_to ses s" "wire_to ses (s\<lparr>lenv := e\<rparr>) = wire_to ses s"
  by (simp_all add: wire_to_def)

datatype chan_op = SendMsg "byte list" | Write

fun run_ops :: "nat \<Rightarrow> chan_op list \<Rightarrow> lib \<Rightarrow> lib option" where
  "run_ops p [] s = Some s"
| "run_ops p (SendMsg msg # ops) s = do { (ret, s) \<leftarrow> PICA_send_msg p msg s; if ret \<noteq> PICA_OK then None else run_ops p ops s }"
| "run_ops p (Write # ops) s = do { (ret, s) \<leftarrow> PICA_write_c2c p s; run_ops p ops s }"

fun op_packets :: "chan_op list \<Rightarrow> byte list" where
  "op_packets [] = []"
| "op_packets (SendMsg msg # ops) = var_packet PICA_PROTO_MSGUTF8 msg @ op_packets ops"
| "op_packets (Write # ops) = op_packets ops"

text \<open>
  The channel is being switched, or has been switched, to the direct connection \<open>d\<close>: \<open>a\<close> is
  what the session through the node has got or will get, \<open>b\<close> the same for the direct one.
\<close>

definition switching :: "nat \<Rightarrow> nat \<Rightarrow> byte list \<Rightarrow> byte list \<Rightarrow> lib \<Rightarrow> bool" where
  "switching p d a b s \<longleftrightarrow> alloc_ok (lenv s) = (\<lambda>_. True) \<and> d \<in> dom (directs s) \<and>
     (\<exists>c. chans s p = Some c \<and> ch_state c = PICA_C2C_STATE_ACTIVE \<and> ch_direct c = Some d \<and>
        \<not> ch_disconnect_on_empty_write_buf c \<and> queue_inv c \<and>
        (ch_write_barrier_pos c \<noteq> 0 \<or> ch_switched_to_directc2c_write c) \<and> unat (ch_write_barrier_pos c) \<le> length a \<and>
        wire_to (ToPeer p) s @ before c = a \<and> wire_to (ToDirect d) s @ after c = b)"

lemma switching_write:
  assumes "switching p d a b s"
  shows "\<exists>ret s'. PICA_write_c2c p s = Some (ret, s') \<and> switching p d a b s'"
proof -
  from assms obtain c where c: "chans s p = Some c" "ch_state c = PICA_C2C_STATE_ACTIVE" "ch_direct c = Some d"
      "\<not> ch_disconnect_on_empty_write_buf c" "queue_inv c" "ch_write_barrier_pos c \<noteq> 0 \<or> ch_switched_to_directc2c_write c"
      "unat (ch_write_barrier_pos c) \<le> length a"
      "wire_to (ToPeer p) s @ before c = a" "wire_to (ToDirect d) s @ after c = b" and d: "d \<in> dom (directs s)"
      "alloc_ok (lenv s) = (\<lambda>_. True)"
    by (auto simp: switching_def)
  from d obtain dc where dc: "directs s d = Some dc" by auto
  show ?thesis
  proof (cases "ch_write_barrier_pos c = 0")
    case False
    obtain ret c' s1 where w: "write_before_barrier p c s = (ret, c', s1)" by (metis prod_cases3)
    from before_barrier_step [OF c(5) False w] obtain n where
      n: "n \<le> length (before c)" "before c' = drop n (before c)" "after c' = after c" "queue_inv c'"
        and s1: "s1 = s\<lparr>n_calls := n_calls s1, wire := wire s @ (if n = 0 then [] else [(ToPeer p, take n (before c))])\<rparr>"
        and st: "ch_state c' = ch_state c" "ch_direct c' = ch_direct c"
          "ch_disconnect_on_empty_write_buf c' = ch_disconnect_on_empty_write_buf c"
      by blast
    define k where "k = n_calls s1"
    have bar: "ch_write_barrier_pos c' = ch_write_barrier_pos c \<or> ch_write_barrier_pos c' = 0 \<and> ch_switched_to_directc2c_write c'"
      using w by (auto simp: write_before_barrier_def Let_def split: prod.splits if_splits)
    have s1': "s1 = s\<lparr>n_calls := k, wire := wire s @ (if n = 0 then [] else [(ToPeer p, take n (before c))])\<rparr>"
      using s1 by (simp add: k_def)
    have "PICA_write_c2c p s = Some (ret, s1\<lparr>chans := (chans s)(p \<mapsto> c')\<rparr>)"
      using c w False st s1' by (simp add: PICA_write_c2c_def queue_inv_def)
    moreover have "switching p d a b (s1\<lparr>chans := (chans s)(p \<mapsto> c')\<rparr>)"
      unfolding switching_def using c(2-4,6-9) n st bar d False
      by (auto simp: s1')
    ultimately show ?thesis by blast
  next
    case True
    then have sw: "ch_switched_to_directc2c_write c" using c(6) by simp
    have w: "wbuf_ok (ch_w c)" using c(5) by (simp add: queue_inv_def)
    obtain ret w1 s1 where ws: "write_session (ToDirect d) (ch_w c) s = (ret, w1, s1)" by (metis prod_cases3)
    from write_session_step [OF w ws] obtain n where n: "wbuf_ok w1" "pending w1 = drop n (pending (ch_w c))"
      and s1: "s1 = s\<lparr>n_calls := n_calls s1, wire := wire s @ (if n = 0 then [] else [(ToDirect d, take n (pending (ch_w c)))])\<rparr>"
      by blast
    define k where "k = n_calls s1"
    have s1': "s1 = s\<lparr>n_calls := k, wire := wire s @ (if n = 0 then [] else [(ToDirect d, take n (pending (ch_w c)))])\<rparr>"
      using s1 by (simp add: k_def)
    have "PICA_write_c2c p s = Some (ret, s1\<lparr>chans := (chans s)(p \<mapsto> c\<lparr>ch_w := w1\<rparr>)\<rparr>)"
      using c(1-4) ws True sw dc s1' by (simp add: PICA_write_c2c_def)
    moreover have "switching p d a b (s1\<lparr>chans := (chans s)(p \<mapsto> c\<lparr>ch_w := w1\<rparr>)\<rparr>)"
      unfolding switching_def using c(2-4,6-9) n d True sw
      by (auto simp: s1' queue_inv_def before_def after_def)
    ultimately show ?thesis by blast
  qed
qed

lemma switching_send:
  assumes "switching p d a b s" "length msg \<le> PICA_PROTO_C2CMSG_MAXDATASIZE" "length a + length b + length msg + 4 < 2 ^ 32"
  shows "\<exists>s'. PICA_send_msg p msg s = Some (PICA_OK, s') \<and> switching p d a (b @ var_packet PICA_PROTO_MSGUTF8 msg) s'"
proof -
  from assms(1) obtain c where c: "chans s p = Some c" "ch_state c = PICA_C2C_STATE_ACTIVE" "ch_direct c = Some d"
      "\<not> ch_disconnect_on_empty_write_buf c" "queue_inv c" "ch_write_barrier_pos c \<noteq> 0 \<or> ch_switched_to_directc2c_write c"
      "unat (ch_write_barrier_pos c) \<le> length a"
      "wire_to (ToPeer p) s @ before c = a" "wire_to (ToDirect d) s @ after c = b" and d: "d \<in> dom (directs s)"
      "alloc_ok (lenv s) = (\<lambda>_. True)"
    by (auto simp: switching_def)
  let ?pk = "var_packet PICA_PROTO_MSGUTF8 msg" and ?b = "ch_write_barrier_pos c"
  have w: "wbuf_ok (ch_w c)" and lw: "length (pending (ch_w c)) = unat (w_pos (ch_w c))"
    using c(5) length_pending by (auto simp: queue_inv_def)
  have "length (after c) \<le> length b" using c(9) by auto
  then have "unat (w_pos (ch_w c)) \<le> length a + length b"
    using c(6,7) lw by (cases "?b = 0") (auto simp: after_def)
  with assms(3) w d(2) c(1) have "chan_ok p (length msg + 4) s" by (simp add: chan_ok_def)
  moreover have "length msg < 65536" using assms(2) by simp
  ultimately obtain e w' where
    snd: "chan_send p PICA_PROTO_MSGUTF8 (of_nat (length msg) + 4) (put16 (length msg) @ msg) s
        = Some (True, s\<lparr>lenv := e, chans := (chans s)(p \<mapsto> c\<lparr>ch_w := w'\<rparr>)\<rparr>)"
      "pending w' = pending (ch_w c) @ ?pk" "wbuf_ok w'" "alloc_ok e = (\<lambda>_. True)" "btw_ssl w' = btw_ssl (ch_w c)"
    using send_var_packet [OF _ c(1), of msg PICA_PROTO_MSGUTF8] by blast
  let ?c = "c\<lparr>ch_w := w'\<rparr>" and ?s = "s\<lparr>lenv := e, chans := (chans s)(p \<mapsto> c\<lparr>ch_w := w'\<rparr>)\<rparr>"
  have lw': "unat (w_pos w') = unat (w_pos (ch_w c)) + length ?pk"
    using length_pending [OF snd(3)] snd(2) lw by simp
  have bl: "barrier_left ?c = barrier_left c" by (simp add: barrier_left_def)
  have "queue_inv ?c" using c(5) snd(3,5) lw' bl by (auto simp: queue_inv_def word_le_nat_alt)
  moreover have "before ?c = before c" "after ?c = after c @ ?pk"
    using c(5,6) lw snd(2) bl by (auto simp: before_def after_def queue_inv_def word_le_nat_alt)
  ultimately have "switching p d a (b @ ?pk) ?s"
    unfolding switching_def using c(2-4,6-9) d snd(4) by auto
  moreover have "PICA_send_msg p msg s = Some (PICA_OK, ?s)" using snd(1) assms(2) by (simp add: PICA_send_msg_def)
  ultimately show ?thesis by blast
qed

definition sendable :: "chan_op list \<Rightarrow> bool" where
  "sendable ops \<longleftrightarrow> (\<forall>msg. SendMsg msg \<in> set ops \<longrightarrow> length msg \<le> PICA_PROTO_C2CMSG_MAXDATASIZE)"

lemma switching_run:
  assumes "switching p d a b s" "sendable ops" "length a + length b + length (op_packets ops) < 2 ^ 32"
  shows "\<exists>s'. run_ops p ops s = Some s' \<and> switching p d a (b @ op_packets ops) s'"
  using assms
proof (induction p ops s arbitrary: b rule: run_ops.induct)
  case (1 p s)
  then show ?case by simp
next
  case (2 p msg ops s)
  have "length msg \<le> PICA_PROTO_C2CMSG_MAXDATASIZE" "length a + length b + length msg + 4 < 2 ^ 32"
    using 2(3,4) by (auto simp: sendable_def)
  from switching_send [OF 2(2) this] obtain t where t: "PICA_send_msg p msg s = Some (PICA_OK, t)"
    "switching p d a (b @ var_packet PICA_PROTO_MSGUTF8 msg) t" by blast
  have "sendable ops" using 2(3) by (auto simp: sendable_def)
  with 2(1) [OF t(1) refl _ t(2)] t(1) 2(4) show ?case by auto
next
  case (3 p ops s)
  from switching_write [OF 3(2)] obtain ret t where t: "PICA_write_c2c p s = Some (ret, t)" "switching p d a b t" by blast
  have "sendable ops" using 3(3) by (auto simp: sendable_def)
  with 3(1) [OF t(1) refl t(2)] t(1) 3(4) show ?case by auto
qed

section \<open>Properties\<close>

text \<open>C10. Switching to a direct connection keeps the stream. After the switch is announced on
  an active channel, whatever messages are sent and however the sessions take the bytes: what
  the session through the node gets is what was queued before, ending with the packet that
  announces the switch, and what the direct connection gets are the messages sent since, in
  order and complete, but for the bytes that still wait in the queue.\<close>

theorem switch_keeps_stream:
  assumes "chans s p = Some c" "ch_state c = PICA_C2C_STATE_ACTIVE" "ch_direct c = Some d" "d \<in> dom (directs s)"
    and "\<not> ch_disconnect_on_empty_write_buf c" "\<not> ch_switched_to_directc2c_write c" "ch_write_barrier_pos c = 0"
    and "ch_write_before_barrier_pos c = 0" "chan_ok p 4 s" "sendable ops"
    and "length (wire_to (ToPeer p) s) + length (pending (ch_w c)) + 4 + length (wire_to (ToDirect d) s)
      + length (op_packets ops) < 2 ^ 32"
  shows "\<exists>s1 s' c' t. PICA_send_directc2c_switch p s = Some (PICA_OK, s1) \<and> run_ops p ops s1 = Some s' \<and>
     chans s' p = Some c' \<and> length t = 2 \<and>
     wire_to (ToPeer p) s' @ before c' = wire_to (ToPeer p) s @ pending (ch_w c) @ packet PICA_PROTO_DIRECTC2C_SWITCH t \<and>
     wire_to (ToDirect d) s' @ after c' = wire_to (ToDirect d) s @ op_packets ops"
proof -
  from chan_send_rand_ok [OF assms(9,1), of PICA_PROTO_DIRECTC2C_SWITCH_SIZE PICA_PROTO_DIRECTC2C_SWITCH] obtain e w t where
    w: "chan_send_rand p PICA_PROTO_DIRECTC2C_SWITCH PICA_PROTO_DIRECTC2C_SWITCH_SIZE s
        = Some (True, s\<lparr>lenv := e, chans := (chans s)(p \<mapsto> c\<lparr>ch_w := w\<rparr>)\<rparr>)"
      "pending w = pending (ch_w c) @ packet PICA_PROTO_DIRECTC2C_SWITCH t" "length t = 2" "wbuf_ok w" "alloc_ok e = (\<lambda>_. True)"
    by auto
  let ?c = "c\<lparr>ch_w := w, ch_write_barrier_pos := w_pos w\<rparr>"
  let ?s = "s\<lparr>lenv := e, chans := (chans s)(p \<mapsto> ?c)\<rparr>"
  let ?a = "wire_to (ToPeer p) s @ pending w"
  have len: "length (pending w) = unat (w_pos w)" by (rule length_pending [OF w(4)])
  have bar: "w_pos w \<noteq> 0" using len w(2) by auto
  have q: "queue_inv ?c" using w(4) assms(6,8) by (simp add: queue_inv_def barrier_left_def wbuf_ok_def)
  have parts: "before ?c = pending w" "after ?c = []" using bar len assms(8) by (simp_all add: before_def after_def barrier_left_def)
  have send: "PICA_send_directc2c_switch p s = Some (PICA_OK, ?s)" using w(1) by (simp add: PICA_send_directc2c_switch_def)
  have "switching p d ?a (wire_to (ToDirect d) s) ?s"
    unfolding switching_def using assms(2-5) w(5) q bar parts len by auto
  from switching_run [OF this assms(10)] assms(11) w(2,3) obtain s' where
    run: "run_ops p ops ?s = Some s'" "switching p d ?a (wire_to (ToDirect d) s @ op_packets ops) s'" by auto
  from run(2) obtain c' where "chans s' p = Some c'" "wire_to (ToPeer p) s' @ before c' = ?a"
    "wire_to (ToDirect d) s' @ after c' = wire_to (ToDirect d) s @ op_packets ops" by (auto simp: switching_def)
  with send run(1) w(2,3) show ?thesis by auto
qed

definition demo_switch :: lib where
  "demo_switch = demo_active\<lparr>chans := [1 \<mapsto> demo_chan\<lparr>ch_direct := Some 3\<rparr>], directs := [3 \<mapsto> new_directc2c True 7]\<rparr>"

theorem switch_keeps_stream_witness:
  "\<exists>s1 s' c'. PICA_send_directc2c_switch 1 demo_switch = Some (PICA_OK, s1) \<and>
     run_ops 1 [SendMsg [72], Write, SendMsg [105], Write] s1 = Some s' \<and> chans s' 1 = Some c' \<and>
     wire_to (ToDirect 3) s' @ after c' = var_packet PICA_PROTO_MSGUTF8 [72] @ var_packet PICA_PROTO_MSGUTF8 [105]"
proof -
  have "chans demo_switch 1 = Some (demo_chan\<lparr>ch_direct := Some 3\<rparr>)" by (simp add: demo_switch_def)
  moreover have "chan_ok 1 4 demo_switch" "wire_to (ToPeer 1) demo_switch = []" "wire_to (ToDirect 3) demo_switch = []"
    "3 \<in> dom (directs demo_switch)"
    by (auto simp: chan_ok_def demo_switch_def demo_active_def demo_chan_def new_c2c_def init_lib_def calm_env_def wire_to_def
        empty_wbuf_def wbuf_ok_def)
  moreover have "sendable [SendMsg [72], Write, SendMsg [105], Write]" by (auto simp: sendable_def)
  ultimately show ?thesis
    using switch_keeps_stream [of demo_switch 1 "demo_chan\<lparr>ch_direct := Some 3\<rparr>" 3 "[SendMsg [72], Write, SendMsg [105], Write]"]
    by (auto simp: demo_chan_def new_c2c_def simp del: run_ops.simps)
qed

end
