(* ===== verification/Login.thy ===== *)
theory Login
  imports NodeSafety ClientXfer
begin

text \<open>
  A user who logs in a second time: the client announces the login to its node, the node
  passes the announcement to the other connections of the user, and the client libraries
  behind them tell their applications. The three components are the client library
  (\<open>c2n_optstage7_multilogin\<close>, \<open>procmsg_MULTILOGIN\<close> of \<open>PICA_client.c\<close>) twice and the
  node (\<open>procmsg_MULTILOGIN_client\<close> of \<open>PICA_node.c\<close>).
\<close>

section \<open>The node passes the packet on\<close>

definition client_queue :: "node \<Rightarrow> nat \<Rightarrow> byte list" where
  "client_queue s p = (case clients s p of None \<Rightarrow> [] | Some c \<Rightarrow> pending (c_w c))"

definition client_room :: "nat \<Rightarrow> node \<Rightarrow> nat \<Rightarrow> bool" where
  "client_room k s p \<longleftrightarrow>
     (case clients s p of None \<Rightarrow> False | Some c \<Rightarrow> wbuf_ok (c_w c) \<and> unat (w_pos (c_w c)) + k < 2 ^ 32)"

lemma chain_unique: "chain h q ps \<Longrightarrow> chain h q qs \<Longrightarrow> ps = qs"
proof (induction ps arbitrary: q qs)
  case Nil
  then show ?case by (cases qs) auto
next
  case (Cons p ps)
  then show ?case by (cases qs) auto
qed

lemma chain_suffix: "chain h q (us @ p # vs) \<Longrightarrow> chain h (Some p) (p # vs)"
  by (induction us arbitrary: q) auto

lemma chain_distinct: "chain h q ps \<Longrightarrow> distinct ps"
proof (induction ps arbitrary: q)
  case (Cons p ps)
  have "p \<notin> set ps"
  proof
    assume "p \<in> set ps"
    then obtain us vs where ps: "ps = us @ p # vs" by (meson split_list)
    have "chain h (Some p) (p # vs)" using Cons.prems chain_suffix [of h _ us p vs] ps by auto
    moreover have "chain h (Some p) (p # ps)" using Cons.prems by auto
    ultimately have "vs = ps" using chain_unique by fastforce
    then show False using ps by (metis length_append length_Cons not_add_less2 lessI add_Suc_right)
  qed
  with Cons show ?case by auto
qed simp

lemma client_send_ok:
  assumes "clients s p = Some c" "mem_ok s" "client_room (length tail + 2) s p" "unat msz = length tail + 2"
  shows "\<exists>e w. client_send p i msz tail s = Some (True, s\<lparr>clients := (clients s)(p \<mapsto> c\<lparr>c_w := w\<rparr>), nenv := e\<rparr>) \<and>
     pending w = pending (c_w c) @ packet i tail \<and> wbuf_ok w \<and> alloc_ok e = (\<lambda>_. True)"
proof -
  obtain ok w e where q: "push_fill client_wbuf_push (nenv s) (c_w c) i msz tail = (ok, w, e)" by (metis prod_cases3)
  have m: "alloc_ok (nenv s) = (\<lambda>_. True)" using assms(2) by (simp add: mem_ok_def)
  have "ok" using client_wbuf.push_fill_live [OF m, of "c_w c" i msz tail] q by simp
  moreover have "wbuf_ok (c_w c)" "unat (w_pos (c_w c)) + unat msz < 2 ^ 32" "length tail + 2 = unat msz"
    using assms by (auto simp: client_room_def)
  moreover have "alloc_ok e = (\<lambda>_. True)" using push_alloc_ok(1) q m by metis
  ultimately show ?thesis using client_wbuf.push_fill_spec [OF _ _ _ q] q assms(1)
    by (intro exI [of _ e] exI [of _ w]) (simp add: client_send_def)
qed

lemma chain_frame: "chain h r rs \<Longrightarrow> p \<notin> set rs \<Longrightarrow> chain (h(p \<mapsto> x)) r rs"
  by (induction rs arbitrary: r) auto

lemma relay_multi_queues:
  assumes "chain (clients s) q ps" "mem_ok s" "\<forall>p\<in>set ps. client_room (length t + 2) s p" "unat n = length t + 2"
  shows "\<exists>s'. relay_multi skip n t q s = Some s' \<and> mem_ok s' \<and>
     (\<forall>p c. clients s p = Some c \<longrightarrow> (\<exists>w. clients s' p = Some (c\<lparr>c_w := w\<rparr>) \<and>
        pending w = pending (c_w c) @ (if p \<in> set ps \<and> skip \<noteq> Some p then packet PICA_PROTO_MULTILOGIN t else [])))"
  using assms(1-3)
proof (induction ps arbitrary: q s)
  case Nil
  then show ?case
    by (subst relay_multi.simps) (auto intro!: exI [of _ "c_w _"])
next
  case (Cons p ps)
  then obtain c where c: "q = Some p" "clients s p = Some c" "chain (clients s) (c_next_multi c) ps" by auto
  have np: "p \<notin> set ps" using chain_distinct [OF Cons.prems(1)] by simp
  obtain w e where step: "(if skip = Some p then Some s else
      do { (ok, s) \<leftarrow> client_send p PICA_PROTO_MULTILOGIN n t s; Some s })
        = Some (s\<lparr>clients := (clients s)(p \<mapsto> c\<lparr>c_w := w\<rparr>), nenv := e\<rparr>)"
    and w: "pending w = pending (c_w c) @ (if skip \<noteq> Some p then packet PICA_PROTO_MULTILOGIN t else [])" "alloc_ok e = (\<lambda>_. True)"
  proof (cases "skip = Some p")
    case True
    have "s\<lparr>clients := (clients s)(p \<mapsto> c\<lparr>c_w := c_w c\<rparr>), nenv := nenv s\<rparr> = s" using c(2) by (simp add: fun_upd_idem)
    with True Cons.prems(2) that [where w = "c_w c" and e = "nenv s"] show thesis by (simp add: mem_ok_def)
  next
    case False
    with client_send_ok [OF c(2) Cons.prems(2) _ assms(4), of PICA_PROTO_MULTILOGIN] Cons.prems(3) that show thesis by auto
  qed
  let ?s1 = "s\<lparr>clients := (clients s)(p \<mapsto> c\<lparr>c_w := w\<rparr>), nenv := e\<rparr>"
  have "chain (clients ?s1) (c_next_multi c) ps" "mem_ok ?s1" "\<forall>r\<in>set ps. client_room (length t + 2) ?s1 r"
    using chain_frame [OF c(3) np, of "c\<lparr>c_w := w\<rparr>"] w(2) Cons.prems(3) np by (auto simp: mem_ok_def client_room_def)
  from Cons.IH [OF this] obtain s' where
    s': "relay_multi skip n t (c_next_multi c) ?s1 = Some s'" "mem_ok s'"
      "\<forall>r d. clients ?s1 r = Some d \<longrightarrow> (\<exists>v. clients s' r = Some (d\<lparr>c_w := v\<rparr>) \<and>
        pending v = pending (c_w d) @ (if r \<in> set ps \<and> skip \<noteq> Some r then packet PICA_PROTO_MULTILOGIN t else []))" by blast
  have "\<exists>v. clients s' r = Some (d\<lparr>c_w := v\<rparr>) \<and>
     pending v = pending (c_w d) @ (if r \<in> set (p # ps) \<and> skip \<noteq> Some r then packet PICA_PROTO_MULTILOGIN t else [])"
    if d: "clients s r = Some d" for r d
  proof (cases "r = p")
    case True
    with s'(3) [rule_format, of p "c\<lparr>c_w := w\<rparr>"] d c(2) np w(1) show ?thesis by auto
  next
    case False
    with s'(3) [rule_format, of r d] d show ?thesis by auto
  qed
  with c(1) step s'(1,2) show ?case
    by (subst relay_multi.simps) auto
qed

lemma nodelink_send_clients: "nodelink_send k i n t s = Some (ok, s') \<Longrightarrow> clients s' = clients s"
  by (auto simp: nodelink_send_def Let_def split_beta)

lemma listmap_multilogin_clients:
  "listmap (mapfunc_sendmultilogin buf) ks s = Some s' \<Longrightarrow> clients s' = clients s"
  by (induction ks arbitrary: s) (auto simp: mapfunc_sendmultilogin_def dest!: nodelink_send_clients)

lemma node_relays_login:
  assumes g: "good s" and c: "clients s me = Some c"
    and q: "client_tree_search (clients s) (client_tree_root s) (c_id c) = Some q" "chain (clients s) q ps"
    and l: "length x < 65536" "\<forall>p\<in>set ps. client_room (length x + 4) s p"
  shows "\<exists>s'. procmsg_MULTILOGIN_client (var_packet PICA_PROTO_MULTILOGIN x) (of_nat (length (var_packet PICA_PROTO_MULTILOGIN x))) me s
       = Some (1, s') \<and>
     (\<forall>p\<in>dom (clients s). client_queue s' p = client_queue s p @
        (if p \<in> set ps \<and> p \<noteq> me then var_packet PICA_PROTO_MULTILOGIN x else []))"
proof -
  let ?buf = "var_packet PICA_PROTO_MULTILOGIN x"
  let ?t = "put16 (length x) @ x"
  define n where "n = (of_nat (length ?buf) :: u32)"
  have u: "unat n = 4 + length x" using unat_len4 [OF l(1)] by (simp add: n_def add.commute)
  then have n1: "unat n = length ?t + 2" by simp
  then have "2 \<le> n" unfolding word_le_nat_alt by simp
  from unat_sub [OF this] n1 have n2: "unat (n - 2) = length ?t" by simp
  have rd: "rd_bytes ?buf 2 (length ?t) = Some ?t" by (simp add: rd_bytes_def var_packet_def packet_def)
  have room: "\<forall>p\<in>set ps. client_room (length ?t + 2) s p" using l(2) by (simp add: eval_nat_numeral)
  have m: "mem_ok s" using g by (simp add: good_def)
  from relay_multi_queues [OF q(2) m room n1, of "Some me"] obtain s1 where
    s1: "relay_multi (Some me) n ?t q s = Some s1" "\<forall>p c. clients s p = Some c \<longrightarrow> (\<exists>w. clients s1 p = Some (c\<lparr>c_w := w\<rparr>) \<and>
        pending w = pending (c_w c) @ (if p \<in> set ps \<and> Some me \<noteq> Some p then packet PICA_PROTO_MULTILOGIN ?t else []))"
    by blast
  have "rd16 ?buf 2 = Some (length x)" "4 + length x \<le> length ?buf" using l(1) by simp_all
  from MULTILOGIN_client_good [OF g c this u] obtain r s' where
    s': "procmsg_MULTILOGIN_client ?buf n me s = Some (r, s')" by blast
  have "r = 1 \<and> clients s' = clients s1"
    using s' unfolding procmsg_MULTILOGIN_client_def c q(1) n2 rd Option.bind.simps s1(1)
    by (auto dest: listmap_multilogin_clients)
  moreover have "client_queue s' p = client_queue s p @ (if p \<in> set ps \<and> p \<noteq> me then ?buf else [])"
    if cl: "clients s' = clients s1" and p: "p \<in> dom (clients s)" for p
  proof -
    from p obtain d where d: "clients s p = Some d" by auto
    with s1(2) obtain w where "clients s1 p = Some (d\<lparr>c_w := w\<rparr>)"
      "pending w = pending (c_w d) @ (if p \<in> set ps \<and> Some me \<noteq> Some p then packet PICA_PROTO_MULTILOGIN ?t else [])" by blast
    with cl d show ?thesis by (simp add: client_queue_def var_packet_def)
  qed
  ultimately show ?thesis using s' unfolding n_def by blast
qed

section \<open>The client libraries\<close>

definition conn_ok :: "nat \<Rightarrow> nat \<Rightarrow> lib \<Rightarrow> bool" where
  "conn_ok cn k s \<longleftrightarrow> alloc_ok (lenv s) = (\<lambda>_. True) \<and>
     (case conns s cn of None \<Rightarrow> False | Some n \<Rightarrow> wbuf_ok (cn_w n) \<and> unat (w_pos (cn_w n)) + k < 2 ^ 32)"

lemma conn_send_ok:
  assumes "conn_ok cn (length tail + 2) s" "conns s cn = Some n" "unat msz = length tail + 2"
  shows "\<exists>e w. conn_send cn i msz tail s = Some (True, s\<lparr>lenv := e, conns := (conns s)(cn \<mapsto> n\<lparr>cn_w := w\<rparr>)\<rparr>) \<and>
     pending w = pending (cn_w n) @ packet i tail \<and> wbuf_ok w \<and> alloc_ok e = (\<lambda>_. True)"
proof -
  obtain ok w e where q: "push_fill c2n_writebuf_push (lenv s) (cn_w n) i msz tail = (ok, w, e)" by (metis prod_cases3)
  have m: "alloc_ok (lenv s) = (\<lambda>_. True)" using assms(1) by (simp add: conn_ok_def)
  have "ok" using c2n_writebuf.push_fill_live [OF m, of "cn_w n" i msz tail] q by simp
  moreover have "wbuf_ok (cn_w n)" "unat (w_pos (cn_w n)) + unat msz < 2 ^ 32" "length tail + 2 = unat msz"
    using assms by (auto simp: conn_ok_def)
  moreover have "alloc_ok e = (\<lambda>_. True)" using push_fill_alloc(2) [of "lenv s" "cn_w n" i msz tail] q m by simp
  ultimately show ?thesis using c2n_writebuf.push_fill_spec [OF _ _ _ q] q assms(2)
    by (intro exI [of _ e] exI [of _ w]) (simp add: conn_send_def)
qed

lemma length_node_addr [simp]: "length (node_addr_ipv4 a) = 7"
  by (simp add: node_addr_ipv4_def put_be16_def)

definition login_time :: "lib \<Rightarrow> u64" where
  "login_time s = of_int (now (lenv s))"

definition login_payload :: "lib \<Rightarrow> PICA_c2n \<Rightarrow> byte list \<Rightarrow> byte list" where
  "login_payload s n sig = put_le 8 (unat (login_time s)) @ node_addr_ipv4 (cn_srv_addr n) @ sig"

definition login_blocks :: "lib \<Rightarrow> PICA_c2n \<Rightarrow> byte list list" where
  "login_blocks s n = [cn_acc_id n, put_le 8 (unat (login_time s)), node_addr_ipv4 (cn_srv_addr n)]"

lemma announce_login:
  assumes n: "conns s cn = Some n" "conn_ok cn 65536 s"
    and sig: "own_signature (lext s) (login_blocks s n) = Inr sig" "length sig \<le> PICA_PROTO_MULTILOGIN_MAXSIGSIZE"
  shows "\<exists>e w. c2n_optstage7_multilogin cn s = Some (PICA_OK, s\<lparr>lenv := e, conns := (conns s)(cn \<mapsto> n\<lparr>cn_w := w\<rparr>)\<rparr>) \<and>
     pending w = pending (cn_w n) @ var_packet PICA_PROTO_MULTILOGIN (login_payload s n sig)"
proof -
  let ?x = "login_payload s n sig"
  have lx: "length ?x = 8 + 7 + length sig" by (simp add: login_payload_def)
  then have l: "length ?x < 65536" using sig(2) by simp
  define k where "k = (of_nat (4 + (8 + 7 + length sig)) :: u32)"
  have "unat k = length (put16 (length ?x) @ ?x) + 2"
    using unat_len4 [OF l] lx by (simp add: k_def add.commute)
  moreover have "conn_ok cn (length (put16 (length ?x) @ ?x) + 2) s" using n(2) sig(2) lx by (auto simp: conn_ok_def split: option.splits)
  ultimately obtain e w where "conn_send cn PICA_PROTO_MULTILOGIN k (put16 (length ?x) @ ?x) s
      = Some (True, s\<lparr>lenv := e, conns := (conns s)(cn \<mapsto> n\<lparr>cn_w := w\<rparr>)\<rparr>)"
    "pending w = pending (cn_w n) @ var_packet PICA_PROTO_MULTILOGIN ?x"
    using conn_send_ok [OF _ n(1), of "put16 (length ?x) @ ?x" k PICA_PROTO_MULTILOGIN] unfolding var_packet_def by blast
  moreover have "put16 (length ?x) @ ?x = put16 (8 + 7 + length sig) @ put_le 8 (unat (login_time s)) @ node_addr_ipv4 (cn_srv_addr n) @ sig"
    unfolding lx by (simp add: login_payload_def)
  ultimately show ?thesis
    using n(1) sig
    by (intro exI [of _ e] exI [of _ w])
      (simp only: c2n_optstage7_multilogin_def Option.bind.simps Let_def login_time_def [symmetric] login_blocks_def [symmetric]
        sum.case length_node_addr k_def [symmetric] linorder_not_less [symmetric] if_False; simp)
qed

lemma le_nat_put_be16: "of_nat (le_nat (rev (put_be16 p))) = p"
proof -
  have "unat p < 65536" by (rule unsigned_less [THEN order.strict_trans2]) simp
  then have "le_nat (rev (put_be16 p)) = unat p" by (simp add: put_be16_def unat_of_nat unsigned_ucast_eq take_bit_eq_mod)
  then show ?thesis by simp
qed

lemma login_packet_reads:
  fixes s n sig
  defines "buf \<equiv> var_packet PICA_PROTO_MULTILOGIN (login_payload s n sig)"
  assumes "length sig \<le> PICA_PROTO_MULTILOGIN_MAXSIGSIZE"
  shows "rd16 buf 2 = Some (15 + length sig)" "rd64 buf 4 = Some (unat (login_time s))" "rd8 buf 12 = Some (ucast PICA_PROTO_NEWNODE_IPV4)"
    "rd_bytes buf 4 8 = Some (put_le 8 (unat (login_time s)))" "rd_bytes buf 12 7 = Some (node_addr_ipv4 (cn_srv_addr n))"
    "rd_bytes buf 19 (length sig) = Some sig" "rd_be16 buf 17 = Some (snd (cn_srv_addr n))"
proof -
  have lp: "length (login_payload s n sig) = 15 + length sig" by (simp add: login_payload_def)
  then show "rd16 buf 2 = Some (15 + length sig)" using assms(2) by (simp add: buf_def)
  have d: "drop (4 + k) buf = drop k (login_payload s n sig)" for k
    by (simp add: buf_def flip: drop_drop [of _ 4] add: add.commute)
  have l: "length buf = 19 + length sig" by (simp add: buf_def lp)
  have "unat (login_time s) < 256 ^ 8" by (rule unsigned_less [THEN order.strict_trans2]) simp
  then show "rd64 buf 4 = Some (unat (login_time s))" "rd_bytes buf 4 8 = Some (put_le 8 (unat (login_time s)))"
    using d [of 0] l le_nat_put_le [of "unat (login_time s)" 8] by (simp_all add: rd64_def login_payload_def)
  have d12: "drop 12 buf = node_addr_ipv4 (cn_srv_addr n) @ sig" using d [of 8] by (simp add: login_payload_def)
  then show "rd_bytes buf 12 7 = Some (node_addr_ipv4 (cn_srv_addr n))" using l by simp
  have "drop 19 buf = drop 7 (drop 12 buf)" by simp
  then show "rd_bytes buf 19 (length sig) = Some sig" using l d12 by simp
  have "buf ! 12 = hd (drop 12 buf)" using l by (simp add: hd_drop_conv_nth)
  then show "rd8 buf 12 = Some (ucast PICA_PROTO_NEWNODE_IPV4)" using l d12 by (simp add: node_addr_ipv4_def)
  have "drop 17 buf = drop 5 (drop 12 buf)" by simp
  also have "\<dots> = put_be16 (snd (cn_srv_addr n)) @ sig" unfolding d12 by (simp add: node_addr_ipv4_def)
  finally have "take 2 (drop 17 buf) = put_be16 (snd (cn_srv_addr n))" by (simp add: put_be16_def)
  then show "rd_be16 buf 17 = Some (snd (cn_srv_addr n))" using l le_nat_put_be16 by (simp add: rd_be16_def)
qed

lemma hear_login:
  assumes m: "conns r cn = Some m" "cn_multilogin_last_timestamp m < login_time s" "cn_acc_id m = cn_acc_id n"
    and sig: "sig \<noteq> []" "length sig \<le> PICA_PROTO_MULTILOGIN_MAXSIGSIZE" "own_sign_ok (lext r) (login_blocks s n) sig"
  shows "procmsg_MULTILOGIN (var_packet PICA_PROTO_MULTILOGIN (login_payload s n sig)) k cn r
     = Some (1, (emit (multilogin_cb (login_time s) (node_addr_ipv4 (cn_srv_addr n)) (snd (cn_srv_addr n))) r)
         \<lparr>conns := (conns r)(cn \<mapsto> m\<lparr>cn_multilogin_last_timestamp := login_time s\<rparr>)\<rparr>)"
proof -
  note rd = login_packet_reads [OF sig(2), of s n]
  have "\<not> login_time s \<le> cn_multilogin_last_timestamp m" using m(2) by simp
  moreover have "15 + length sig - 8 - 7 = length sig" by simp
  ultimately show ?thesis
    using m(1,3) sig(1,3) by (simp add: procmsg_MULTILOGIN_def rd login_blocks_def Let_def del: rd_var_packet)
qed

lemma ignore_old_login:
  assumes "conns r cn = Some m" "login_time s \<le> cn_multilogin_last_timestamp m" "length sig \<le> PICA_PROTO_MULTILOGIN_MAXSIGSIZE"
  shows "procmsg_MULTILOGIN (var_packet PICA_PROTO_MULTILOGIN (login_payload s n sig)) k cn r = Some (1, r)"
  using assms login_packet_reads [OF assms(3), of s n] by (simp add: procmsg_MULTILOGIN_def Let_def del: rd_var_packet)

section \<open>Properties\<close>

text \<open>C5. A login reaches the other devices of the user. The client library announces the
  login with a packet; the node to which it is connected queues exactly this packet for
  every other connection of the user and for no other client; and a library that gets it, of
  the same account and with a key that verifies what the account signs, tells its application
  the time of the login and the address of the node, once: a replay of the packet has no
  effect.\<close>

theorem login_reaches_other_devices:
  assumes a: "conns a ca = Some n" "conn_ok ca 65536 a" "own_signature (lext a) (login_blocks a n) = Inr sig"
      "sig \<noteq> []" "length sig \<le> PICA_PROTO_MULTILOGIN_MAXSIGSIZE"
    and s: "good s" "clients s me = Some c" "client_tree_search (clients s) (client_tree_root s) (c_id c) = Some q"
      "chain (clients s) q ps" "\<forall>p\<in>set ps. client_room 65536 s p" "msgs \<in> {msginfo_comm, msginfo_multi}"
    and b: "conns b cb = Some m" "cn_acc_id m = cn_acc_id n" "cn_multilogin_last_timestamp m < login_time a"
    and verifies: "\<forall>blocks sig. own_signature (lext a) blocks = Inr sig \<longrightarrow> own_sign_ok (lext b) blocks sig"
  shows "\<exists>pk a' w s' b'. c2n_optstage7_multilogin ca a = Some (PICA_OK, a') \<and>
     conns a' ca = Some (n\<lparr>cn_w := w\<rparr>) \<and> pending w = pending (cn_w n) @ pk \<and>
     PICA_processmsg pk (of_nat (length pk)) me s msgs = Some (1, s') \<and>
     (\<forall>p\<in>dom (clients s). client_queue s' p = client_queue s p @ (if p \<in> set ps \<and> p \<noteq> me then pk else [])) \<and>
     PICA_processmsg pk (of_nat (length pk)) cb b c2n_messages = Some (1, b') \<and>
     events b' = events b @ [multilogin_cb (login_time a) (node_addr_ipv4 (cn_srv_addr n)) (snd (cn_srv_addr n))] \<and>
     PICA_processmsg pk (of_nat (length pk)) cb b' c2n_messages = Some (1, b')"
proof -
  let ?x = "login_payload a n sig" and ?pk = "var_packet PICA_PROTO_MULTILOGIN (login_payload a n sig)"
  from announce_login [OF a(1,2,3,5)] obtain e w where
    send: "c2n_optstage7_multilogin ca a = Some (PICA_OK, a\<lparr>lenv := e, conns := (conns a)(ca \<mapsto> n\<lparr>cn_w := w\<rparr>)\<rparr>)"
      "pending w = pending (cn_w n) @ ?pk" by blast
  have lx: "length ?x < 65532" using a(5) by (simp add: login_payload_def)
  then have "length ?x < 65536" "\<forall>p\<in>set ps. client_room (length ?x + 4) s p"
    using s(5) by (auto simp: client_room_def split: option.splits)
  from node_relays_login [OF s(1-4) this] obtain s' where
    relay: "procmsg_MULTILOGIN_client ?pk (of_nat (length ?pk)) me s = Some (1, s')"
      "\<forall>p\<in>dom (clients s). client_queue s' p = client_queue s p @ (if p \<in> set ps \<and> p \<noteq> me then ?pk else [])" by blast
  have node: "PICA_processmsg ?pk k me s msgs = procmsg_MULTILOGIN_client ?pk k me s" for k
    using s(6) by (auto simp: PICA_processmsg_def msginfo_comm_def msginfo_multi_def)
  have lib: "PICA_processmsg ?pk k cb t c2n_messages = procmsg_MULTILOGIN ?pk k cb t" for k t
    by (simp add: PICA_processmsg_def c2n_messages_def)
  let ?b = "(emit (multilogin_cb (login_time a) (node_addr_ipv4 (cn_srv_addr n)) (snd (cn_srv_addr n))) b)
         \<lparr>conns := (conns b)(cb \<mapsto> m\<lparr>cn_multilogin_last_timestamp := login_time a\<rparr>)\<rparr>"
  have "own_sign_ok (lext b) (login_blocks a n) sig" using verifies a(3) by blast
  note hear = hear_login [OF b(1,3,2) a(4,5) this]
  have again: "procmsg_MULTILOGIN ?pk k cb ?b = Some (1, ?b)" for k
    by (rule ignore_old_login [where m = "m\<lparr>cn_multilogin_last_timestamp := login_time a\<rparr>"]) (use a(5) in simp_all)
  show ?thesis
    by (intro exI [of _ ?pk] exI [of _ "a\<lparr>lenv := e, conns := (conns a)(ca \<mapsto> n\<lparr>cn_w := w\<rparr>)\<rparr>"] exI [of _ w]
        exI [of _ s'] exI [of _ ?b] conjI)
      (use send relay node lib hear again in \<open>simp_all del: length_var_packet\<close>)
qed
text \<open>A node with two connections of one user.\<close>

definition twice_node :: node where
  "twice_node = pair_node\<lparr>clients := [1 \<mapsto> blank_client\<lparr>c_id := id_a, c_next_multi := Some 2\<rparr>, 2 \<mapsto> blank_client\<lparr>c_id := id_a\<rparr>]\<rparr>"

lemma twice_node_good: "good twice_node"
proof -
  have "node_inv twice_node"
    using pair_node_good by (simp add: good_def node_inv_def links_inv_def heap_list_def twice_node_def pair_node_def)
  moreover have "tree_ok twice_node"
    unfolding tree_ok_def
  proof (intro conjI allI impI)
    show "\<exists>t. shape (clients twice_node) (client_tree_root twice_node) t \<and> ordered (clients twice_node) t"
      by (rule exI [of _ "Node Leaf 1 Leaf"])
        (simp add: twice_node_def pair_node_def blank_client_def ordered_def id_at_def)
    fix p c
    assume "clients twice_node p = Some c"
    then have "c_next_multi c = None \<or> c_next_multi c = Some 2"
      by (auto simp: twice_node_def blank_client_def split: if_splits)
    then show "\<exists>ps. chain (clients twice_node) (c_next_multi c) ps"
    proof
      assume "c_next_multi c = Some 2"
      then show ?thesis by (intro exI [of _ "[2]"]) (simp add: twice_node_def blank_client_def)
    qed (intro exI [of _ "[]"], simp)
  qed
  moreover have "mem_ok twice_node" using pair_node_good by (simp add: good_def mem_ok_def twice_node_def)
  ultimately show ?thesis by (simp add: good_def)
qed

definition demo_login :: lib where
  "demo_login = (init_lib demo_ext (calm_env\<lparr>now := 7\<rparr>))\<lparr>lnext := 1, conns := [0 \<mapsto> demo_conn]\<rparr>"

theorem login_reaches_other_devices_witness:
  "\<exists>pk s' b'. PICA_processmsg pk (of_nat (length pk)) 1 twice_node msginfo_comm = Some (1, s') \<and> client_queue s' 2 = pk \<and>
     client_queue s' 1 = [] \<and> PICA_processmsg pk (of_nat (length pk)) 0 demo_login c2n_messages = Some (1, b') \<and>
     events b' = [multilogin_cb 7 (node_addr_ipv4 (0, 0)) 0]"
proof -
  let ?c = "blank_client\<lparr>c_id := id_a, c_next_multi := Some 2\<rparr>"
  have a: "conns demo_login 0 = Some demo_conn" "conn_ok 0 65536 demo_login"
    "own_signature (lext demo_login) (login_blocks demo_login demo_conn) = Inr [1]" "[1 :: byte] \<noteq> []"
    "length [1 :: byte] \<le> PICA_PROTO_MULTILOGIN_MAXSIGSIZE" "login_time demo_login = 7" "cn_srv_addr demo_conn = (0, 0)"
    "cn_acc_id demo_conn = cn_acc_id demo_conn" "cn_multilogin_last_timestamp demo_conn < login_time demo_login" "events demo_login = []"
    "\<forall>blocks sig. own_signature (lext demo_login) blocks = Inr sig \<longrightarrow> own_sign_ok (lext demo_login) blocks sig"
    by (simp_all add: demo_login_def init_lib_def demo_ext_def conn_ok_def demo_conn_def calm_env_def login_time_def empty_wbuf_def wbuf_ok_def)
  have s: "clients twice_node 1 = Some ?c"
    "client_tree_search (clients twice_node) (client_tree_root twice_node) (c_id ?c) = Some (Some 1)"
    "chain (clients twice_node) (Some 1) [1, 2]" "\<forall>p\<in>set [1, 2]. client_room 65536 twice_node p" "msginfo_comm \<in> {msginfo_comm, msginfo_multi}"
    by (simp_all add: twice_node_def pair_node_def client_tree_search_def tree_search_loop.simps blank_client_def client_room_def)
      (simp add: empty_wbuf_def)
  from login_reaches_other_devices [OF a(1-5) twice_node_good s a(1,8,9,11)] obtain pk s' b' where
    "PICA_processmsg pk (of_nat (length pk)) 1 twice_node msginfo_comm = Some (1, s')"
    "\<forall>p\<in>dom (clients twice_node). client_queue s' p = client_queue twice_node p @ (if p \<in> set [1, 2] \<and> p \<noteq> 1 then pk else [])"
    "PICA_processmsg pk (of_nat (length pk)) 0 demo_login c2n_messages = Some (1, b')"
    "events b' = events demo_login @ [multilogin_cb (login_time demo_login) (node_addr_ipv4 (cn_srv_addr demo_conn)) (snd (cn_srv_addr demo_conn))]"
    by blast
  moreover have "client_queue twice_node 1 = []" "client_queue twice_node 2 = []" "{1, 2} \<subseteq> dom (clients twice_node)"
    by (auto simp: client_queue_def twice_node_def blank_client_def)
  ultimately show ?thesis using a(6,7,10) by (intro exI [of _ pk] exI [of _ s'] exI [of _ b']) auto
qed

end
