(* ===== verification/NodeList.thy ===== *)
theory NodeList
  imports Login
begin

text \<open>
  The list of nodes: a client asks its node for the nodes it is linked with
  (\<open>procmsg_NODELISTREQ\<close> of \<open>PICA_node.c\<close>) and tells its application every entry of the
  answer (\<open>procmsg_CLNODELIST\<close> of \<open>PICA_client.c\<close>).
\<close>

section \<open>The list of the node\<close>

definition link_addrs :: "node \<Rightarrow> nat list \<Rightarrow> (u32 \<times> u16) list" where
  "link_addrs s ps = concat (map (\<lambda>p. case nodelinks s p of
      Some k \<Rightarrow> (if k_addr_type k = PICA_PROTO_NEWNODE_IPV4 then (case k_node_addr k of Some na \<Rightarrow> [na] | None \<Rightarrow> []) else [])
    | None \<Rightarrow> []) ps)"

text \<open>What a client gets to know: the node itself and the nodes it is linked with.\<close>

definition known_nodes :: "node \<Rightarrow> (u32 \<times> u16) list" where
  "known_nodes s = (my_addr s, listen_port s) # link_addrs s (nodelink_list s)"

lemma length_nl_item [simp]: "length (nl_item na) = 7"
  by (simp add: nl_item_def put_na_def)

lemma length_nl_items [simp]: "length (concat (map nl_item as)) = 7 * length as"
  by (induction as) simp_all

lemma length_link_addrs: "length (link_addrs s ps) \<le> length ps"
  by (induction ps) (auto simp: link_addrs_def split: option.splits)

lemma nodelist_loop_items:
  assumes "set ps \<subseteq> dom (nodelinks s)" "\<forall>k\<in>ran (nodelinks s). nodelink_ok k" "length acc + 7 * length ps < 65532"
  shows "nodelist_loop s None acc ps = Some (acc @ concat (map nl_item (link_addrs s ps)))"
  using assms(1,3)
proof (induction ps arbitrary: acc)
  case (Cons p ps)
  then obtain k where k: "nodelinks s p = Some k" by auto
  with assms(2) have "nodelink_ok k" by (auto intro: ranI)
  with k Cons show ?case by (auto simp: nodelink_ok_def link_addrs_def)
qed (simp add: link_addrs_def)

section \<open>The entries of the client\<close>

text \<open>The port is kept in network byte order by the node and converted by the client.\<close>

definition node_cb :: "u32 \<times> u16 \<Rightarrow> callback" where
  "node_cb na = nodelist_cb PICA_PROTO_NEWNODE_IPV4 (put_le 4 (unat (fst na))) (ntohs (snd na))"

lemma clnodelist_item_ipv4:
  assumes "drop pos buf = nl_item na @ rest"
  shows "clnodelist_item buf pos = Some (Some (node_cb na, 7))"
proof -
  have l: "pos + 7 + length rest = length buf" using arg_cong [OF assms, of length] by simp
  have d: "drop (pos + k) buf = drop k (nl_item na @ rest)" for k using assms by (metis add.commute drop_drop)
  have "buf ! pos = hd (drop pos buf)" using l by (simp add: hd_drop_conv_nth)
  then have "buf ! pos = ucast PICA_PROTO_NEWNODE_IPV4" using assms by (simp add: nl_item_def)
  moreover have "take 4 (drop (pos + 1) buf) = put_le 4 (unat (fst na))" unfolding d by (simp add: nl_item_def put_na_def)
  moreover have "take 2 (drop (pos + 5) buf) = put_le 2 (unat (snd na))" unfolding d by (simp add: nl_item_def put_na_def)
  ultimately show ?thesis using l by (simp add: clnodelist_item_def rd_be16_def node_cb_def ntohs_def)
qed

lemma clnodelist_items:
  assumes "drop pos buf = concat (map nl_item as)" "as \<noteq> []" "unat nb = length buf"
  shows "clnodelist_loop buf nb pos s = Some (1, s\<lparr>events := events s @ map node_cb as\<rparr>)"
  using assms(1,2)
proof (induction as arbitrary: pos s)
  case (Cons a as)
  then have it: "clnodelist_item buf pos = Some (Some (node_cb a, 7))" by (intro clnodelist_item_ipv4) simp
  have len: "pos + 7 + 7 * length as = length buf" using arg_cong [OF Cons.prems(1), of length] by simp
  have "drop (pos + 7) buf = drop 7 (drop pos buf)" by (simp add: add.commute)
  then have rest: "drop (pos + 7) buf = concat (map nl_item as)" using Cons.prems(1) by simp
  show ?case
  proof (cases "as = []")
    case True
    with it len assms(3) show ?thesis by (subst clnodelist_loop.simps) (simp add: emit_def)
  next
    case False
    then have "pos + 7 < unat nb" using len assms(3) by (cases as) auto
    with Cons.IH [OF rest False, of "emit (node_cb a) s"] it show ?thesis
      by (subst clnodelist_loop.simps) (simp add: emit_def)
  qed
qed simp

section \<open>Properties\<close>

text \<open>C13. The list of nodes reaches the application. When a client asks its node for the list,
  the node queues one packet for it; processed by the client library it tells the application
  the node itself and every node it is linked with by an IPv4 address, each once, in order,
  with the ports in host byte order. (The list has room for more than 9000 nodes.)\<close>

theorem node_list_round_trip:
  assumes s: "good s" "clients s p = Some c" "client_room 65536 s p" "length (nodelink_list s) < 9000"
    and req: "length t = 2" "msgs \<in> {msginfo_comm, msginfo_multi}"
  shows "\<exists>s' pk. PICA_processmsg (packet PICA_PROTO_CLNODELISTREQ t) 4 p s msgs = Some (1, s') \<and>
     client_queue s' p = client_queue s p @ pk \<and>
     PICA_processmsg pk (of_nat (length pk)) cn b c2n_messages
       = Some (1, b\<lparr>events := events b @ map node_cb (known_nodes s)\<rparr>)"
proof -
  have m0: "mem_ok s" using s(1) by (simp add: good_def)
  then obtain e0 where al: "env_alloc (nenv s) = (True, e0)" "alloc_ok e0 = (\<lambda>_. True)" by (simp add: mem_ok_def env_alloc_def)
  define s1 where "s1 = s\<lparr>nenv := e0\<rparr>"
  let ?nl = "concat (map nl_item (known_nodes s))" and ?pk = "var_packet PICA_PROTO_CLNODELIST (concat (map nl_item (known_nodes s)))"
  have m: "mem_ok s1" using al(2) by (simp add: mem_ok_def s1_def)
  have inv: "set (nodelink_list s) \<subseteq> dom (nodelinks s1)" "\<forall>k\<in>ran (nodelinks s1). nodelink_ok k"
    using inv_nodelist [OF s(1)] s(1) by (simp_all add: s1_def good_def node_inv_def)
  have la: "link_addrs s1 = link_addrs s" by (simp add: fun_eq_iff link_addrs_def s1_def)
  have loop: "nodelist_loop s1 None (nl_item (my_addr s, listen_port s)) (nodelink_list s) = Some ?nl"
    using nodelist_loop_items [OF inv, of "nl_item (my_addr s, listen_port s)"] s(4) la by (simp add: known_nodes_def)
  have kn: "length (known_nodes s) \<le> 9000" using length_link_addrs [of s "nodelink_list s"] s(4) by (simp add: known_nodes_def)
  then have l: "length ?nl < 65532" by simp
  have rm: "client_room (length (put16 (length ?nl) @ ?nl) + 2) s1 p"
    using s(3) kn by (auto simp: client_room_def s1_def split: option.splits)
  have un: "unat (of_nat (length ?nl) + 4 :: u32) = length (put16 (length ?nl) @ ?nl) + 2"
    using unat_len4 [of ?nl] l by simp
  have c1: "clients s1 p = Some c" using s(2) by (simp add: s1_def)
  from client_send_ok [OF c1 m rm un, of PICA_PROTO_CLNODELIST] obtain e w where
    snd: "client_send p PICA_PROTO_CLNODELIST (of_nat (length ?nl) + 4) (put16 (length ?nl) @ ?nl) s1
       = Some (True, s1\<lparr>clients := (clients s1)(p \<mapsto> c\<lparr>c_w := w\<rparr>), nenv := e\<rparr>)"
      "pending w = pending (c_w c) @ ?pk" unfolding var_packet_def by blast
  let ?s = "s1\<lparr>clients := (clients s1)(p \<mapsto> c\<lparr>c_w := w\<rparr>), nenv := e\<rparr>"
  have rd: "rd8 (packet PICA_PROTO_CLNODELISTREQ t) 0 = Some (ucast PICA_PROTO_CLNODELISTREQ)" by (simp add: packet_def rd8_def)
  have "procmsg_NODELISTREQ (packet PICA_PROTO_CLNODELISTREQ t) 4 p s = Some (1, ?s)"
    unfolding procmsg_NODELISTREQ_def rd Option.bind.simps Let_def al(1)
    using loop snd(1) by (simp add: s1_def [symmetric])
  moreover have "PICA_processmsg (packet PICA_PROTO_CLNODELISTREQ t) 4 p s msgs = procmsg_NODELISTREQ (packet PICA_PROTO_CLNODELISTREQ t) 4 p s"
    using req by (auto simp: PICA_processmsg_def packet_def msginfo_comm_def msginfo_multi_def)
  moreover have "client_queue ?s p = client_queue s p @ ?pk" using snd(2) s(2) by (simp add: client_queue_def)
  moreover have "PICA_processmsg ?pk (of_nat (length ?pk)) cn b c2n_messages = Some (1, b\<lparr>events := events b @ map node_cb (known_nodes s)\<rparr>)"
  proof -
    have "unat (of_nat (length ?pk) :: u32) = length ?pk" using unat_len4 [of ?nl] l by (simp add: add.commute)
    then have "clnodelist_loop ?pk (of_nat (length ?pk)) 4 b = Some (1, b\<lparr>events := events b @ map node_cb (known_nodes s)\<rparr>)"
      by (intro clnodelist_items) (simp_all add: known_nodes_def)
    then show ?thesis by (simp add: PICA_processmsg_def c2n_messages_def procmsg_CLNODELIST_def del: length_var_packet)
  qed
  ultimately show ?thesis by (intro exI [of _ ?s] exI [of _ ?pk]) simp
qed

theorem node_list_round_trip_witness:
  "\<exists>s' pk. PICA_processmsg (packet PICA_PROTO_CLNODELISTREQ [1, 2]) 4 1 pair_node msginfo_comm = Some (1, s') \<and>
     client_queue s' 1 = pk \<and>
     PICA_processmsg pk (of_nat (length pk)) 0 demo_login c2n_messages
       = Some (1, demo_login\<lparr>events := [node_cb (my_addr pair_node, listen_port pair_node)]\<rparr>)"
proof -
  have "clients pair_node 1 \<noteq> None" "client_room 65536 pair_node 1" "length (nodelink_list pair_node) < 9000" "length [1, 2 :: byte] = 2"
    "msginfo_comm \<in> {msginfo_comm, msginfo_multi}" "client_queue pair_node 1 = []" "known_nodes pair_node = [(my_addr pair_node, listen_port pair_node)]"
    "events demo_login = []"
    by (simp_all add: client_room_def client_queue_def blank_client_def known_nodes_def link_addrs_def pair_node_def empty_node_def
        demo_login_def init_lib_def) (simp add: empty_wbuf_def)
  then show ?thesis using node_list_round_trip [OF pair_node_good, of 1 _ "[1, 2]" msginfo_comm 0 demo_login] by fastforce
qed

end
