(* ===== verification/NodeAddr.thy ===== *)
theory NodeAddr
  imports Pica_Base "HOL-Library.Multiset" "HOL-Library.Product_Lexorder"
begin

text \<open>
  The database of node addresses, \<open>PICA_nodeaddrlist.c\<close>. The table \<open>nodes\<close> is a list of
  rows; its primary key is the pair of address and port, and a conflicting insert replaces
  the old row (\<open>nodelist_db_create.sql\<close>). SQLite itself is outside of the program: whether
  a call of it succeeds (\<open>sq_ok\<close>, by the number of the call), which rows a failed query
  has delivered (\<open>sq_partial\<close>) and in which order a query delivers rows with equal keys
  (\<open>select_nodes\<close>) are inputs. \<open>select_ok\<close> is what \<open>order by\<close> promises.
\<close>

section \<open>Model\<close>

record noderow =
  r_address :: string
  r_port :: int
  r_last_active :: int
  r_inactive_count :: int

record PICA_nodeaddr =
  a_addr :: string
  a_inactive_count :: int
  a_last_active :: int
  a_port :: u16

record nodedb =
  rows :: "noderow list"
  sq_ok :: "nat \<Rightarrow> bool"
  n_sq :: nat
  sq_partial :: nat
  select_nodes :: "noderow list \<Rightarrow> noderow list"

definition sq_call :: "nodedb \<Rightarrow> bool \<times> nodedb" where
  "sq_call db = (sq_ok db (n_sq db), db\<lparr>n_sq := Suc (n_sq db)\<rparr>)"

text \<open>A C string ends at its first NUL.\<close>

definition c_string :: "string \<Rightarrow> string" where
  "c_string s = takeWhile (\<lambda>c. c \<noteq> CHR 0x00) s"

text \<open>The callback of the query prepends the row to the list; \<open>sqlite3_exec\<close> stops at the
  first row for which there is no memory.\<close>

definition nodeaddr_of_row :: "noderow \<Rightarrow> PICA_nodeaddr" where
  "nodeaddr_of_row r =
     \<lparr>a_addr = take 255 (c_string (r_address r)), a_inactive_count = r_inactive_count r,
      a_last_active = r_last_active r, a_port = word_of_int (r_port r)\<rparr>"

fun nodeaddr_load_loop :: "env \<Rightarrow> noderow list \<Rightarrow> PICA_nodeaddr list \<Rightarrow> PICA_nodeaddr list \<times> env" where
  "nodeaddr_load_loop e [] l = (l, e)"
| "nodeaddr_load_loop e (r # rs) l =
     (let (ok, e) = env_alloc e in
      if \<not> ok then (l, e) else nodeaddr_load_loop e rs (nodeaddr_of_row r # l))"

text \<open>A database that cannot be opened ends the program; otherwise the result is the list
  (its length is the value the function returns).\<close>

definition PICA_nodeaddr_list_load :: "env \<Rightarrow> nodedb \<Rightarrow> (PICA_nodeaddr list \<times> env \<times> nodedb) option" where
  "PICA_nodeaddr_list_load e db =
     (let (ok, db) = sq_call db in
      if \<not> ok then None
      else
        let (ok, db) = sq_call db;
            rs = select_nodes db (rows db);
            (l, e) = nodeaddr_load_loop e (if ok then rs else take (sq_partial db) rs) [] in
        Some (l, e, db))"

text \<open>Open, prepare, the bindings and the execution of a statement, each of which may fail:
  \<open>n\<close> is the number of these calls.\<close>

fun sq_calls :: "nat \<Rightarrow> nodedb \<Rightarrow> bool \<times> nodedb" where
  "sq_calls 0 db = (True, db)"
| "sq_calls (Suc n) db = (let (ok, db) = sq_call db in if ok then sq_calls n db else (False, db))"

definition sq_run :: "nat \<Rightarrow> (noderow list \<Rightarrow> noderow list) \<Rightarrow> nodedb \<Rightarrow> int \<times> nodedb" where
  "sq_run n f db = (let (ok, db) = sq_calls n db in if ok then (1, db\<lparr>rows := f (rows db)\<rparr>) else (-1, db))"

definition row_is :: "PICA_nodeaddr \<Rightarrow> noderow \<Rightarrow> bool" where
  "row_is a r \<longleftrightarrow> r_address r = a_addr a \<and> r_port r = uint (a_port a)"

definition PICA_nodeaddr_update :: "int \<Rightarrow> PICA_nodeaddr \<Rightarrow> bool \<Rightarrow> nodedb \<Rightarrow> int \<times> nodedb" where
  "PICA_nodeaddr_update t naddr is_alive =
     sq_run 5 (map (\<lambda>r. if \<not> row_is naddr r then r
                        else if is_alive then r\<lparr>r_last_active := t, r_inactive_count := 0\<rparr>
                        else r\<lparr>r_inactive_count := r_inactive_count r + 1\<rparr>))"

definition PICA_nodeaddr_cleanold :: "int \<Rightarrow> nodedb \<Rightarrow> int \<times> nodedb" where
  "PICA_nodeaddr_cleanold treshold = sq_run 4 (filter (\<lambda>r. \<not> r_inactive_count r > treshold))"

definition PICA_nodeaddr_save :: "int \<Rightarrow> PICA_nodeaddr \<Rightarrow> nodedb \<Rightarrow> int \<times> nodedb" where
  "PICA_nodeaddr_save t naddr =
     sq_run 5 (\<lambda>rs. filter (\<lambda>r. \<not> row_is naddr r) rs @
       [\<lparr>r_address = a_addr naddr, r_port = uint (a_port naddr), r_last_active = t, r_inactive_count = 0\<rparr>])"

section \<open>What the database promises\<close>

definition row_key :: "noderow \<Rightarrow> string \<times> int" where
  "row_key r = (r_address r, r_port r)"

definition keys_unique :: "nodedb \<Rightarrow> bool" where
  "keys_unique db \<longleftrightarrow> distinct (map row_key (rows db))"

text \<open>The order of the query: more failures first, among them the one seen alive longest ago
  first.\<close>

definition row_before :: "noderow \<Rightarrow> noderow \<Rightarrow> bool" where
  "row_before r r' \<longleftrightarrow>
     r_inactive_count r > r_inactive_count r'
     \<or> r_inactive_count r = r_inactive_count r' \<and> r_last_active r \<le> r_last_active r'"

definition select_ok :: "nodedb \<Rightarrow> bool" where
  "select_ok db \<longleftrightarrow>
     (\<forall>rs. mset (select_nodes db rs) = mset rs \<and> sorted_wrt row_before (select_nodes db rs))"

definition sq_fine :: "nodedb \<Rightarrow> bool" where
  "sq_fine db \<longleftrightarrow> sq_ok db = (\<lambda>_. True)"

text \<open>An address of the program: a C string that fits into \<open>addr[256]\<close>.\<close>

definition nodeaddr_ok :: "PICA_nodeaddr \<Rightarrow> bool" where
  "nodeaddr_ok a \<longleftrightarrow> length (a_addr a) \<le> 255 \<and> CHR 0x00 \<notin> set (a_addr a)"

definition row_ok :: "noderow \<Rightarrow> bool" where
  "row_ok r \<longleftrightarrow> length (r_address r) \<le> 255 \<and> CHR 0x00 \<notin> set (r_address r) \<and> 0 \<le> r_port r \<and> r_port r < 2 ^ 16"

section \<open>Lemmas\<close>

lemma sq_calls_fine: "sq_fine db \<Longrightarrow> sq_calls n db = (True, db\<lparr>n_sq := n_sq db + n\<rparr>)"
  by (induction n arbitrary: db) (auto simp: sq_call_def sq_fine_def)

lemma sq_calls_rows: "sq_calls n db = (ok, db') \<Longrightarrow> \<exists>k. db' = db\<lparr>n_sq := k\<rparr>"
proof (induction n arbitrary: db)
  case 0
  then have "db' = db\<lparr>n_sq := n_sq db\<rparr>" by simp
  then show ?case by blast
next
  case (Suc n)
  then show ?case
    by (fastforce simp: sq_call_def split: if_splits)
qed

lemma sq_run_fine: "sq_fine db \<Longrightarrow> sq_run n f db = (1, db\<lparr>rows := f (rows db), n_sq := n_sq db + n\<rparr>)"
  by (simp add: sq_run_def sq_calls_fine)

lemma sq_run_cases:
  "sq_run n f db = (r, db') \<Longrightarrow>
     rows db' \<in> {f (rows db), rows db} \<and> select_nodes db' = select_nodes db \<and> sq_ok db' = sq_ok db"
  using sq_calls_rows [of n db] by (fastforce simp: sq_run_def split: prod.splits if_splits)

lemma load_loop_fine:
  "alloc_ok e = (\<lambda>_. True) \<Longrightarrow>
     nodeaddr_load_loop e rs l = (rev (map nodeaddr_of_row rs) @ l, e\<lparr>n_alloc := n_alloc e + length rs\<rparr>)"
  by (induction rs arbitrary: e l) (auto simp: env_alloc_def)

lemma list_load_fine:
  "sq_fine db \<Longrightarrow> alloc_ok e = (\<lambda>_. True) \<Longrightarrow>
     \<exists>e' db'. PICA_nodeaddr_list_load e db = Some (rev (map nodeaddr_of_row (select_nodes db (rows db))), e', db')
       \<and> (\<exists>k. e' = e\<lparr>n_alloc := k\<rparr>) \<and> (\<exists>k. db' = db\<lparr>n_sq := k\<rparr>)"
  by (auto simp: PICA_nodeaddr_list_load_def sq_call_def sq_fine_def load_loop_fine Let_def)

lemma keys_unique_map:
  "(\<And>r. row_key (g r) = row_key r) \<Longrightarrow> distinct (map row_key (map g rs)) = distinct (map row_key rs)"
  by (simp add: comp_def)

lemma row_is_key: "row_is a r \<longleftrightarrow> row_key r = (a_addr a, uint (a_port a))"
  by (auto simp: row_is_def row_key_def)

lemma take_c_string:
  assumes "length s \<le> 255" "CHR 0x00 \<notin> set s"
  shows "take 255 (c_string s) = s"
proof -
  have "c_string s = s" unfolding c_string_def takeWhile_eq_all_conv using assms(2) by metis
  then show ?thesis using assms(1) by simp
qed

lemma row_is_nodeaddr:
  assumes "row_ok r"
  shows "row_is a r \<longleftrightarrow> a_addr (nodeaddr_of_row r) = a_addr a \<and> a_port (nodeaddr_of_row r) = a_port a"
proof -
  have "a_addr (nodeaddr_of_row r) = r_address r"
    using assms by (simp add: nodeaddr_of_row_def row_ok_def take_c_string)
  moreover have "uint (word_of_int (r_port r) :: u16) = r_port r"
    using assms by (simp add: row_ok_def uint_word_of_int)
  ultimately show ?thesis by (auto simp: row_is_def nodeaddr_of_row_def)
qed

lemma nodeaddr_of_new_row:
  "nodeaddr_ok a \<Longrightarrow>
     nodeaddr_of_row \<lparr>r_address = a_addr a, r_port = uint (a_port a), r_last_active = t, r_inactive_count = 0\<rparr>
       = a\<lparr>a_inactive_count := 0, a_last_active := t\<rparr>"
  by (simp add: nodeaddr_of_row_def nodeaddr_ok_def take_c_string)

text \<open>The list in memory is the query backwards: the node that failed least often is first.\<close>

definition nodeaddr_before :: "PICA_nodeaddr \<Rightarrow> PICA_nodeaddr \<Rightarrow> bool" where
  "nodeaddr_before a b \<longleftrightarrow>
     a_inactive_count a < a_inactive_count b
     \<or> a_inactive_count a = a_inactive_count b \<and> a_last_active a \<ge> a_last_active b"

lemma sorted_rev_rows:
  "sorted_wrt row_before rs \<Longrightarrow> sorted_wrt nodeaddr_before (rev (map nodeaddr_of_row rs))"
  unfolding sorted_wrt_rev sorted_wrt_map
  by (erule sorted_wrt_mono_rel [rotated]) (auto simp: row_before_def nodeaddr_before_def nodeaddr_of_row_def)

lemma mset_map_filter_rows:
  assumes "\<forall>r\<in>set rs. row_ok r"
  shows "mset (map nodeaddr_of_row (filter (\<lambda>r. \<not> row_is a r) rs))
    = filter_mset (\<lambda>b. (a_addr b, a_port b) \<noteq> (a_addr a, a_port a)) (mset (map nodeaddr_of_row rs))"
  using assms by (induction rs) (auto simp: row_is_nodeaddr)

section \<open>Properties\<close>


text \<open>A database as \<open>nodelist_db_create.sql\<close> leaves it, with a query that sorts stably.\<close>

definition fresh_db :: nodedb where
  "fresh_db = \<lparr>rows = map (\<lambda>(a, p). \<lparr>r_address = a, r_port = p, r_last_active = 0, r_inactive_count = 0\<rparr>)
       [(''picapica.im'', 2233), (''picapica.im'', 2299), (''picapica.ge'', 2299)],
     sq_ok = (\<lambda>_. True), n_sq = 0, sq_partial = 0,
     select_nodes = sort_key (\<lambda>r. (- r_inactive_count r, r_last_active r))\<rparr>"

lemma fresh_db_ok: "sq_fine fresh_db" "select_ok fresh_db" "\<forall>r\<in>set (rows fresh_db). row_ok r" "keys_unique fresh_db"
proof -
  have "sorted_wrt row_before (sort_key (\<lambda>r. (- r_inactive_count r, r_last_active r)) rs)" for rs
    using sorted_sort_key [of "\<lambda>r. (- r_inactive_count r, r_last_active r)" rs] unfolding sorted_map
    by (rule sorted_wrt_mono_rel [rotated]) (auto simp: row_before_def less_eq_prod_def)
  then show "select_ok fresh_db" by (simp add: select_ok_def fresh_db_def)
qed (simp_all add: fresh_db_def sq_fine_def row_ok_def keys_unique_def row_key_def)


end
