(* ===== verification/NodeWait.thy ===== *)
theory NodeWait
  imports NodeEvents NodeAddr
begin

text \<open>
  Joining the network: the list of addresses a node is trying to reach and the threads that
  resolve and connect to them (\<open>PICA_nodewait.c\<close>), and the parts of \<open>PICA_node.c\<close> that
  feed and drain that list (\<open>process_nodewait\<close>, \<open>process_timeouts\<close>, \<open>PICA_node_joinskynet\<close>).

  A thread shares its \<open>struct nodewait\<close> with the main loop. It writes the state as its last
  step, and the main loop looks at nothing else before it has seen the state, so a thread is
  one step here, taken at any moment between two steps of the main loop. A thread that was
  started and has not ended is in \<open>threads\<close>. What \<open>getaddrinfo\<close> returns and how the
  attempts to connect end are arguments of the two thread functions; \<open>inet_addr\<close>, and
  whether a thread can be created, are inputs.
\<close>

section \<open>State\<close>

datatype nodewait_state =
    PICA_NODEWAIT_NEW
  | PICA_NODEWAIT_RESOLVING
  | PICA_NODEWAIT_RESOLVED
  | PICA_NODEWAIT_CONNECTING
  | PICA_NODEWAIT_CONNECTED
  | PICA_NODEWAIT_RESOLVING_FAILED
  | PICA_NODEWAIT_CONNECT_FAILED

record nodewait =
  w_nc :: newconn
  w_state :: nodewait_state
  w_addr :: PICA_nodeaddr
  w_ai :: "(u32 \<times> u16) list"
  w_ai_errorcode :: int

datatype thread = ResolveThread nat | ConnectThread nat

record join =
  jnode :: node
  jdb :: nodedb
  nodewaits :: "nat \<rightharpoonup> nodewait"
  nodewait_list :: "nat list"
  jnext :: nat
  threads :: "thread list"
  thread_ok :: "nat \<Rightarrow> bool"
  n_thread :: nat
  skynet_refresh_tmst :: int
  announced :: string
  inet_addr :: "string \<Rightarrow> u32"

abbreviation (input) INADDR_NONE :: u32 where
  "INADDR_NONE \<equiv> 0xFFFFFFFF"

abbreviation (input) SKYNET_REFRESH_TIMEOUT :: int where
  "SKYNET_REFRESH_TIMEOUT \<equiv> 93"

section \<open>The list\<close>

definition nodewait_list_addnew :: "PICA_nodeaddr \<Rightarrow> join \<Rightarrow> nat option \<times> join" where
  "nodewait_list_addnew a s =
     (let (ok, e) = env_alloc (nenv (jnode s)); s = s\<lparr>jnode := (jnode s)\<lparr>nenv := e\<rparr>\<rparr> in
      if \<not> ok then (None, s)
      else
        let p = jnext s in
        (Some p,
         s\<lparr>jnext := Suc p,
           nodewaits := (nodewaits s)(p \<mapsto>
             \<lparr>w_nc = empty_newconn\<lparr>n_sck := 0\<rparr>, w_state = PICA_NODEWAIT_NEW, w_addr = a, w_ai = [], w_ai_errorcode = 0\<rparr>),
           nodewait_list := p # nodewait_list s\<rparr>))"

definition nodewait_list_delete :: "nat \<Rightarrow> join \<Rightarrow> join" where
  "nodewait_list_delete p s =
     (if p \<in> set (nodewait_list s)
      then s\<lparr>nodewait_list := remove1 p (nodewait_list s), nodewaits := (nodewaits s)(p := None)\<rparr>
      else s)"

definition upd_wait :: "nat \<Rightarrow> (nodewait \<Rightarrow> nodewait) \<Rightarrow> join \<Rightarrow> join option" where
  "upd_wait p f s = do { w \<leftarrow> nodewaits s p; Some (s\<lparr>nodewaits := (nodewaits s)(p \<mapsto> f w)\<rparr>) }"

text \<open>\<open>pthread_create\<close>; when it fails the error is logged and nothing else happens.\<close>

definition start_thread :: "thread \<Rightarrow> join \<Rightarrow> join" where
  "start_thread t s =
     s\<lparr>threads := (if thread_ok s (n_thread s) then t # threads s else threads s), n_thread := Suc (n_thread s)\<rparr>"

section \<open>The threads\<close>

definition nodewait_resolve_thread ::
  "(string \<Rightarrow> u16 \<Rightarrow> int \<times> (u32 \<times> u16) list) \<Rightarrow> nat \<Rightarrow> join \<Rightarrow> join option" where
  "nodewait_resolve_thread getaddrinfo p s =
     do { w \<leftarrow> nodewaits s p;
          let (ret, ai) = getaddrinfo (a_addr (w_addr w)) (a_port (w_addr w));
          upd_wait p (\<lambda>w. w\<lparr>w_ai_errorcode := ret, w_ai := (if ret = 0 then ai else []),
                            w_state := (if ret \<noteq> 0 then PICA_NODEWAIT_RESOLVING_FAILED else PICA_NODEWAIT_RESOLVED)\<rparr>) s }"

text \<open>How the attempt to reach one address ends; the socket it uses.\<close>

datatype attempt =
    NoSocket
  | ConnectFails int
  | NoSession int
  | HandshakeFails int
  | Connects int

datatype connect_end = NoAddressLeft | ReturnsEarly | ConnectedTo "u32 \<times> u16"

text \<open>The loop over the addresses: the connection, the sockets that were closed and how the
  loop was left. When there is no memory for a TLS session the thread returns.\<close>

fun connect_loop :: "(u32 \<times> u16 \<Rightarrow> attempt) \<Rightarrow> (u32 \<times> u16) list \<Rightarrow> newconn \<Rightarrow> int list \<Rightarrow> newconn \<times> int list \<times> connect_end" where
  "connect_loop att [] nc cl = (nc, cl, NoAddressLeft)"
| "connect_loop att (ap # aps) nc cl =
     (case att ap of
        NoSocket \<Rightarrow> connect_loop att aps (nc\<lparr>n_sck := -1\<rparr>) cl
      | ConnectFails sck \<Rightarrow> connect_loop att aps (nc\<lparr>n_sck := sck\<rparr>) (cl @ [sck])
      | NoSession sck \<Rightarrow> (nc\<lparr>n_sck := sck, n_anonssl := False\<rparr>, cl @ [sck], ReturnsEarly)
      | HandshakeFails sck \<Rightarrow> connect_loop att aps (nc\<lparr>n_sck := sck, n_anonssl := False\<rparr>) (cl @ [sck])
      | Connects sck \<Rightarrow> (nc\<lparr>n_sck := sck, n_anonssl := True\<rparr>, cl, ConnectedTo ap))"

definition nodewait_connect_thread :: "(u32 \<times> u16 \<Rightarrow> attempt) \<Rightarrow> nat \<Rightarrow> join \<Rightarrow> join option" where
  "nodewait_connect_thread att p s =
     do { w \<leftarrow> nodewaits s p;
          let (nc, cl, r) = connect_loop att (w_ai w) (w_nc w) [];
          let s = s\<lparr>jnode := (jnode s)\<lparr>closed_socks := closed_socks (jnode s) @ cl\<rparr>\<rparr>;
          case r of
            ReturnsEarly \<Rightarrow> upd_wait p (\<lambda>w. w\<lparr>w_nc := nc\<rparr>) s
          | NoAddressLeft \<Rightarrow> upd_wait p (\<lambda>w. w\<lparr>w_nc := nc, w_state := PICA_NODEWAIT_CONNECT_FAILED\<rparr>) s
          | ConnectedTo ap \<Rightarrow>
              upd_wait p (\<lambda>w. w\<lparr>w_nc := nc\<lparr>n_addr := fst ap, n_port := snd ap\<rparr>, w_state := PICA_NODEWAIT_CONNECTED\<rparr>) s }"

definition nodewait_start_resolve :: "PICA_nodeaddr \<Rightarrow> join \<Rightarrow> join option" where
  "nodewait_start_resolve a s =
     (case nodewait_list_addnew a s of
        (None, s) \<Rightarrow> Some s
      | (Some p, s) \<Rightarrow>
          do { s \<leftarrow> upd_wait p (\<lambda>w. w\<lparr>w_state := PICA_NODEWAIT_RESOLVING\<rparr>) s;
               Some (start_thread (ResolveThread p) s) })"

definition nodewait_start_connect :: "nat \<Rightarrow> join \<Rightarrow> join option" where
  "nodewait_start_connect p s =
     do { s \<leftarrow> upd_wait p (\<lambda>w. w\<lparr>w_state := PICA_NODEWAIT_CONNECTING\<rparr>) s;
          Some (start_thread (ConnectThread p) s) }"

section \<open>The main loop\<close>

text \<open>Is there a link to one of the addresses? The families are all \<open>AF_INET\<close>.\<close>

fun nodelink_known :: "node \<Rightarrow> (u32 \<times> u16) list \<Rightarrow> nat list \<Rightarrow> bool option" where
  "nodelink_known s ai [] = Some False"
| "nodelink_known s ai (n # ns) =
     do { k \<leftarrow> nodelinks s n;
          if (k_addr k, k_port k) \<in> set ai then Some True else nodelink_known s ai ns }"

definition update_db :: "PICA_nodeaddr \<Rightarrow> bool \<Rightarrow> join \<Rightarrow> join" where
  "update_db a is_alive s = s\<lparr>jdb := snd (PICA_nodeaddr_update (now (nenv (jnode s))) a is_alive (jdb s))\<rparr>"

text \<open>\<open>case PICA_NODEWAIT_CONNECTED\<close>: the link takes over the TLS session.\<close>

definition nodewait_connected :: "nat \<Rightarrow> join \<Rightarrow> join option" where
  "nodewait_connected p s =
     do { w \<leftarrow> nodewaits s p;
          let (nlp, nc, n) = nodelink_list_addnew (w_nc w) (jnode s);
          s \<leftarrow> upd_wait p (\<lambda>w. w\<lparr>w_nc := nc\<rparr>) (s\<lparr>jnode := n\<rparr>);
          s \<leftarrow> (case nlp of
                  None \<Rightarrow> Some s
                | Some l \<Rightarrow>
                    do { (ok, n) \<leftarrow> nodelink_send l PICA_PROTO_NODECONNREQ PICA_PROTO_NODECONNREQ_SIZE
                                       [PICA_PROTO_VER_HIGH, PICA_PROTO_VER_LOW] (jnode s);
                         Some (s\<lparr>jnode := n\<rparr>) });
          Some (nodewait_list_delete p (update_db (w_addr w) True s)) }"

definition process_nodewait_one :: "nat \<Rightarrow> join \<Rightarrow> join option" where
  "process_nodewait_one p s =
     do { w \<leftarrow> nodewaits s p;
          case w_state w of
            PICA_NODEWAIT_RESOLVED \<Rightarrow>
              do { skip \<leftarrow> nodelink_known (jnode s) (w_ai w) (nodelink_list (jnode s));
                   if \<not> skip then nodewait_start_connect p s else Some (nodewait_list_delete p s) }
          | PICA_NODEWAIT_CONNECTED \<Rightarrow> nodewait_connected p s
          | PICA_NODEWAIT_RESOLVING_FAILED \<Rightarrow> Some (nodewait_list_delete p (update_db (w_addr w) False s))
          | PICA_NODEWAIT_CONNECT_FAILED \<Rightarrow> Some (nodewait_list_delete p (update_db (w_addr w) False s))
          | _ \<Rightarrow> Some s }"

text \<open>The successor is read before the entry is deleted, and nothing is added meanwhile.\<close>

fun process_nodewait_loop :: "nat list \<Rightarrow> join \<Rightarrow> join option" where
  "process_nodewait_loop [] s = Some s"
| "process_nodewait_loop (p # ps) s = do { s \<leftarrow> process_nodewait_one p s; process_nodewait_loop ps s }"

definition process_nodewait :: "join \<Rightarrow> join option" where
  "process_nodewait s = process_nodewait_loop (nodewait_list s) s"

definition nodelink_has_addr :: "PICA_nodeaddr \<Rightarrow> nodelink \<Rightarrow> bool" where
  "nodelink_has_addr nap k \<longleftrightarrow>
     (case k_node_addr k of
        None \<Rightarrow> False
      | Some (a, p) \<Rightarrow>
          k_addr_type k = PICA_PROTO_NEWNODE_IPV4 \<and> take 16 (a_addr nap) = take 16 (inet_ntoa a) \<and> a_port nap = ntohs p)
     \<or> take 16 (a_addr nap) = take 16 (inet_ntoa (k_addr k)) \<and> a_port nap = ntohs (k_port k)"

fun join_known :: "node \<Rightarrow> PICA_nodeaddr \<Rightarrow> nat list \<Rightarrow> bool option" where
  "join_known s nap [] = Some False"
| "join_known s nap (n # ns) =
     do { k \<leftarrow> nodelinks s n; if nodelink_has_addr nap k then Some True else join_known s nap ns }"

definition join_skip :: "join \<Rightarrow> PICA_nodeaddr \<Rightarrow> bool option" where
  "join_skip s nap =
     (if a_addr nap = announced s \<and> a_port nap = ntohs (listen_port (jnode s))
        \<or> disable_reserved_addrs (jnode s) \<and> inet_addr s (a_addr nap) \<noteq> INADDR_NONE
          \<and> PICA_is_reserved_addr_ipv4 (inet_addr s (a_addr nap))
      then Some True
      else join_known (jnode s) nap (nodelink_list (jnode s)))"

fun joinskynet_loop :: "PICA_nodeaddr list \<Rightarrow> join \<Rightarrow> join option" where
  "joinskynet_loop [] s = Some s"
| "joinskynet_loop (nap # naps) s =
     do { skip \<leftarrow> join_skip s nap;
          s \<leftarrow> (if \<not> skip then nodewait_start_resolve nap s else Some s);
          joinskynet_loop naps s }"

definition PICA_node_joinskynet :: "join \<Rightarrow> join option" where
  "PICA_node_joinskynet s =
     do { let s = s\<lparr>skynet_refresh_tmst := now (nenv (jnode s))\<rparr>;
          (l, e, db) \<leftarrow> PICA_nodeaddr_list_load (nenv (jnode s)) (jdb s);
          joinskynet_loop l (s\<lparr>jnode := (jnode s)\<lparr>nenv := e\<rparr>, jdb := db\<rparr>) }"

text \<open>The counters are unsigned: the difference wraps around and is then read as an \<open>int\<close>.\<close>

definition clean_treshold :: "node \<Rightarrow> int" where
  "clean_treshold s =
     (let t = sint (100 - nodelink_list_count s - cclink_list_count s) in if t \<le> 0 then 3 else t)"

definition skynet_refresh :: "join \<Rightarrow> join option" where
  "skynet_refresh s =
     (if now (nenv (jnode s)) - skynet_refresh_tmst s > SKYNET_REFRESH_TIMEOUT \<and> nodewait_list s = [] then
        PICA_node_joinskynet
          (if nodelink_list_count (jnode s) > 0
           then s\<lparr>jdb := snd (PICA_nodeaddr_cleanold (clean_treshold (jnode s)) (jdb s))\<rparr> else s)
      else Some s)"

definition process_timeouts :: "join \<Rightarrow> join option" where
  "process_timeouts s =
     do { n \<leftarrow> process_timeouts_newconn (jnode s);
          n \<leftarrow> process_timeouts_c2n n;
          n \<leftarrow> process_timeouts_c2c n;
          n \<leftarrow> process_timeouts_n2n n;
          skynet_refresh (s\<lparr>jnode := n\<rparr>) }"

definition process_timeout_event :: "join \<Rightarrow> join option" where
  "process_timeout_event s = do { s \<leftarrow> process_timeouts s; process_nodewait s }"

end
