(* ===== verification/NodeJoin.thy ===== *)
theory NodeJoin
  imports NodeWait NodeInv
begin

text \<open>
  Joining the network is correct: no thread ever works on an entry that was freed or that
  the main loop looks at, a pass of the main loop does not fault, and the attempts come to an
  end unless a thread gives up without a word, which blocks the list for good.
\<close>

section \<open>Steps\<close>

text \<open>
  The threads and the main loop interleave: a running thread ends, the main loop looks at one
  entry, it starts a refresh when it is due, some other handler changes the node (\<open>step_node\<close>)
  or the database (\<open>step_db\<close>).
\<close>

definition thread_done :: "thread \<Rightarrow> join \<Rightarrow> join" where
  "thread_done t s = s\<lparr>threads := remove1 t (threads s)\<rparr>"

inductive join_step :: "join \<Rightarrow> join \<Rightarrow> bool" where
  step_resolve: "ResolveThread p \<in> set (threads s) \<Longrightarrow> nodewait_resolve_thread g p s = Some s' \<Longrightarrow>
     join_step s (thread_done (ResolveThread p) s')"
| step_connect: "ConnectThread p \<in> set (threads s) \<Longrightarrow> nodewait_connect_thread att p s = Some s' \<Longrightarrow>
     join_step s (thread_done (ConnectThread p) s')"
| step_wait: "p \<in> set (nodewait_list s) \<Longrightarrow> process_nodewait_one p s = Some s' \<Longrightarrow> join_step s s'"
| step_refresh: "skynet_refresh s = Some s' \<Longrightarrow> join_step s s'"
| step_node: "good n \<Longrightarrow> join_step s (s\<lparr>jnode := n\<rparr>)"
| step_db: "join_step s (s\<lparr>jdb := db\<rparr>)"

section \<open>The invariant\<close>

fun owner :: "thread \<Rightarrow> nat" where
  "owner (ResolveThread p) = p"
| "owner (ConnectThread p) = p"

fun works_in :: "thread \<Rightarrow> nodewait_state" where
  "works_in (ResolveThread p) = PICA_NODEWAIT_RESOLVING"
| "works_in (ConnectThread p) = PICA_NODEWAIT_CONNECTING"

definition waits_inv :: "nat \<Rightarrow> (nat \<rightharpoonup> nodewait) \<Rightarrow> nat list \<Rightarrow> thread list \<Rightarrow> bool" where
  "waits_inv b h l ts \<longleftrightarrow>
     heap_list b h l \<and> distinct ts \<and> (\<forall>t\<in>set ts. \<exists>w. h (owner t) = Some w \<and> w_state w = works_in t)"

definition join_inv :: "join \<Rightarrow> bool" where
  "join_inv s \<longleftrightarrow> good (jnode s) \<and> waits_inv (jnext s) (nodewaits s) (nodewait_list s) (threads s)"

lemma waits_inv_update:
  assumes "waits_inv b h l ts" "h p = Some w" "distinct ts'"
    "\<And>t. t \<in> set ts' \<Longrightarrow> t \<in> set ts \<and> owner t \<noteq> p \<or> owner t = p \<and> w_state w' = works_in t"
  shows "waits_inv b (h(p \<mapsto> w')) l ts'"
  using assms unfolding waits_inv_def heap_list_def by (auto dest!: assms(4))

lemma waits_inv_delete:
  assumes "waits_inv b h l ts" "\<And>t. t \<in> set ts \<Longrightarrow> owner t \<noteq> p"
  shows "waits_inv b (h(p := None)) (remove1 p l) ts"
  using assms heap_list_remove unfolding waits_inv_def by auto

lemma waits_inv_add:
  assumes "waits_inv b h l ts" "set ts' \<subseteq> insert t (set ts)" "distinct ts'" "owner t = b" "works_in t = w_state w"
  shows "waits_inv (Suc b) (h(b \<mapsto> w)) (b # l) ts'"
proof -
  have "heap_list (Suc b) (h(b \<mapsto> w)) (b # l)"
    using assms(1) unfolding waits_inv_def heap_list_def by (fastforce simp: less_Suc_eq)
  moreover have "owner u \<noteq> b" if "u \<in> set ts" for u
    using assms(1) that unfolding waits_inv_def heap_list_def by (metis domI less_irrefl)
  ultimately show ?thesis using assms unfolding waits_inv_def by (metis fun_upd_apply insertE subsetD)
qed

lemma waits_inv_idle:
  "waits_inv b h l ts \<Longrightarrow> h p = Some w \<Longrightarrow> w_state w \<noteq> PICA_NODEWAIT_RESOLVING \<Longrightarrow>
     w_state w \<noteq> PICA_NODEWAIT_CONNECTING \<Longrightarrow> t \<in> set ts \<Longrightarrow> owner t \<noteq> p"
  unfolding waits_inv_def by (cases t) fastforce+

lemma waits_inv_only:
  "waits_inv b h l ts \<Longrightarrow> t \<in> set ts \<Longrightarrow> u \<in> set ts \<Longrightarrow> owner u = owner t \<Longrightarrow> u = t"
proof -
  assume "waits_inv b h l ts" "t \<in> set ts" "u \<in> set ts" and o: "owner u = owner t"
  then have "works_in u = works_in t" unfolding waits_inv_def by (metis option.inject)
  with o show "u = t" by (cases t; cases u) auto
qed

lemma good_new_nodelink:
  assumes "good s" "k_addr_type k = 0" "alloc_ok e = alloc_ok (nenv s)"
  shows "good (s\<lparr>next_ptr := Suc (next_ptr s), nodelink_list := nodelink_list s @ [next_ptr s], nenv := e,
     nodelinks := (nodelinks s)(next_ptr s \<mapsto> k), nodelink_list_count := nodelink_list_count s + 1\<rparr>)"
proof -
  have inv: "node_inv s" using assms(1) by (simp add: good_def)
  have "nodelink_ok k" using assms(2) by (simp add: nodelink_ok_def)
  moreover have "link_ok C (insert p K) l" if "link_ok C K l" for C p K l
    using that by (auto simp: link_ok_def)
  ultimately have "node_inv (s\<lparr>next_ptr := Suc (next_ptr s), nodelink_list := nodelink_list s @ [next_ptr s], nenv := e,
     nodelinks := (nodelinks s)(next_ptr s \<mapsto> k), nodelink_list_count := nodelink_list_count s + 1\<rparr>)"
    using inv heap_list_add [of "next_ptr s" "nodelinks s" "nodelink_list s" k]
    unfolding node_inv_def links_inv_def by (auto simp: ran_def intro: heap_list_mono)
  then show ?thesis using assms(1,3) by (auto simp: good_def mem_ok_def tree_ok_def)
qed

lemma nodelink_list_addnew_good:
  assumes "good s"
  obtains n k where "nodelink_list_addnew nc s = (Some (next_ptr s), nc\<lparr>n_anonssl := False\<rparr>, n)"
    "good n" "nodelinks n = (nodelinks s)(next_ptr s \<mapsto> k)" "k = new_nodelink nc (now (nenv s))"
proof -
  have m: "alloc_ok (nenv s) = (\<lambda>_. True)" using assms by (simp add: good_def mem_ok_def)
  let ?e = "(nenv s)\<lparr>n_alloc := Suc (Suc (n_alloc (nenv s)))\<rparr>"
  let ?n = "s\<lparr>next_ptr := Suc (next_ptr s), nodelink_list := nodelink_list s @ [next_ptr s], nenv := ?e,
     nodelinks := (nodelinks s)(next_ptr s \<mapsto> new_nodelink nc (now (nenv s))), nodelink_list_count := nodelink_list_count s + 1\<rparr>"
  have "good ?n" by (rule good_new_nodelink [OF assms]) (simp_all add: new_nodelink_def)
  then show thesis using m by (intro that [of ?n]) (simp_all add: nodelink_list_addnew_def env_alloc_def Let_def)
qed

lemma nodelink_known_total:
  "set ns \<subseteq> dom (nodelinks s) \<Longrightarrow>
     nodelink_known s ai ns = Some (\<exists>n\<in>set ns. \<exists>k. nodelinks s n = Some k \<and> (k_addr k, k_port k) \<in> set ai)"
  by (induction ns) auto

lemma join_known_total:
  "set ns \<subseteq> dom (nodelinks s) \<Longrightarrow>
     join_known s a ns = Some (\<exists>n\<in>set ns. \<exists>k. nodelinks s n = Some k \<and> nodelink_has_addr a k)"
  by (induction ns) auto

lemma good_nodelinks: "good s \<Longrightarrow> set (nodelink_list s) \<subseteq> dom (nodelinks s)"
  by (simp add: good_def node_inv_def heap_list_def)

lemma good_closed_socks: "good s \<Longrightarrow> good (s\<lparr>closed_socks := cl\<rparr>)"
  by (rule good_same) (auto simp: same_def same_core_def same_tree_def mem_ok_def)

section \<open>Every step is safe\<close>

lemma thread_entry:
  assumes "join_inv s" "t \<in> set (threads s)"
  obtains w where "nodewaits s (owner t) = Some w" "w_state w = works_in t"
  using assms unfolding join_inv_def waits_inv_def by blast

lemma join_inv_thread_done:
  assumes inv: "join_inv s" and t: "t \<in> set (threads s)" and n: "good n"
  shows "join_inv (thread_done t (s\<lparr>jnode := n, nodewaits := (nodewaits s)(owner t \<mapsto> w)\<rparr>))"
proof -
  from thread_entry [OF inv t] obtain w0 where w0: "nodewaits s (owner t) = Some w0" by blast
  have w: "waits_inv (jnext s) (nodewaits s) (nodewait_list s) (threads s)" using inv by (simp add: join_inv_def)
  then have d: "distinct (threads s)" by (simp add: waits_inv_def)
  have "waits_inv (jnext s) ((nodewaits s)(owner t \<mapsto> w)) (nodewait_list s) (remove1 t (threads s))"
    using waits_inv_only [OF w t] d by (intro waits_inv_update [OF w w0]) auto
  then show ?thesis using n by (simp add: join_inv_def thread_done_def)
qed

lemma resolve_thread_safe:
  assumes inv: "join_inv s" and t: "ResolveThread p \<in> set (threads s)"
  obtains w s' where "nodewait_resolve_thread g p s = Some s'" "s' = s\<lparr>nodewaits := (nodewaits s)(p \<mapsto> w)\<rparr>"
    "w_state w \<in> {PICA_NODEWAIT_RESOLVED, PICA_NODEWAIT_RESOLVING_FAILED}" "join_inv (thread_done (ResolveThread p) s')"
proof -
  from thread_entry [OF inv t] obtain w where w: "nodewaits s p = Some w" by auto
  obtain ret ai where g: "g (a_addr (w_addr w)) (a_port (w_addr w)) = (ret, ai)" by fastforce
  let ?w = "w\<lparr>w_ai_errorcode := ret, w_ai := (if ret = 0 then ai else []),
     w_state := (if ret \<noteq> 0 then PICA_NODEWAIT_RESOLVING_FAILED else PICA_NODEWAIT_RESOLVED)\<rparr>"
  have "good (jnode s)" using inv by (simp add: join_inv_def)
  from join_inv_thread_done [OF inv t this, of ?w]
  show thesis using w g by (intro that [of "s\<lparr>nodewaits := (nodewaits s)(p \<mapsto> ?w)\<rparr>" ?w])
      (simp_all add: nodewait_resolve_thread_def upd_wait_def)
qed

lemma connect_thread_safe:
  assumes inv: "join_inv s" and t: "ConnectThread p \<in> set (threads s)" and w0: "nodewaits s p = Some w0"
  obtains w cl s' where "nodewait_connect_thread att p s = Some s'"
    "s' = s\<lparr>jnode := (jnode s)\<lparr>closed_socks := closed_socks (jnode s) @ cl\<rparr>, nodewaits := (nodewaits s)(p \<mapsto> w)\<rparr>"
    "w_state w = PICA_NODEWAIT_CONNECTING \<longleftrightarrow> (\<exists>nc cl. connect_loop att (w_ai w0) (w_nc w0) [] = (nc, cl, ReturnsEarly))"
    "w_state w \<in> {PICA_NODEWAIT_CONNECTING, PICA_NODEWAIT_CONNECTED, PICA_NODEWAIT_CONNECT_FAILED}"
    "join_inv (thread_done (ConnectThread p) s')"
proof -
  have st: "w_state w0 = PICA_NODEWAIT_CONNECTING" using thread_entry [OF inv t] w0 by fastforce
  obtain nc cl r where l: "connect_loop att (w_ai w0) (w_nc w0) [] = (nc, cl, r)" by (metis prod_cases3)
  let ?w = "case r of ReturnsEarly \<Rightarrow> w0\<lparr>w_nc := nc\<rparr>
     | NoAddressLeft \<Rightarrow> w0\<lparr>w_nc := nc, w_state := PICA_NODEWAIT_CONNECT_FAILED\<rparr>
     | ConnectedTo ap \<Rightarrow> w0\<lparr>w_nc := nc\<lparr>n_addr := fst ap, n_port := snd ap\<rparr>, w_state := PICA_NODEWAIT_CONNECTED\<rparr>"
  let ?n = "(jnode s)\<lparr>closed_socks := closed_socks (jnode s) @ cl\<rparr>"
  have "good ?n" using inv by (simp add: join_inv_def good_closed_socks)
  from join_inv_thread_done [OF inv t this, of ?w]
  show thesis using w0 l st by (intro that [where s' = "s\<lparr>jnode := ?n, nodewaits := (nodewaits s)(p \<mapsto> ?w)\<rparr>" and cl = cl and w = ?w])
      (auto simp: nodewait_connect_thread_def upd_wait_def split: connect_end.splits)
qed

text \<open>What the main loop does with an entry whose thread has ended: it deletes it, or starts
  the second thread.\<close>

definition settled :: "nodewait \<Rightarrow> bool" where
  "settled w \<longleftrightarrow> w_state w \<in> {PICA_NODEWAIT_RESOLVED, PICA_NODEWAIT_CONNECTED,
     PICA_NODEWAIT_RESOLVING_FAILED, PICA_NODEWAIT_CONNECT_FAILED}"

definition entry_gone :: "nat \<Rightarrow> join \<Rightarrow> join \<Rightarrow> bool" where
  "entry_gone p s s' \<longleftrightarrow> nodewait_list s' = remove1 p (nodewait_list s)
     \<and> nodewaits s' = (nodewaits s)(p := None) \<and> threads s' = threads s"

definition entry_connects :: "nat \<Rightarrow> nodewait \<Rightarrow> join \<Rightarrow> join \<Rightarrow> bool" where
  "entry_connects p w s s' \<longleftrightarrow> w_state w = PICA_NODEWAIT_RESOLVED \<and> nodewait_list s' = nodewait_list s
     \<and> nodewaits s' = (nodewaits s)(p \<mapsto> w\<lparr>w_state := PICA_NODEWAIT_CONNECTING\<rparr>)
     \<and> threads s' = (if thread_ok s (n_thread s) then ConnectThread p # threads s else threads s)"

lemma update_db_simps [simp]:
  "jnode (update_db a b s) = jnode s" "nodewaits (update_db a b s) = nodewaits s"
  "nodewait_list (update_db a b s) = nodewait_list s" "threads (update_db a b s) = threads s"
  "jnext (update_db a b s) = jnext s" "thread_ok (update_db a b s) = thread_ok s"
  by (simp_all add: update_db_def)

lemma join_inv_gone:
  assumes inv: "join_inv s" and p: "nodewaits s p = Some w" "settled w"
    and s': "entry_gone p s s'" "jnext s' = jnext s" "good (jnode s')"
  shows "join_inv s'"
proof -
  have w: "waits_inv (jnext s) (nodewaits s) (nodewait_list s) (threads s)" using inv by (simp add: join_inv_def)
  have "owner t \<noteq> p" if "t \<in> set (threads s)" for t
    using waits_inv_idle [OF w p(1) _ _ that] p(2) by (auto simp: settled_def)
  from waits_inv_delete [OF w this] show ?thesis using s' by (simp add: join_inv_def entry_gone_def)
qed

lemma delete_gone:
  "join_inv s \<Longrightarrow> nodewaits s p = Some w \<Longrightarrow> entry_gone p s (nodewait_list_delete p s)"
  by (auto simp: entry_gone_def nodewait_list_delete_def join_inv_def waits_inv_def heap_list_def)

lemma failed_safe:
  fixes b :: bool
  assumes inv: "join_inv s" and p: "nodewaits s p = Some w" "settled w"
  defines "s' \<equiv> nodewait_list_delete p (update_db (w_addr w) b s)"
  shows "entry_gone p s s'" "join_inv s'" "thread_ok s' = thread_ok s"
proof -
  show gone: "entry_gone p s s'" "thread_ok s' = thread_ok s"
    using delete_gone [OF inv p(1)] by (auto simp: s'_def entry_gone_def nodewait_list_delete_def)
  show "join_inv s'" using inv
    by (intro join_inv_gone [OF inv p gone(1)]) (simp_all add: s'_def nodewait_list_delete_def join_inv_def)
qed

lemma connected_safe:
  assumes inv: "join_inv s" and p: "nodewaits s p = Some w" "w_state w = PICA_NODEWAIT_CONNECTED"
  obtains s' where "nodewait_connected p s = Some s'" "entry_gone p s s'" "join_inv s'" "thread_ok s' = thread_ok s"
proof -
  have g: "good (jnode s)" using inv by (simp add: join_inv_def)
  then obtain n k where n: "nodelink_list_addnew (w_nc w) (jnode s) = (Some (next_ptr (jnode s)), (w_nc w)\<lparr>n_anonssl := False\<rparr>, n)"
    "good n" "nodelinks n = (nodelinks (jnode s))(next_ptr (jnode s) \<mapsto> k)"
    by (rule nodelink_list_addnew_good)
  have "nodelinks n (next_ptr (jnode s)) = Some k" using n(3) by simp
  then obtain ok n' where n': "nodelink_send (next_ptr (jnode s)) PICA_PROTO_NODECONNREQ PICA_PROTO_NODECONNREQ_SIZE
       [PICA_PROTO_VER_HIGH, PICA_PROTO_VER_LOW] n = Some (ok, n')" "same n n'"
    by (rule nodelink_send_same)
  have l: "p \<in> set (nodewait_list s)" using inv p(1) by (auto simp: join_inv_def waits_inv_def heap_list_def)
  let ?s = "nodewait_list_delete p (update_db (w_addr w) True (s\<lparr>
     nodewaits := (nodewaits s)(p \<mapsto> w\<lparr>w_nc := (w_nc w)\<lparr>n_anonssl := False\<rparr>\<rparr>), jnode := n'\<rparr>))"
  have "nodewait_connected p s = Some ?s" using p n n' by (simp add: nodewait_connected_def upd_wait_def)
  moreover have gone: "entry_gone p s ?s" "jnext ?s = jnext s" "good (jnode ?s)" "thread_ok ?s = thread_ok s"
    using l good_same [OF n(2) n'(2)] by (simp_all add: entry_gone_def nodewait_list_delete_def)
  ultimately show thesis using join_inv_gone [OF inv p(1) _ gone(1-3)] p(2) that by (simp add: settled_def)
qed

lemma start_connect_safe:
  assumes inv: "join_inv s" and p: "nodewaits s p = Some w" "w_state w = PICA_NODEWAIT_RESOLVED"
  obtains s' where "nodewait_start_connect p s = Some s'" "entry_connects p w s s'" "join_inv s'" "thread_ok s' = thread_ok s"
proof -
  let ?s = "start_thread (ConnectThread p) (s\<lparr>nodewaits := (nodewaits s)(p \<mapsto> w\<lparr>w_state := PICA_NODEWAIT_CONNECTING\<rparr>)\<rparr>)"
  have w: "waits_inv (jnext s) (nodewaits s) (nodewait_list s) (threads s)" using inv by (simp add: join_inv_def)
  have i: "owner t \<noteq> p" if "t \<in> set (threads s)" for t
    using waits_inv_idle [OF w p(1) _ _ that] p(2) by simp
  then have "ConnectThread p \<notin> set (threads s)" by force
  then have "waits_inv (jnext s) ((nodewaits s)(p \<mapsto> w\<lparr>w_state := PICA_NODEWAIT_CONNECTING\<rparr>)) (nodewait_list s) (threads ?s)"
    using w i by (intro waits_inv_update [OF w p(1)]) (auto simp: start_thread_def waits_inv_def split: if_splits)
  then have "join_inv ?s" using inv by (simp add: join_inv_def start_thread_def)
  then show thesis using p by (intro that [of ?s])
      (simp_all add: nodewait_start_connect_def upd_wait_def entry_connects_def start_thread_def)
qed

lemma process_one_safe:
  assumes inv: "join_inv s" and p: "nodewaits s p = Some w"
  obtains s' where "process_nodewait_one p s = Some s'" "join_inv s'" "thread_ok s' = thread_ok s"
    "if settled w then entry_gone p s s' \<or> entry_connects p w s s' else s' = s"
proof (cases "w_state w")
  case PICA_NODEWAIT_RESOLVED
  have "good (jnode s)" using inv by (simp add: join_inv_def)
  then obtain skip where k: "nodelink_known (jnode s) (w_ai w) (nodelink_list (jnode s)) = Some skip"
    using nodelink_known_total [OF good_nodelinks] by blast
  have st: "settled w" using PICA_NODEWAIT_RESOLVED by (simp add: settled_def)
  show thesis
  proof (cases skip)
    case True
    have gone: "entry_gone p s (nodewait_list_delete p s)" by (rule delete_gone [OF inv p])
    have "join_inv (nodewait_list_delete p s)" using inv
      by (intro join_inv_gone [OF inv p st gone]) (simp_all add: nodewait_list_delete_def join_inv_def)
    then show thesis using gone PICA_NODEWAIT_RESOLVED p k True st
      by (intro that [of "nodewait_list_delete p s"]) (simp_all add: process_nodewait_one_def nodewait_list_delete_def)
  next
    case False
    from start_connect_safe [OF inv p PICA_NODEWAIT_RESOLVED] show thesis
      using PICA_NODEWAIT_RESOLVED p k False st that by (fastforce simp: process_nodewait_one_def)
  qed
next
  case PICA_NODEWAIT_CONNECTED
  from connected_safe [OF inv p this] show thesis
    using PICA_NODEWAIT_CONNECTED p that by (fastforce simp: process_nodewait_one_def settled_def)
next
  case PICA_NODEWAIT_RESOLVING_FAILED
  then have "settled w" by (simp add: settled_def)
  from failed_safe [OF inv p this] show thesis
    using PICA_NODEWAIT_RESOLVING_FAILED p \<open>settled w\<close> that by (simp add: process_nodewait_one_def)
next
  case PICA_NODEWAIT_CONNECT_FAILED
  then have "settled w" by (simp add: settled_def)
  from failed_safe [OF inv p this] show thesis
    using PICA_NODEWAIT_CONNECT_FAILED p \<open>settled w\<close> that by (simp add: process_nodewait_one_def)
qed (use assms that in \<open>simp_all add: process_nodewait_one_def settled_def\<close>)

lemma start_resolve_safe:
  assumes inv: "join_inv s"
  obtains s' where "nodewait_start_resolve a s = Some s'" "join_inv s'"
    "nodewait_list s' = jnext s # nodewait_list s"
    "nodewaits s' = (nodewaits s)(jnext s \<mapsto> \<lparr>w_nc = empty_newconn\<lparr>n_sck := 0\<rparr>, w_state = PICA_NODEWAIT_RESOLVING,
       w_addr = a, w_ai = [], w_ai_errorcode = 0\<rparr>)"
    "threads s' = (if thread_ok s (n_thread s) then ResolveThread (jnext s) # threads s else threads s)"
    "thread_ok s' = thread_ok s" "announced s' = announced s" "inet_addr s' = inet_addr s"
    "\<exists>e. jnode s' = (jnode s)\<lparr>nenv := e\<rparr>" "jnext s' = Suc (jnext s)"
proof -
  let ?p = "jnext s"
  let ?w = "\<lparr>w_nc = empty_newconn\<lparr>n_sck := 0\<rparr>, w_state = PICA_NODEWAIT_RESOLVING, w_addr = a, w_ai = [], w_ai_errorcode = 0\<rparr>"
  let ?e = "(nenv (jnode s))\<lparr>n_alloc := Suc (n_alloc (nenv (jnode s)))\<rparr>"
  let ?s = "start_thread (ResolveThread ?p) (s\<lparr>jnode := (jnode s)\<lparr>nenv := ?e\<rparr>, jnext := Suc ?p,
     nodewaits := (nodewaits s)(?p \<mapsto> ?w), nodewait_list := ?p # nodewait_list s\<rparr>)"
  have g: "good (jnode s)" and w: "waits_inv ?p (nodewaits s) (nodewait_list s) (threads s)"
    using inv by (simp_all add: join_inv_def)
  have m: "env_alloc (nenv (jnode s)) = (True, ?e)" using g by (intro mem_okD) (simp add: good_def)
  have r: "nodewait_start_resolve a s = Some ?s"
    using m by (simp add: nodewait_start_resolve_def nodewait_list_addnew_def upd_wait_def Let_def start_thread_def)
  have "\<nexists>x. nodewaits s ?p = Some x" using w unfolding waits_inv_def heap_list_def by (metis domI less_irrefl)
  then have "ResolveThread ?p \<notin> set (threads s)" using w by (auto simp: waits_inv_def)
  then have "waits_inv (Suc ?p) ((nodewaits s)(?p \<mapsto> ?w)) (?p # nodewait_list s) (threads ?s)"
    using w by (intro waits_inv_add [OF w, where t = "ResolveThread ?p"]) (auto simp: start_thread_def waits_inv_def)
  moreover have "good ((jnode s)\<lparr>nenv := ?e\<rparr>)" by (rule good_env [OF _ g]) simp
  ultimately have "join_inv ?s" by (simp add: join_inv_def start_thread_def)
  with r show thesis by (intro that [of ?s]) (auto simp: start_thread_def)
qed

lemma join_inv_cong:
  "jnode s' = jnode s \<Longrightarrow> nodewaits s' = nodewaits s \<Longrightarrow> nodewait_list s' = nodewait_list s \<Longrightarrow>
     threads s' = threads s \<Longrightarrow> jnext s' = jnext s \<Longrightarrow> join_inv s' = join_inv s"
  by (simp add: join_inv_def)

text \<open>Which addresses the node does not try to reach.\<close>

definition not_wanted :: "join \<Rightarrow> PICA_nodeaddr \<Rightarrow> bool" where
  "not_wanted s a \<longleftrightarrow>
     a_addr a = announced s \<and> a_port a = ntohs (listen_port (jnode s))
     \<or> disable_reserved_addrs (jnode s) \<and> inet_addr s (a_addr a) \<noteq> INADDR_NONE
       \<and> PICA_is_reserved_addr_ipv4 (inet_addr s (a_addr a))
     \<or> (\<exists>n\<in>set (nodelink_list (jnode s)). \<exists>k. nodelinks (jnode s) n = Some k \<and> nodelink_has_addr a k)"

lemma join_skip_total: "good (jnode s) \<Longrightarrow> join_skip s a = Some (not_wanted s a)"
  using join_known_total [OF good_nodelinks] by (auto simp: join_skip_def not_wanted_def)

definition wait_addr :: "join \<Rightarrow> nat \<Rightarrow> PICA_nodeaddr" where
  "wait_addr s p = w_addr (the (nodewaits s p))"

lemma joinskynet_loop_total:
  assumes "join_inv s"
  shows "\<exists>s'. joinskynet_loop l s = Some s' \<and> join_inv s' \<and>
     (\<exists>new. nodewait_list s' = new @ nodewait_list s \<and>
        map (wait_addr s') new = rev (filter (\<lambda>a. \<not> not_wanted s a) l) \<and>
        (\<forall>p\<in>set (nodewait_list s). nodewaits s' p = nodewaits s p) \<and>
        (\<forall>p\<in>set new. \<exists>w. nodewaits s' p = Some w \<and> w_state w = PICA_NODEWAIT_RESOLVING))"
  using assms
proof (induction l arbitrary: s)
  case Nil
  then show ?case by auto
next
  case (Cons a l)
  have g: "good (jnode s)" using Cons.prems by (simp add: join_inv_def)
  show ?case
  proof (cases "not_wanted s a")
    case True
    then show ?thesis using Cons join_skip_total [OF g, of a] by simp
  next
    case False
    obtain s1 where s1: "nodewait_start_resolve a s = Some s1" "join_inv s1" "nodewait_list s1 = jnext s # nodewait_list s"
      "nodewaits s1 = (nodewaits s)(jnext s \<mapsto> \<lparr>w_nc = empty_newconn\<lparr>n_sck := 0\<rparr>, w_state = PICA_NODEWAIT_RESOLVING,
         w_addr = a, w_ai = [], w_ai_errorcode = 0\<rparr>)"
      "announced s1 = announced s" "inet_addr s1 = inet_addr s" "\<exists>e. jnode s1 = (jnode s)\<lparr>nenv := e\<rparr>"
      using start_resolve_safe [OF Cons.prems, of a] by metis
    have nw: "not_wanted s1 b = not_wanted s b" for b using s1(5-7) by (auto simp: not_wanted_def)
    have fresh: "jnext s \<notin> set (nodewait_list s)"
      using Cons.prems by (auto simp: join_inv_def waits_inv_def heap_list_def)
    from Cons.IH [OF s1(2)] obtain s' new where s': "joinskynet_loop l s1 = Some s'" "join_inv s'"
      "nodewait_list s' = new @ nodewait_list s1" "map (wait_addr s') new = rev (filter (\<lambda>a. \<not> not_wanted s a) l)"
      "\<forall>p\<in>set (nodewait_list s1). nodewaits s' p = nodewaits s1 p"
      "\<forall>p\<in>set new. \<exists>w. nodewaits s' p = Some w \<and> w_state w = PICA_NODEWAIT_RESOLVING"
      unfolding nw by blast
    have "nodewaits s' (jnext s) = nodewaits s1 (jnext s)" using s'(5) s1(3) by simp
    then have "wait_addr s' (jnext s) = a"
      "\<exists>w. nodewaits s' (jnext s) = Some w \<and> w_state w = PICA_NODEWAIT_RESOLVING"
      using s1(4) by (simp_all add: wait_addr_def)
    then show ?thesis using s' s1(1,3,4) fresh False join_skip_total [OF g, of a]
      by (intro exI [of _ s'] conjI exI [of _ "new @ [jnext s]"]) auto
  qed
qed

lemma joinskynet_safe:
  assumes inv: "join_inv s" and "PICA_node_joinskynet s = Some s'"
  shows "join_inv s' \<and> (\<exists>new. nodewait_list s' = new @ nodewait_list s \<and>
     (\<forall>p\<in>set (nodewait_list s). nodewaits s' p = nodewaits s p))"
proof -
  obtain l e db where l: "PICA_nodeaddr_list_load (nenv (jnode s)) (jdb s) = Some (l, e, db)"
    and s': "joinskynet_loop l (s\<lparr>skynet_refresh_tmst := now (nenv (jnode s)), jnode := (jnode s)\<lparr>nenv := e\<rparr>, jdb := db\<rparr>) = Some s'"
    using assms(2) by (auto simp: PICA_node_joinskynet_def split: option.splits)
  have "alloc_ok (snd (nodeaddr_load_loop e0 rs l0)) = alloc_ok e0" for e0 rs l0
    by (induction rs arbitrary: e0 l0) (auto simp: env_alloc_def)
  then have "alloc_ok e = alloc_ok (nenv (jnode s))"
    using l by (auto simp: PICA_nodeaddr_list_load_def Let_def split: prod.splits if_splits) (metis snd_conv)+
  then have "good ((jnode s)\<lparr>nenv := e\<rparr>)" using inv by (intro good_env) (simp_all add: join_inv_def)
  then have "join_inv (s\<lparr>skynet_refresh_tmst := now (nenv (jnode s)), jnode := (jnode s)\<lparr>nenv := e\<rparr>, jdb := db\<rparr>)"
    using inv by (simp add: join_inv_def)
  from joinskynet_loop_total [OF this, of l] s' show ?thesis by auto
qed

lemma refresh_safe:
  assumes inv: "join_inv s" and "skynet_refresh s = Some s'"
  shows "join_inv s' \<and> (\<exists>new. nodewait_list s' = new @ nodewait_list s \<and>
     (\<forall>p\<in>set (nodewait_list s). nodewaits s' p = nodewaits s p))"
proof (cases "now (nenv (jnode s)) - skynet_refresh_tmst s > SKYNET_REFRESH_TIMEOUT \<and> nodewait_list s = []")
  case True
  let ?s = "if nodelink_list_count (jnode s) > 0
    then s\<lparr>jdb := snd (PICA_nodeaddr_cleanold (clean_treshold (jnode s)) (jdb s))\<rparr> else s"
  have "PICA_node_joinskynet ?s = Some s'" using assms(2) unfolding skynet_refresh_def if_P [OF True] .
  moreover have "join_inv ?s" using inv by (simp add: join_inv_def)
  ultimately show ?thesis using joinskynet_safe [of ?s s'] True by auto
next
  case False
  then show ?thesis using assms by (auto simp: skynet_refresh_def)
qed

lemma join_step_inv:
  assumes "join_step s s'" "join_inv s"
  shows "join_inv s'"
  using assms
proof (induction rule: join_step.induct)
  case (step_resolve p s g s')
  then show ?case using resolve_thread_safe [of s p g] by (metis option.inject)
next
  case (step_connect p s att s')
  obtain w0 where "nodewaits s p = Some w0" using thread_entry step_connect by (metis owner.simps(2))
  then show ?case using connect_thread_safe [of s p w0 att] step_connect by (metis option.inject)
next
  case (step_wait p s s')
  obtain w where "nodewaits s p = Some w" using step_wait by (auto simp: join_inv_def waits_inv_def heap_list_def)
  then show ?case using process_one_safe [of s p w] step_wait by (metis option.inject)
next
  case (step_refresh s s')
  then show ?case using refresh_safe by blast
qed (simp_all add: join_inv_def)

lemma join_steps_inv: "join_step\<^sup>*\<^sup>* s s' \<Longrightarrow> join_inv s \<Longrightarrow> join_inv s'"
  by (induction rule: rtranclp_induct) (auto intro: join_step_inv)

lemma process_loop_safe:
  assumes "join_inv s" "distinct ps" "set ps \<subseteq> set (nodewait_list s)"
  shows "\<exists>s'. process_nodewait_loop ps s = Some s' \<and> join_step\<^sup>*\<^sup>* s s'"
  using assms
proof (induction ps arbitrary: s)
  case (Cons p ps)
  obtain w where w: "nodewaits s p = Some w" using Cons.prems by (auto simp: join_inv_def waits_inv_def heap_list_def)
  obtain s1 where s1: "process_nodewait_one p s = Some s1" "join_inv s1"
    "if settled w then entry_gone p s s1 \<or> entry_connects p w s s1 else s1 = s"
    using process_one_safe [OF Cons.prems(1) w] by metis
  have "x \<in> set (nodewait_list s1)" if "x \<in> set ps" for x
  proof -
    have "x \<noteq> p" "x \<in> set (nodewait_list s)" using that Cons.prems(2,3) by auto
    then show ?thesis using s1(3) by (auto simp: entry_gone_def entry_connects_def in_set_remove1 split: if_splits)
  qed
  then have "set ps \<subseteq> set (nodewait_list s1)" by blast
  with Cons.IH [OF s1(2)] Cons.prems(2) obtain s' where "process_nodewait_loop ps s1 = Some s'" "join_step\<^sup>*\<^sup>* s1 s'" by auto
  moreover have "join_step s s1" using Cons.prems(3) s1(1) by (intro step_wait [of p]) auto
  ultimately show ?case using s1(1) by (auto intro: converse_rtranclp_into_rtranclp)
qed simp

section \<open>A thread that gives up\<close>

definition lost :: "nat \<Rightarrow> join \<Rightarrow> bool" where
  "lost p s \<longleftrightarrow> p \<in> set (nodewait_list s) \<and> (\<exists>w. nodewaits s p = Some w \<and> \<not> settled w)
     \<and> (\<forall>t\<in>set (threads s). owner t \<noteq> p)"

lemma refresh_blocked: "p \<in> set (nodewait_list s) \<Longrightarrow> skynet_refresh s = Some s"
  by (cases "nodewait_list s") (simp_all add: skynet_refresh_def)

lemma lost_step:
  assumes "join_step s s'" "join_inv s" "lost p s"
  shows "lost p s'"
  using assms
proof (induction rule: join_step.induct)
  case (step_resolve q s g s')
  then have "q \<noteq> p" by (fastforce simp: lost_def)
  from resolve_thread_safe [OF step_resolve.prems(1) step_resolve.hyps(1), of g] obtain w where
    "s' = s\<lparr>nodewaits := (nodewaits s)(q \<mapsto> w)\<rparr>"
    using step_resolve.hyps(2) by (metis option.inject)
  with \<open>q \<noteq> p\<close> step_resolve.prems(2) show ?case by (auto simp: lost_def thread_done_def dest: notin_set_remove1)
next
  case (step_connect q s att s')
  then have "q \<noteq> p" by (fastforce simp: lost_def)
  obtain w0 where "nodewaits s q = Some w0" using thread_entry step_connect by (metis owner.simps(2))
  from connect_thread_safe [OF step_connect.prems(1) step_connect.hyps(1) this, of att] obtain w cl where
    "s' = s\<lparr>jnode := (jnode s)\<lparr>closed_socks := closed_socks (jnode s) @ cl\<rparr>, nodewaits := (nodewaits s)(q \<mapsto> w)\<rparr>"
    using step_connect.hyps(2) by (metis option.inject)
  with \<open>q \<noteq> p\<close> step_connect.prems(2) show ?case by (auto simp: lost_def thread_done_def dest: notin_set_remove1)
next
  case (step_wait q s s')
  obtain w where w: "nodewaits s q = Some w" using step_wait by (auto simp: join_inv_def waits_inv_def heap_list_def)
  from process_one_safe [OF step_wait.prems(1) w] step_wait.hyps(2)
  have "if settled w then entry_gone q s s' \<or> entry_connects q w s s' else s' = s" by (metis option.inject)
  with w step_wait.prems(2) show ?case
    by (cases "q = p") (auto simp: lost_def entry_gone_def entry_connects_def in_set_remove1 split: if_splits)
next
  case (step_refresh s s')
  then have "s' = s" using refresh_blocked [of p s] by (auto simp: lost_def)
  with step_refresh show ?case by simp
qed (simp_all add: lost_def)

lemma lost_steps: "join_step\<^sup>*\<^sup>* s s' \<Longrightarrow> join_inv s \<Longrightarrow> lost p s \<Longrightarrow> lost p s'"
  by (induction rule: rtranclp_induct) (auto intro: lost_step join_steps_inv)

lemma gives_up_lost:
  assumes inv: "join_inv s" and t: "ConnectThread p \<in> set (threads s)" and w: "nodewaits s p = Some w"
    and e: "connect_loop att (w_ai w) (w_nc w) [] = (nc, cl, ReturnsEarly)"
    and s1: "nodewait_connect_thread att p s = Some s1"
  shows "join_inv (thread_done (ConnectThread p) s1) \<and> lost p (thread_done (ConnectThread p) s1)"
proof -
  from connect_thread_safe [OF inv t w, of att] s1 obtain w' cl' where
    s1': "s1 = s\<lparr>jnode := (jnode s)\<lparr>closed_socks := closed_socks (jnode s) @ cl'\<rparr>, nodewaits := (nodewaits s)(p \<mapsto> w')\<rparr>"
    "w_state w' = PICA_NODEWAIT_CONNECTING" "join_inv (thread_done (ConnectThread p) s1)"
    using e by (metis option.inject)
  have wi: "waits_inv (jnext s) (nodewaits s) (nodewait_list s) (threads s)" using inv by (simp add: join_inv_def)
  then have "owner u \<noteq> p" if "u \<in> set (remove1 (ConnectThread p) (threads s))" for u
    using waits_inv_only [OF wi t, of u] that by (auto simp: waits_inv_def)
  moreover have "p \<in> set (nodewait_list s)" using wi w by (auto simp: waits_inv_def heap_list_def)
  ultimately show ?thesis using s1' by (auto simp: lost_def thread_done_def settled_def)
qed

section \<open>Attempts come to an end\<close>

text \<open>Every entry has its thread or waits for the main loop.\<close>

definition lively :: "join \<Rightarrow> bool" where
  "lively s \<longleftrightarrow> join_inv s \<and> thread_ok s = (\<lambda>_. True) \<and>
     (\<forall>p w. nodewaits s p = Some w \<longrightarrow>
        settled w
        \<or> w_state w = PICA_NODEWAIT_RESOLVING \<and> ResolveThread p \<in> set (threads s)
        \<or> w_state w = PICA_NODEWAIT_CONNECTING \<and> ConnectThread p \<in> set (threads s))"

text \<open>A step towards the end: a thread that reports a result, or the main loop at an entry that
  waits for it. The rest of the node may have done anything since the last such step.\<close>

inductive join_progress :: "join \<Rightarrow> join \<Rightarrow> bool" where
  progress_resolve: "good n \<Longrightarrow> t = s\<lparr>jnode := n, jdb := db\<rparr> \<Longrightarrow> ResolveThread p \<in> set (threads t) \<Longrightarrow>
     nodewait_resolve_thread g p t = Some s' \<Longrightarrow> join_progress s (thread_done (ResolveThread p) s')"
| progress_connect: "good n \<Longrightarrow> t = s\<lparr>jnode := n, jdb := db\<rparr> \<Longrightarrow> ConnectThread p \<in> set (threads t) \<Longrightarrow>
     nodewaits t p = Some w \<Longrightarrow> snd (snd (connect_loop att (w_ai w) (w_nc w) [])) \<noteq> ReturnsEarly \<Longrightarrow>
     nodewait_connect_thread att p t = Some s' \<Longrightarrow> join_progress s (thread_done (ConnectThread p) s')"
| progress_wait: "good n \<Longrightarrow> t = s\<lparr>jnode := n, jdb := db\<rparr> \<Longrightarrow> nodewaits t p = Some w \<Longrightarrow> settled w \<Longrightarrow>
     process_nodewait_one p t = Some s' \<Longrightarrow> join_progress s s'"

fun weight :: "nodewait_state \<Rightarrow> nat" where
  "weight PICA_NODEWAIT_RESOLVING = 4"
| "weight PICA_NODEWAIT_RESOLVED = 3"
| "weight PICA_NODEWAIT_CONNECTING = 2"
| "weight _ = 1"

definition entry_weight :: "(nat \<rightharpoonup> nodewait) \<Rightarrow> nat \<Rightarrow> nat" where
  "entry_weight h p = (case h p of None \<Rightarrow> 0 | Some w \<Rightarrow> weight (w_state w))"

definition work_left :: "join \<Rightarrow> nat" where
  "work_left s = sum_list (map (entry_weight (nodewaits s)) (nodewait_list s))"

lemma weight_le: "weight st \<le> 4"
  by (cases st) simp_all

lemma work_left_le: "work_left s \<le> 4 * length (nodewait_list s)"
proof -
  have "entry_weight h p \<le> 4" for h p by (simp add: entry_weight_def weight_le split: option.split)
  then have "sum_list (map (entry_weight h) ps) \<le> 4 * length ps" for h ps
    by (induction ps) (simp_all add: add_le_mono)
  then show ?thesis by (simp add: work_left_def)
qed

lemma sum_list_change:
  fixes f g :: "nat \<Rightarrow> nat"
  assumes "distinct ps" "p \<in> set ps" "\<And>q. q \<noteq> p \<Longrightarrow> g q = f q"
  shows "sum_list (map g ps) + f p = sum_list (map f ps) + g p"
  using assms(1,2)
proof (induction ps)
  case (Cons q ps)
  have "sum_list (map g ps) = sum_list (map f ps)" if "p \<notin> set ps"
    by (rule arg_cong [where f = sum_list], rule map_cong) (use that assms(3) in \<open>simp, metis\<close>)
  with Cons show ?case by (cases "q = p") (auto simp: assms(3))
qed simp

lemma work_left_update:
  assumes inv: "join_inv s" and p: "nodewaits s p = Some w0" and s': "nodewaits s' = (nodewaits s)(p \<mapsto> w)"
    "nodewait_list s' = nodewait_list s" and lt: "weight (w_state w) < weight (w_state w0)"
  shows "work_left s' < work_left s"
proof -
  have l: "distinct (nodewait_list s)" "p \<in> set (nodewait_list s)"
    using inv p by (auto simp: join_inv_def waits_inv_def heap_list_def)
  have "work_left s' + entry_weight (nodewaits s) p = work_left s + entry_weight (nodewaits s') p"
    unfolding work_left_def s'(2) by (rule sum_list_change [OF l]) (simp add: s'(1) entry_weight_def)
  then show ?thesis using p s'(1) lt by (simp add: entry_weight_def)
qed

lemma work_left_gone:
  assumes inv: "join_inv s" and p: "nodewaits s p = Some w" and gone: "entry_gone p s s'"
  shows "work_left s' < work_left s"
proof -
  have l: "distinct (nodewait_list s)" "p \<in> set (nodewait_list s)"
    using inv p by (auto simp: join_inv_def waits_inv_def heap_list_def)
  have "map (entry_weight (nodewaits s')) (remove1 p (nodewait_list s)) = map (entry_weight (nodewaits s)) (remove1 p (nodewait_list s))"
    using l gone by (auto simp: entry_gone_def entry_weight_def)
  then have "work_left s' = sum_list (map (entry_weight (nodewaits s)) (remove1 p (nodewait_list s)))"
    unfolding work_left_def using gone by (simp only: entry_gone_def)
  moreover have "work_left s = entry_weight (nodewaits s) p + \<dots>"
    unfolding work_left_def using l(2) by (simp add: sum_list_map_remove1)
  moreover have "0 < weight (w_state w)" by (cases "w_state w") simp_all
  ultimately show ?thesis using p by (simp add: entry_weight_def)
qed

lemma remove1_keeps: "t \<in> set ts \<Longrightarrow> owner t \<noteq> owner u \<Longrightarrow> t \<in> set (remove1 u ts)"
  by (metis in_set_remove1)

lemma lively_update:
  assumes "lively s" "nodewaits s p = Some w0" "join_inv s'" "thread_ok s' = thread_ok s"
    "nodewaits s' = (nodewaits s)(p \<mapsto> w)"
    "\<And>t. t \<in> set (threads s) \<Longrightarrow> owner t \<noteq> p \<Longrightarrow> t \<in> set (threads s')"
    "settled w \<or> w_state w = PICA_NODEWAIT_CONNECTING \<and> ConnectThread p \<in> set (threads s')"
  shows "lively s'"
  unfolding lively_def
proof (intro conjI allI impI)
  fix q v assume v: "nodewaits s' q = Some v"
  show "settled v \<or> w_state v = PICA_NODEWAIT_RESOLVING \<and> ResolveThread q \<in> set (threads s')
    \<or> w_state v = PICA_NODEWAIT_CONNECTING \<and> ConnectThread q \<in> set (threads s')"
  proof (cases "q = p")
    case True
    then show ?thesis using v assms(5,7) by auto
  next
    case False
    then have "nodewaits s q = Some v" using v assms(5) by simp
    then show ?thesis using assms(1) assms(6) [of "ResolveThread q"] assms(6) [of "ConnectThread q"] False
      unfolding lively_def by (metis owner.simps)
  qed
qed (use assms in \<open>simp_all add: lively_def\<close>)

lemma lively_gone: "lively s \<Longrightarrow> join_inv s' \<Longrightarrow> thread_ok s' = thread_ok s \<Longrightarrow> entry_gone p s s' \<Longrightarrow> lively s'"
  unfolding lively_def entry_gone_def by (metis fun_upd_apply option.distinct(1))

lemma lively_cong: "lively s \<Longrightarrow> good n \<Longrightarrow> lively (s\<lparr>jnode := n, jdb := db\<rparr>)"
  by (simp add: lively_def join_inv_def)

lemma progress_step:
  assumes "join_progress s s'" "lively s"
  shows "lively s' \<and> work_left s' < work_left s"
  using assms
proof (induction rule: join_progress.induct)
  case (progress_resolve n t db s p g s')
  then have t: "lively t" "join_inv t" "work_left t = work_left s"
    using lively_cong by (auto simp: lively_def work_left_def)
  obtain w0 where w0: "nodewaits t p = Some w0" "w_state w0 = PICA_NODEWAIT_RESOLVING"
    using thread_entry [OF t(2) progress_resolve.hyps(3)] by auto
  obtain w where w: "s' = t\<lparr>nodewaits := (nodewaits t)(p \<mapsto> w)\<rparr>" "join_inv (thread_done (ResolveThread p) s')"
    "w_state w \<in> {PICA_NODEWAIT_RESOLVED, PICA_NODEWAIT_RESOLVING_FAILED}"
    using resolve_thread_safe [OF t(2) progress_resolve.hyps(3), of g] progress_resolve.hyps(4) by (metis option.inject)
  let ?s = "thread_done (ResolveThread p) s'"
  have "lively ?s" using w(1,3)
    by (intro lively_update [OF t(1) w0(1) w(2)]) (auto simp: thread_done_def settled_def remove1_keeps)
  moreover have "work_left ?s < work_left t"
    using w w0 by (intro work_left_update [OF t(2) w0(1), where w = w]) (auto simp: thread_done_def)
  ultimately show ?case using t(3) by simp
next
  case (progress_connect n t db s p w0 att s')
  then have t: "lively t" "join_inv t" "work_left t = work_left s"
    using lively_cong by (auto simp: lively_def work_left_def)
  note w0 = progress_connect.hyps(4)
  have st: "w_state w0 = PICA_NODEWAIT_CONNECTING" using thread_entry [OF t(2) progress_connect.hyps(3)] w0 by force
  obtain w cl where w: "s' = t\<lparr>jnode := (jnode t)\<lparr>closed_socks := closed_socks (jnode t) @ cl\<rparr>, nodewaits := (nodewaits t)(p \<mapsto> w)\<rparr>"
    "join_inv (thread_done (ConnectThread p) s')" "w_state w \<in> {PICA_NODEWAIT_CONNECTED, PICA_NODEWAIT_CONNECT_FAILED}"
    using connect_thread_safe [OF t(2) progress_connect.hyps(3) w0, of att] progress_connect.hyps(5,6)
    by (metis insertE option.inject snd_conv)
  let ?s = "thread_done (ConnectThread p) s'"
  have "lively ?s" using w(1,3)
    by (intro lively_update [OF t(1) w0(1) w(2)]) (auto simp: thread_done_def settled_def remove1_keeps)
  moreover have "work_left ?s < work_left t"
    using w st by (intro work_left_update [OF t(2) w0(1), where w = w]) (auto simp: thread_done_def)
  ultimately show ?case using t(3) by simp
next
  case (progress_wait n t db s p w s')
  then have t: "lively t" "join_inv t" "work_left t = work_left s"
    using lively_cong by (auto simp: lively_def work_left_def)
  obtain s1 where s1: "s1 = s'" "join_inv s1" "thread_ok s1 = thread_ok t" "entry_gone p t s1 \<or> entry_connects p w t s1"
    using process_one_safe [OF t(2) progress_wait.hyps(3)] progress_wait.hyps(4,5) by (metis option.inject)
  show ?case
  proof (cases "entry_gone p t s'")
    case True
    then show ?thesis using lively_gone [OF t(1)] work_left_gone [OF t(2) progress_wait.hyps(3)] s1 t(3) by simp
  next
    case False
    then have c: "entry_connects p w t s'" using s1 by simp
    have k: "thread_ok t = (\<lambda>_. True)" using t(1) by (simp add: lively_def)
    have "lively s'" using c s1 k
      by (intro lively_update [OF t(1) progress_wait.hyps(3), where w = "w\<lparr>w_state := PICA_NODEWAIT_CONNECTING\<rparr>"])
        (auto simp: entry_connects_def)
    moreover have "work_left s' < work_left t" using c
      by (intro work_left_update [OF t(2) progress_wait.hyps(3), where w = "w\<lparr>w_state := PICA_NODEWAIT_CONNECTING\<rparr>"])
        (auto simp: entry_connects_def)
    ultimately show ?thesis using t(3) by simp
  qed
qed

section \<open>Properties\<close>

text \<open>A node that has just started.\<close>

definition starting :: "join \<Rightarrow> bool" where
  "starting s \<longleftrightarrow> good (jnode s) \<and> nodewait_list s = [] \<and> nodewaits s = Map.empty \<and> threads s = []"

lemma starting_inv: "starting s \<Longrightarrow> join_inv s"
  by (simp add: starting_def join_inv_def waits_inv_def heap_list_def)


text \<open>C33. A thread that finds no memory for a TLS session returns without a word: its entry
  stays in the list for ever, and since the node looks for other nodes only while the list is
  empty, it never does so again.\<close>

theorem lost_thread_ends_refresh:
  assumes "starting s0" "join_step\<^sup>*\<^sup>* s0 s"
    and "ConnectThread p \<in> set (threads s)" "nodewaits s p = Some w"
    and "connect_loop att (w_ai w) (w_nc w) [] = (nc, cl, ReturnsEarly)"
    and "nodewait_connect_thread att p s = Some s1" "join_step\<^sup>*\<^sup>* (thread_done (ConnectThread p) s1) s'"
  shows "p \<in> set (nodewait_list s') \<and> skynet_refresh s' = Some s'"
proof -
  have "join_inv s" by (rule join_steps_inv [OF assms(2) starting_inv [OF assms(1)]])
  from gives_up_lost [OF this assms(3-6)] have "lost p s'" using lost_steps [OF assms(7)] by blast
  then show ?thesis using refresh_blocked [of p s'] by (auto simp: lost_def)
qed

lemma progress_enabled:
  assumes "lively s" "nodewait_list s \<noteq> []"
  shows "\<exists>s'. join_progress s s'"
proof -
  have inv: "join_inv s" using assms(1) by (simp add: lively_def)
  then have g: "good (jnode s)" by (simp add: join_inv_def)
  have same: "s = s\<lparr>jnode := jnode s, jdb := jdb s\<rparr>" by simp
  have "hd (nodewait_list s) \<in> dom (nodewaits s)"
    using hd_in_set [OF assms(2)] inv by (simp add: join_inv_def waits_inv_def heap_list_def)
  then obtain p w where p: "nodewaits s p = Some w" by blast
  then consider "settled w" | "ResolveThread p \<in> set (threads s)" | "ConnectThread p \<in> set (threads s)"
    using assms(1) unfolding lively_def by blast
  then show ?thesis
  proof cases
    case 1
    then show ?thesis using process_one_safe [OF inv p] progress_wait [OF g same p] by metis
  next
    case 2
    then show ?thesis using resolve_thread_safe [OF inv 2] progress_resolve [OF g same 2] by metis
  next
    case 3
    have "snd (snd (connect_loop (\<lambda>_. NoSocket) ai nc cl)) \<noteq> ReturnsEarly" for ai nc cl
      by (induction ai arbitrary: nc) simp_all
    then show ?thesis using connect_thread_safe [OF inv 3 p, of "\<lambda>_. NoSocket"] progress_connect [OF g same 3 p] by metis
  qed
qed

lemma progress_runs:
  "(join_progress ^^ n) s s' \<Longrightarrow> lively s \<Longrightarrow> lively s' \<and> work_left s' + n \<le> work_left s"
proof (induction n arbitrary: s')
  case (Suc n)
  then obtain t where "(join_progress ^^ n) s t" "join_progress t s'" by auto
  with Suc progress_step show ?case by fastforce
qed auto

lemma lively_loop:
  assumes "lively s" "joinskynet_loop l s = Some s'"
  shows "lively s'"
  using assms
proof (induction l arbitrary: s)
  case (Cons a l)
  have inv: "join_inv s" using Cons.prems(1) by (simp add: lively_def)
  then have g: "good (jnode s)" by (simp add: join_inv_def)
  show ?case
  proof (cases "not_wanted s a")
    case False
    from start_resolve_safe [OF inv, of a] obtain s1 where s1: "nodewait_start_resolve a s = Some s1" "join_inv s1"
      "nodewaits s1 = (nodewaits s)(jnext s \<mapsto> \<lparr>w_nc = empty_newconn\<lparr>n_sck := 0\<rparr>, w_state = PICA_NODEWAIT_RESOLVING,
         w_addr = a, w_ai = [], w_ai_errorcode = 0\<rparr>)"
      "threads s1 = (if thread_ok s (n_thread s) then ResolveThread (jnext s) # threads s else threads s)"
      "thread_ok s1 = thread_ok s" by metis
    have "lively s1" using Cons.prems(1) s1 by (auto simp: lively_def)
    then show ?thesis using Cons False s1(1) join_skip_total [OF g, of a] by simp
  qed (use Cons join_skip_total [OF g, of a] in simp)
qed simp

lemma joinskynet_lively:
  assumes "starting s" "thread_ok s = (\<lambda>_. True)" "sq_fine (jdb s)"
  obtains s1 where "PICA_node_joinskynet s = Some s1" "lively s1" "map (wait_addr s1) (nodewait_list s1)
       = filter (\<lambda>a. \<not> not_wanted s a) (map nodeaddr_of_row (select_nodes (jdb s) (rows (jdb s))))"
    "\<forall>p\<in>set (nodewait_list s1). \<exists>w. nodewaits s1 p = Some w \<and> w_state w = PICA_NODEWAIT_RESOLVING"
proof -
  have g: "good (jnode s)" using assms(1) by (simp add: starting_def)
  then have "alloc_ok (nenv (jnode s)) = (\<lambda>_. True)" by (simp add: good_def mem_ok_def)
  from list_load_fine [OF assms(3) this] obtain e db k where
    l: "PICA_nodeaddr_list_load (nenv (jnode s)) (jdb s) = Some (rev (map nodeaddr_of_row (select_nodes (jdb s) (rows (jdb s)))), e, db)"
    and e: "e = (nenv (jnode s))\<lparr>n_alloc := k\<rparr>" by auto
  let ?s = "s\<lparr>skynet_refresh_tmst := now (nenv (jnode s)), jnode := (jnode s)\<lparr>nenv := e\<rparr>, jdb := db\<rparr>"
  have "good ((jnode s)\<lparr>nenv := e\<rparr>)" by (rule good_env [OF _ g]) (simp add: e)
  then have st: "starting ?s" using assms(1) by (simp add: starting_def)
  then have live: "lively ?s" using starting_inv [OF st] assms(2) by (simp add: lively_def starting_def)
  have nw: "not_wanted ?s a = not_wanted s a" for a by (simp add: not_wanted_def)
  have empty: "nodewait_list ?s = []" using st by (simp add: starting_def)
  from joinskynet_loop_total [OF starting_inv [OF st], of "rev (map nodeaddr_of_row (select_nodes (jdb s) (rows (jdb s))))"]
  obtain s1 where s1: "joinskynet_loop (rev (map nodeaddr_of_row (select_nodes (jdb s) (rows (jdb s))))) ?s = Some s1"
    "map (wait_addr s1) (nodewait_list s1)
       = filter (\<lambda>a. \<not> not_wanted s a) (map nodeaddr_of_row (select_nodes (jdb s) (rows (jdb s))))"
    "\<forall>p\<in>set (nodewait_list s1). \<exists>w. nodewaits s1 p = Some w \<and> w_state w = PICA_NODEWAIT_RESOLVING"
    unfolding nw empty by (auto simp: rev_filter)
  have "PICA_node_joinskynet s = Some s1"
    using l s1(1) by (simp add: PICA_node_joinskynet_def)
  then show thesis using lively_loop [OF live s1(1)] s1(2,3) by (rule that)
qed


text \<open>A node with the database it was installed with, a hundred seconds after its start.\<close>

definition demo_join :: join where
  "demo_join = \<lparr>jnode = pair_node\<lparr>nenv := calm_env\<lparr>now := 100\<rparr>, listen_port := 0xFB08\<rparr>, jdb = fresh_db, nodewaits = Map.empty,
     nodewait_list = [], jnext = 0, threads = [], thread_ok = (\<lambda>_. True), n_thread = 0, skynet_refresh_tmst = 0,
     announced = ''picapica.ge'', inet_addr = (\<lambda>_. INADDR_NONE)\<rparr>"

lemma demo_join_starting: "starting demo_join"
proof -
  have "good (pair_node\<lparr>nenv := calm_env\<lparr>now := 100\<rparr>, listen_port := 0xFB08\<rparr>)"
    using pair_node_good
    by (intro good_same [OF pair_node_good]) (auto simp: same_def same_core_def same_tree_def pair_node_def empty_node_def mem_ok_def calm_env_def)
  then show ?thesis by (simp add: starting_def demo_join_def)
qed

lemma demo_port: "ntohs 0xFB08 = 2299"
  unfolding ntohs_def numeral_2_eq_2 by simp

lemma demo_join_wanted:
  "filter (\<lambda>a. \<not> not_wanted demo_join a) (map nodeaddr_of_row (select_nodes (jdb demo_join) (rows (jdb demo_join))))
     = map (\<lambda>p. \<lparr>a_addr = ''picapica.im'', a_inactive_count = 0, a_last_active = 0, a_port = p\<rparr>) [2233, 2299]"
  by (simp add: demo_join_def fresh_db_def nodeaddr_of_row_def c_string_def not_wanted_def pair_node_def empty_node_def demo_port)


lemma demo_refresh:
  obtains s1 p w where "join_step demo_join s1" "join_inv s1" "thread_ok s1 = (\<lambda>_. True)" "nodewaits s1 p = Some w"
    "ResolveThread p \<in> set (threads s1)"
proof -
  have st: "thread_ok demo_join = (\<lambda>_. True)" "sq_fine (jdb demo_join)" using fresh_db_ok(1) by (simp_all add: demo_join_def)
  from joinskynet_lively [OF demo_join_starting st] obtain s1 where s1: "PICA_node_joinskynet demo_join = Some s1" "lively s1"
    "map (wait_addr s1) (nodewait_list s1)
       = map (\<lambda>p. \<lparr>a_addr = ''picapica.im'', a_inactive_count = 0, a_last_active = 0, a_port = p\<rparr>) [2233, 2299]"
    "\<forall>p\<in>set (nodewait_list s1). \<exists>w. nodewaits s1 p = Some w \<and> w_state w = PICA_NODEWAIT_RESOLVING"
    unfolding demo_join_wanted .
  have "nodewait_list s1 \<noteq> []" using s1(3) by auto
  then obtain p w where p: "nodewaits s1 p = Some w" "w_state w = PICA_NODEWAIT_RESOLVING"
    using s1(4) hd_in_set by metis
  then have "ResolveThread p \<in> set (threads s1)" using s1(2) unfolding lively_def settled_def
    by (metis insertE nodewait_state.distinct empty_iff)
  moreover have "skynet_refresh demo_join = PICA_node_joinskynet demo_join"
    by (simp add: skynet_refresh_def demo_join_def pair_node_def empty_node_def)
  ultimately show thesis using s1(1,2) p(1) that by (metis step_refresh lively_def)
qed


text \<open>The main loop has started the second thread of an entry.\<close>

lemma demo_connecting:
  obtains s p w where "join_step\<^sup>*\<^sup>* demo_join s" "ConnectThread p \<in> set (threads s)" "nodewaits s p = Some w" "w_ai w = [(1, 2)]"
proof -
  obtain s1 p w where s1: "join_step demo_join s1" "join_inv s1" "thread_ok s1 = (\<lambda>_. True)"
    "nodewaits s1 p = Some w" "ResolveThread p \<in> set (threads s1)" by (rule demo_refresh)
  let ?w = "w\<lparr>w_ai_errorcode := 0, w_ai := [(1, 2)], w_state := PICA_NODEWAIT_RESOLVED\<rparr>"
  let ?s2 = "thread_done (ResolveThread p) (s1\<lparr>nodewaits := (nodewaits s1)(p \<mapsto> ?w)\<rparr>)"
  let ?s3 = "?s2\<lparr>jnode := pair_node\<rparr>"
  let ?s4 = "start_thread (ConnectThread p) (?s3\<lparr>nodewaits := (nodewaits s1)(p \<mapsto> ?w\<lparr>w_state := PICA_NODEWAIT_CONNECTING\<rparr>)\<rparr>)"
  have "nodewait_resolve_thread (\<lambda>_ _. (0, [(1, 2)])) p s1 = Some (s1\<lparr>nodewaits := (nodewaits s1)(p \<mapsto> ?w)\<rparr>)"
    using s1(4) by (simp add: nodewait_resolve_thread_def upd_wait_def)
  then have "join_step s1 ?s2" by (rule step_resolve [OF s1(5)])
  moreover have "join_step ?s2 ?s3" by (rule step_node [OF pair_node_good])
  moreover have "process_nodewait_one p ?s3 = Some ?s4"
    by (simp add: process_nodewait_one_def thread_done_def nodewait_start_connect_def upd_wait_def start_thread_def
        pair_node_def empty_node_def)
  then have "join_step ?s3 ?s4"
    using s1(2,4) by (intro step_wait [of p]) (auto simp: join_inv_def waits_inv_def heap_list_def thread_done_def)
  ultimately have "join_step\<^sup>*\<^sup>* demo_join ?s4" using s1(1) by (meson converse_rtranclp_into_rtranclp rtranclp.rtrancl_refl)
  then show thesis
    by (rule that [of _ p "?w\<lparr>w_state := PICA_NODEWAIT_CONNECTING\<rparr>"]) (simp_all add: start_thread_def thread_done_def s1(3))
qed

theorem lost_thread_ends_refresh_witness:
  "\<exists>s p s1. join_step\<^sup>*\<^sup>* demo_join s \<and> nodewait_connect_thread (\<lambda>_. NoSession 7) p s = Some s1 \<and>
     p \<in> set (nodewait_list s1) \<and>
     skynet_refresh (thread_done (ConnectThread p) s1) = Some (thread_done (ConnectThread p) s1)"
proof -
  obtain s p w where s: "join_step\<^sup>*\<^sup>* demo_join s" "ConnectThread p \<in> set (threads s)" "nodewaits s p = Some w"
    "w_ai w = [(1, 2)]" by (rule demo_connecting)
  obtain s1 where s1: "nodewait_connect_thread (\<lambda>_. NoSession 7) p s = Some s1"
    using s(3,4) by (simp add: nodewait_connect_thread_def upd_wait_def)
  from lost_thread_ends_refresh [OF demo_join_starting s(1-3) _ s1 rtranclp.rtrancl_refl]
  show ?thesis using s s1 by (auto simp: thread_done_def)
qed

end
