(* ===== verification/ClientStore.thy ===== *)
theory ClientStore
  imports NodeAddr "HOL-Library.List_Lexorder"
begin

text \<open>
  The tables of the graphical client: known nodes (\<open>nodes.cpp\<close>), contacts (\<open>contacts.cpp\<close>),
  the history of messages (\<open>history.cpp\<close>), accounts (\<open>accounts.cpp\<close>) and settings
  (\<open>settings.cpp\<close>), all in one SQLite database. A table is the
  list of its rows. A statement is its effect on the rows and is taken to succeed: what the operations
  do once the database has reported an error (\<open>lasterr\<close>) is not modelled, and the account of a row
  exists, so the foreign key holds. The order of
  rows with equal keys in a query is an argument (\<open>sel\<close>), as in \<open>NodeAddr\<close>. The search of the
  history by a keyword, which is the operator \<open>like\<close> of SQLite, is left out.
\<close>

section \<open>Nodes\<close>

record NodeRecord =
  nr_address :: string
  nr_port :: u16

definition node_is :: "NodeRecord \<Rightarrow> noderow \<Rightarrow> bool" where
  "node_is n r \<longleftrightarrow> r_address r = nr_address n \<and> r_port r = uint (nr_port n)"

definition Nodes_Add :: "int \<Rightarrow> NodeRecord \<Rightarrow> noderow list \<Rightarrow> noderow list" where
  "Nodes_Add t n rs =
     filter (\<lambda>r. \<not> node_is n r) rs @
       [\<lparr>r_address = nr_address n, r_port = uint (nr_port n), r_last_active = t, r_inactive_count = 0\<rparr>]"

definition Nodes_Delete :: "NodeRecord \<Rightarrow> noderow list \<Rightarrow> noderow list" where
  "Nodes_Delete n = filter (\<lambda>r. \<not> node_is n r)"

definition Nodes_GetNodes :: "(noderow list \<Rightarrow> noderow list) \<Rightarrow> noderow list \<Rightarrow> NodeRecord list" where
  "Nodes_GetNodes sel rs = map (\<lambda>r. \<lparr>nr_address = r_address r, nr_port = word_of_int (r_port r)\<rparr>) (sel rs)"

text \<open>The row at position \<open>count / 2\<close> in the order of \<open>inactive_count\<close> gives the limit.\<close>

definition Nodes_MakeClean :: "noderow list \<Rightarrow> noderow list" where
  "Nodes_MakeClean rs =
     (let count = length rs in
      if count > 32 then
        let delcnt = sort (map r_inactive_count rs) ! (count div 2)
        in filter (\<lambda>r. \<not> r_inactive_count r \<ge> delcnt) rs
      else rs)"

definition Nodes_UpdateStatus :: "int \<Rightarrow> NodeRecord \<Rightarrow> bool \<Rightarrow> noderow list \<Rightarrow> noderow list" where
  "Nodes_UpdateStatus t n alive =
     map (\<lambda>r. if \<not> node_is n r then r
              else if alive then r\<lparr>r_last_active := t, r_inactive_count := 0\<rparr>
              else r\<lparr>r_inactive_count := r_inactive_count r + 1\<rparr>)"

section \<open>Contacts\<close>

text \<open>An SQL \<open>NULL\<close> is \<open>None\<close>; Qt reads it as the empty string.\<close>

record contactrow =
  ct_id :: pid
  ct_name :: "string option"
  ct_cert_pem :: "string option"
  ct_account_id :: pid
  ct_type :: int

definition contact_is :: "pid \<Rightarrow> pid \<Rightarrow> contactrow \<Rightarrow> bool" where
  "contact_is acc i r \<longleftrightarrow> ct_id r = i \<and> ct_account_id r = acc"

definition Contacts_Exists :: "pid \<Rightarrow> pid \<Rightarrow> contactrow list \<Rightarrow> bool" where
  "Contacts_Exists acc i rs \<longleftrightarrow> length (filter (contact_is acc i) rs) = 1"

definition Contacts_SetContactType :: "pid \<Rightarrow> pid \<Rightarrow> int \<Rightarrow> contactrow list \<Rightarrow> contactrow list" where
  "Contacts_SetContactType acc i ty = map (\<lambda>r. if contact_is acc i r then r\<lparr>ct_type := ty\<rparr> else r)"

definition Contacts_Add :: "pid \<Rightarrow> pid \<Rightarrow> int \<Rightarrow> contactrow list \<Rightarrow> contactrow list" where
  "Contacts_Add acc i ty rs =
     (if \<not> Contacts_Exists acc i rs
      then rs @ [\<lparr>ct_id = i, ct_name = None, ct_cert_pem = None, ct_account_id = acc, ct_type = ty\<rparr>]
      else Contacts_SetContactType acc i ty rs)"

definition Contacts_Delete :: "pid \<Rightarrow> pid \<Rightarrow> contactrow list \<Rightarrow> contactrow list" where
  "Contacts_Delete acc i = filter (\<lambda>r. \<not> contact_is acc i r)"

definition Contacts_GetContacts :: "pid \<Rightarrow> int \<Rightarrow> contactrow list \<Rightarrow> (pid \<times> string) list" where
  "Contacts_GetContacts acc ty rs =
     map (\<lambda>r. (ct_id r, case_option [] id (ct_name r))) (filter (\<lambda>r. ct_account_id r = acc \<and> ct_type r = ty) rs)"

definition first_text :: "(contactrow \<Rightarrow> string option) \<Rightarrow> contactrow list \<Rightarrow> string" where
  "first_text f rs = (case rs of [] \<Rightarrow> [] | r # _ \<Rightarrow> case_option [] id (f r))"

definition Contacts_GetContactCert :: "pid \<Rightarrow> pid \<Rightarrow> contactrow list \<Rightarrow> string" where
  "Contacts_GetContactCert acc i rs = first_text ct_cert_pem (filter (contact_is acc i) rs)"

definition Contacts_GetContactName :: "pid \<Rightarrow> pid \<Rightarrow> contactrow list \<Rightarrow> string" where
  "Contacts_GetContactName acc i rs = first_text ct_name (filter (contact_is acc i) rs)"

definition Contacts_SetContactCert :: "pid \<Rightarrow> pid \<Rightarrow> string \<Rightarrow> contactrow list \<Rightarrow> contactrow list" where
  "Contacts_SetContactCert acc i pem = map (\<lambda>r. if contact_is acc i r then r\<lparr>ct_cert_pem := Some pem\<rparr> else r)"

definition Contacts_SetContactName :: "pid \<Rightarrow> pid \<Rightarrow> string \<Rightarrow> contactrow list \<Rightarrow> contactrow list" where
  "Contacts_SetContactName acc i name = map (\<lambda>r. if contact_is acc i r then r\<lparr>ct_name := Some name\<rparr> else r)"

section \<open>History\<close>

text \<open>The identifier of a row grows with every insertion, so the list is in its order. A text
  is kept as the octets of its UTF-8 form.\<close>

record historyrow =
  h_id :: nat
  h_contact_id :: pid
  h_account_id :: pid
  h_timestamp :: int
  h_is_me :: bool
  h_is_delivered :: bool
  h_message :: "byte list"

record history =
  h_rows :: "historyrow list"
  h_next :: nat

definition History_Add :: "int \<Rightarrow> pid \<Rightarrow> pid \<Rightarrow> byte list \<Rightarrow> bool \<Rightarrow> history \<Rightarrow> history" where
  "History_Add t me peer_id message is_me h =
     h\<lparr>h_rows := h_rows h @ [\<lparr>h_id = h_next h, h_contact_id = peer_id, h_account_id = me, h_timestamp = t,
                              h_is_me = is_me, h_is_delivered = (\<not> is_me), h_message = message\<rparr>],
       h_next := Suc (h_next h)\<rparr>"

definition undelivered_row :: "pid \<Rightarrow> pid \<Rightarrow> historyrow \<Rightarrow> bool" where
  "undelivered_row me peer_id r \<longleftrightarrow>
     \<not> h_is_delivered r \<and> h_is_me r \<and> h_contact_id r = peer_id \<and> h_account_id r = me"

text \<open>\<open>update ... where id in (select id ... order by id asc limit 1)\<close>\<close>

definition History_SetDelivered :: "pid \<Rightarrow> pid \<Rightarrow> history \<Rightarrow> history" where
  "History_SetDelivered me peer_id h =
     (let ids = take 1 (map h_id (filter (undelivered_row me peer_id) (h_rows h)))
      in h\<lparr>h_rows := map (\<lambda>r. if h_id r \<in> set ids then r\<lparr>h_is_delivered := True\<rparr> else r) (h_rows h)\<rparr>)"

definition History_GetMessages :: "pid \<Rightarrow> pid \<Rightarrow> int \<Rightarrow> int \<Rightarrow> history \<Rightarrow> historyrow list" where
  "History_GetMessages me peer_id start_timestamp end_timestamp h =
     filter (\<lambda>r. h_contact_id r = peer_id \<and> h_account_id r = me
       \<and> h_timestamp r \<ge> start_timestamp \<and> h_timestamp r \<le> end_timestamp) (h_rows h)"

section \<open>Accounts and settings\<close>

text \<open>A second account with the same identifier is refused by the primary key; deleting an account
  deletes its contacts and its history.\<close>

record AccountRecord =
  ac_id :: pid
  ac_name :: string
  ac_cert_file :: string
  ac_pkey_file :: string
  ac_CA_file :: string

definition Accounts_Add :: "AccountRecord \<Rightarrow> AccountRecord list \<Rightarrow> AccountRecord list" where
  "Accounts_Add a as = (if ac_id a \<in> ac_id ` set as then as else as @ [a])"

definition Accounts_Delete ::
  "pid \<Rightarrow> AccountRecord list \<times> contactrow list \<times> history \<Rightarrow> AccountRecord list \<times> contactrow list \<times> history" where
  "Accounts_Delete i = (\<lambda>(as, cs, h).
     (filter (\<lambda>a. ac_id a \<noteq> i) as, filter (\<lambda>r. ct_account_id r \<noteq> i) cs,
      h\<lparr>h_rows := filter (\<lambda>r. h_account_id r \<noteq> i) (h_rows h)\<rparr>))"

definition Accounts_GetAccounts :: "AccountRecord list \<Rightarrow> AccountRecord list" where
  "Accounts_GetAccounts as = as"

definition Accounts_GetName :: "pid \<Rightarrow> AccountRecord list \<Rightarrow> string" where
  "Accounts_GetName i as = (case filter (\<lambda>a. ac_id a = i) as of [] \<Rightarrow> [] | a # _ \<Rightarrow> ac_name a)"

definition Accounts_CheckFiles :: "(string \<Rightarrow> bool) \<Rightarrow> AccountRecord \<Rightarrow> string option" where
  "Accounts_CheckFiles exists a =
     (if \<not> exists (ac_cert_file a) then Some (''Certificate file '' @ ac_cert_file a @ '' does not exist'')
      else if \<not> exists (ac_pkey_file a) then Some (''Private key file '' @ ac_pkey_file a @ '' does not exist'')
      else None)"

definition Settings_isEmpty :: "(string \<times> string) list \<Rightarrow> bool" where
  "Settings_isEmpty st \<longleftrightarrow> length st = 0"

definition Settings_loadValue :: "string \<Rightarrow> string \<Rightarrow> (string \<times> string) list \<Rightarrow> string" where
  "Settings_loadValue name defval st = (case map_of st name of None \<Rightarrow> defval | Some v \<Rightarrow> v)"

definition Settings_storeValue :: "string \<Rightarrow> string \<Rightarrow> (string \<times> string) list \<Rightarrow> (string \<times> string) list" where
  "Settings_storeValue name val st = filter (\<lambda>kv. fst kv \<noteq> name) st @ [(name, val)]"

lemma setting_round_trip:
  "Settings_loadValue n d (Settings_storeValue m v st) = (if n = m then v else Settings_loadValue n d st)"
  by (induction st) (auto simp: Settings_loadValue_def Settings_storeValue_def)

section \<open>Maps and redelivery\<close>

text \<open>\<open>QMap\<close>, as far as it is used: pairs in the order of the keys.\<close>

fun qm_insert :: "'k::linorder \<Rightarrow> 'v \<Rightarrow> ('k \<times> 'v) list \<Rightarrow> ('k \<times> 'v) list" where
  "qm_insert k v [] = [(k, v)]"
| "qm_insert k v ((k', v') # m) =
     (if k < k' then (k, v) # (k', v') # m else if k = k' then (k, v) # m else (k', v') # qm_insert k v m)"

definition qm_remove :: "'k \<Rightarrow> ('k \<times> 'v) list \<Rightarrow> ('k \<times> 'v) list" where
  "qm_remove k m = filter (\<lambda>kv. fst kv \<noteq> k) m"

definition qm_contains :: "('k \<times> 'v) list \<Rightarrow> 'k \<Rightarrow> bool" where
  "qm_contains m k \<longleftrightarrow> k \<in> fst ` set m"

text \<open>\<open>m[k]\<close> for a map of lists: the empty list if there is no entry.\<close>

definition qm_list :: "('k \<times> 'a list) list \<Rightarrow> 'k \<Rightarrow> 'a list" where
  "qm_list m k = case_option [] id (map_of m k)"

fun collect_messages :: "historyrow list \<Rightarrow> (pid \<times> byte list list) list \<Rightarrow> (pid \<times> byte list list) list" where
  "collect_messages [] m = m"
| "collect_messages (r # rs) m =
     collect_messages rs (qm_insert (h_contact_id r) (qm_list m (h_contact_id r) @ [h_message r]) m)"

definition History_GetUndeliveredMessages :: "pid \<Rightarrow> history \<Rightarrow> (pid \<times> byte list list) list" where
  "History_GetUndeliveredMessages me h =
     collect_messages (filter (\<lambda>r. h_account_id r = me \<and> \<not> h_is_delivered r \<and> h_is_me r) (h_rows h)) []"

section \<open>Maps of lists\<close>

text \<open>What the users of such a map rely on.\<close>

locale list_map =
  fixes get :: "'m \<Rightarrow> 'k \<Rightarrow> 'a list" and has :: "'m \<Rightarrow> 'k \<Rightarrow> bool"
    and put :: "'k \<Rightarrow> 'a list \<Rightarrow> 'm \<Rightarrow> 'm" and del :: "'k \<Rightarrow> 'm \<Rightarrow> 'm"
  assumes get_put: "get (put k v m) j = (if j = k then v else get m j)"
    and has_put: "has (put k v m) j \<longleftrightarrow> j = k \<or> has m j"
    and get_del: "get (del k m) j = (if j = k then [] else get m j)"
    and has_del: "has (del k m) j \<longleftrightarrow> j \<noteq> k \<and> has m j"
begin

lemma get_fold_append:
  "get (fold (\<lambda>(k, x) m. put k (get m k @ [x]) m) kxs m) j = get m j @ map snd (filter (\<lambda>kx. fst kx = j) kxs)"
  by (induction kxs arbitrary: m) (auto simp: get_put)

end

lemma map_of_qm_insert: "map_of (qm_insert k v m) = (map_of m)(k \<mapsto> v)"
  by (induction k v m rule: qm_insert.induct) auto

lemma map_of_qm_remove: "map_of (qm_remove k m) j = (if j = k then None else map_of m j)"
  by (induction m) (auto simp: qm_remove_def)

lemma qm_contains_map_of: "qm_contains m k \<longleftrightarrow> map_of m k \<noteq> None"
  by (simp add: qm_contains_def map_of_eq_None_iff)

interpretation qm: list_map qm_list qm_contains qm_insert qm_remove
  by unfold_locales (auto simp: qm_list_def qm_contains_map_of map_of_qm_insert map_of_qm_remove)

section \<open>The history is a queue of unacknowledged messages\<close>

definition undelivered :: "pid \<Rightarrow> pid \<Rightarrow> history \<Rightarrow> byte list list" where
  "undelivered me peer_id h = map h_message (filter (undelivered_row me peer_id) (h_rows h))"

definition history_ok :: "history \<Rightarrow> bool" where
  "history_ok h \<longleftrightarrow> distinct (map h_id (h_rows h)) \<and> (\<forall>i\<in>set (map h_id (h_rows h)). i < h_next h)"

lemma collect_fold:
  "collect_messages rs m = fold (\<lambda>(k, x) m. qm_insert k (qm_list m k @ [x]) m) (map (\<lambda>r. (h_contact_id r, h_message r)) rs) m"
  by (induction rs m rule: collect_messages.induct) simp_all

lemma get_undelivered: "qm_list (History_GetUndeliveredMessages me h) p = undelivered me p h"
  by (auto simp: History_GetUndeliveredMessages_def collect_fold qm.get_fold_append undelivered_def filter_map comp_def
      qm_list_def [of "[]"] undelivered_row_def conj_commute intro!: arg_cong [of _ _ "map h_message"] filter_cong)

text \<open>Marking the first row that satisfies \<open>P\<close> removes it from the list of such rows.\<close>

lemma mark_first:
  assumes "distinct (map h_id rs)" "\<And>r. \<not> P (r\<lparr>h_is_delivered := True\<rparr>)"
  defines "ids \<equiv> take 1 (map h_id (filter P rs))"
  shows "filter P (map (\<lambda>r. if h_id r \<in> set ids then r\<lparr>h_is_delivered := True\<rparr> else r) rs) = tl (filter P rs)"
  using assms(1) unfolding ids_def
proof (induction rs)
  case (Cons r rs)
  show ?case
  proof (cases "P r")
    case True
    have "map (\<lambda>q. if h_id q = h_id r then q\<lparr>h_is_delivered := True\<rparr> else q) rs = rs"
      using Cons.prems by (intro map_idI) (auto, metis imageI)
    then show ?thesis using True assms(2) by simp
  next
    case False
    have "h_id r \<notin> set (take 1 (map h_id (filter P rs)))"
      using Cons.prems by (auto dest!: in_set_takeD)
    then show ?thesis using Cons False by simp
  qed
qed simp

lemma mark_other:
  assumes "distinct (map h_id rs)" "\<And>r. P r \<Longrightarrow> \<not> Q r" "\<And>r. P (r\<lparr>h_is_delivered := True\<rparr>) \<Longrightarrow> P r"
    and "set ids \<subseteq> h_id ` set (filter Q rs)"
  shows "filter P (map (\<lambda>r. if h_id r \<in> set ids then r\<lparr>h_is_delivered := True\<rparr> else r) rs) = filter P rs"
proof -
  have "P r \<Longrightarrow> h_id r \<notin> set ids" if "r \<in> set rs" for r
    using assms(1,2,4) that unfolding distinct_map by (auto dest!: subsetD simp: inj_on_def)
  then show ?thesis using assms(3) by (induction rs) auto
qed

lemma history_ok_Add: "history_ok h \<Longrightarrow> history_ok (History_Add t me q m is_me h)"
  by (fastforce simp: history_ok_def History_Add_def)

lemma history_ok_SetDelivered: "history_ok h \<Longrightarrow> history_ok (History_SetDelivered me q h)"
proof -
  assume h: "history_ok h"
  have "map h_id (h_rows (History_SetDelivered me q h)) = map h_id (h_rows h)"
    by (simp add: History_SetDelivered_def Let_def)
  moreover have "h_next (History_SetDelivered me q h) = h_next h" by (simp add: History_SetDelivered_def Let_def)
  ultimately show ?thesis using h unfolding history_ok_def by metis
qed

lemma undelivered_Add:
  "undelivered me p (History_Add t me' q m is_me h) = undelivered me p h @ (if is_me \<and> me' = me \<and> q = p then [m] else [])"
  by (auto simp: undelivered_def History_Add_def undelivered_row_def)

lemma undelivered_SetDelivered:
  assumes "history_ok h"
  shows "undelivered me p (History_SetDelivered me' q h)
      = (if me' = me \<and> q = p then tl (undelivered me p h) else undelivered me p h)"
proof (cases "me' = me \<and> q = p")
  case True
  then show ?thesis
    using assms mark_first [of "h_rows h" "undelivered_row me p"]
    by (simp add: undelivered_def History_SetDelivered_def undelivered_row_def [of _ _ "_\<lparr>h_is_delivered := True\<rparr>"] map_tl
        history_ok_def)
next
  case False
  let ?ids = "take 1 (map h_id (filter (undelivered_row me' q) (h_rows h)))"
  have "filter (undelivered_row me p) (map (\<lambda>r. if h_id r \<in> set ?ids then r\<lparr>h_is_delivered := True\<rparr> else r) (h_rows h))
      = filter (undelivered_row me p) (h_rows h)"
    using assms False
    by (intro mark_other [where Q = "undelivered_row me' q"]) (auto simp: undelivered_row_def history_ok_def dest: in_set_takeD)
  then show ?thesis unfolding if_not_P [OF False] by (simp add: undelivered_def History_SetDelivered_def Let_def)
qed

section \<open>The median of the failures\<close>

lemma sorted_median_zero:
  fixes ys :: "int list"
  assumes "sorted ys" "\<forall>y\<in>set ys. 0 \<le> y" "length ys < 2 * length (filter (\<lambda>y. y = 0) ys)"
  shows "ys ! (length ys div 2) = 0"
proof (rule ccontr)
  let ?k = "length ys div 2"
  assume nz: "ys ! ?k \<noteq> 0"
  have k: "?k < length ys" using assms(3) by (cases ys) auto
  then have pos: "0 < ys ! ?k" using nz assms(2) by (metis nth_mem order_le_neq_trans)
  have "\<forall>y\<in>set (drop ?k ys). y \<noteq> 0"
  proof
    fix y assume "y \<in> set (drop ?k ys)"
    then obtain i where "i < length ys - ?k" "y = ys ! (?k + i)" by (auto simp: in_set_conv_nth)
    moreover have "?k + i < length ys" using \<open>i < length ys - ?k\<close> by linarith
    ultimately show "y \<noteq> 0" using sorted_nth_mono [OF assms(1), of ?k "?k + i"] pos by linarith
  qed
  then have "filter (\<lambda>y. y = 0) (drop ?k ys) = []" by (simp add: filter_empty_conv)
  then have "filter (\<lambda>y. y = 0) ys = filter (\<lambda>y. y = 0) (take ?k ys)"
    by (metis append_Nil2 append_take_drop_id filter_append)
  then have "length (filter (\<lambda>y. y = 0) ys) \<le> ?k" by (metis length_filter_le length_take min.cobounded2 order_trans)
  then show False using assms(3) by simp
qed

section \<open>Properties\<close>

text \<open>C9. The history implements a queue of unacknowledged messages per contact and account:
  storing a message of the user puts it at the end of the queue of its contact, an
  acknowledgement takes the oldest one from the queue of the peer it came from, no other
  queue changes, and the messages that are loaded for redelivery are these queues.\<close>

theorem history_is_queue:
  assumes "history_ok h"
  shows "history_ok (History_Add t me' q m is_me h) \<and> history_ok (History_SetDelivered me' q h) \<and>
    undelivered me p (History_Add t me' q m is_me h)
      = undelivered me p h @ (if is_me \<and> me' = me \<and> q = p then [m] else []) \<and>
    undelivered me p (History_SetDelivered me' q h)
      = (if me' = me \<and> q = p then tl (undelivered me p h) else undelivered me p h) \<and>
    qm_list (History_GetUndeliveredMessages me h) p = undelivered me p h"
  using assms by (simp add: history_ok_Add history_ok_SetDelivered undelivered_Add undelivered_SetDelivered get_undelivered)

text \<open>The client forgets every node it knows. Cleaning the table of nodes deletes all rows
  that failed at least as often as the median; when most of more than 32 nodes have never
  failed, the median is zero and the table is empty afterwards.\<close>

theorem make_clean_deletes_all:
  assumes "length rs > 32" "\<forall>r\<in>set rs. r_inactive_count r \<ge> 0"
    and "2 * length (filter (\<lambda>r. r_inactive_count r = 0) rs) > length rs"
  shows "Nodes_MakeClean rs = []"
proof -
  let ?ys = "sort (map r_inactive_count rs)"
  have "length (filter (\<lambda>y. y = 0) ?ys) = length (filter (\<lambda>r. r_inactive_count r = 0) rs)"
    by (metis (no_types, lifting) comp_def filter_cong filter_map filter_sort length_map length_sort)
  then have "?ys ! (length ?ys div 2) = 0" using assms by (intro sorted_median_zero) auto
  then show ?thesis using assms(1,2) by (simp add: Nodes_MakeClean_def filter_empty_conv)
qed

text \<open>Three messages to one contact and one to another, of which the first was acknowledged.\<close>

definition demo_history :: history where
  "demo_history = History_SetDelivered [1] [2] (History_Add 13 [1] [2] [30] True (History_Add 12 [1] [2] [20] True
     (History_Add 11 [1] [3] [15] True (History_Add 10 [1] [2] [10] True \<lparr>h_rows = [], h_next = 0\<rparr>))))"

lemma demo_history_ok: "history_ok demo_history"
  by (simp add: demo_history_def history_ok_def History_Add_def History_SetDelivered_def undelivered_row_def)

theorem history_is_queue_witness:
  "undelivered [1] [2] (History_SetDelivered [1] [2] demo_history) = [[30]] \<and>
   qm_list (History_GetUndeliveredMessages [1] demo_history) [2] = [[20], [30]]"
  using history_is_queue [OF demo_history_ok, of 0 "[1]" "[2]" "[]" True "[1]" "[2]"]
  by (simp add: demo_history_def undelivered_def undelivered_row_def History_Add_def History_SetDelivered_def)

theorem make_clean_deletes_all_witness:
  "Nodes_MakeClean (map (\<lambda>p. \<lparr>r_address = ''a'', r_port = int p, r_last_active = 0, r_inactive_count = (if p < 20 then 0 else 1)\<rparr>) [0..<33]) = []"
  by (rule make_clean_deletes_all) (simp_all add: upt_rec)

end
