(* ===== verification/SkyNet.thy ===== *)
theory SkyNet
  imports ClientNode ClientStore Netconf "HOL-Library.Sublist"
begin

text \<open>
  The class \<open>SkyNet\<close> of the graphical client (\<open>skynet.cpp\<close>): it keeps the client connected to
  one node, queues messages and files for contacts that cannot be reached yet, and translates
  callbacks of the library into signals of the user interface. It works on the library as it
  is modelled in the \<open>Client\<close> theories. A signal is an entry of \<open>signals\<close>; timers are numbers.
  A text is kept as the octets of its UTF-8 form. A callback is an operation on the library
  at the moment it is called; that \<open>PICA_event_loop\<close> calls it in the middle of a round is not
  modelled: the round with its callbacks is an argument of \<open>timerEvent\<close>.
\<close>

section \<open>State\<close>

datatype signal =
    MessageReceived pid "byte list"
  | UnableToDeliver pid "byte list"
  | Delivered pid
  | BecameSelfAware
  | LostSelfAwareness
  | CertificateForged pid string string
  | StatusMsg bool
  | ContactsUpdated
  | IncomingFileRequestReceived pid u64 "byte list"
  | OutgoingFileRequestAccepted pid
  | OutgoingFileRequestDenied pid
  | FileProgress pid u64 u64
  | IncomingFilePaused pid
  | IncomingFileCancelled pid
  | IncomingFileIoError pid
  | IncomingFileResumed pid
  | OutgoingFilePaused pid
  | OutgoingFileCancelled pid
  | OutgoingFileIoError pid
  | OutgoingFileResumed pid
  | OutgoingFileFinished pid
  | IncomingFileFinished pid
  | MultiloginMessageReceived u64 "byte list" u16
  | ConnectionStatusUpdated pid
  | c2cClosed pid

record skynet =
  sk_lib :: lib
  connecting_nodes :: "(nat \<times> NodeRecord) list"
  connected_nodes_to_close :: "nat list"
  self_aware :: bool
  active_nodelink :: "nat option"
  sk_acc :: "pid option"
  sk_listener :: "nat option"
  msgqueues :: "(pid \<times> byte list list) list"
  sndfilequeues :: "(pid \<times> byte list list) list"
  c2c_reconnect_timeouts :: "(pid \<times> u32) list"
  timers :: "nat list"
  next_timer :: nat
  nodelink_reconnect_timer_id :: nat
  event_loop_timer_id :: nat
  file_transfer_timer_id :: nat
  c2c_reconnect_timer_id :: nat
  active_filetransfers :: u32
  sk_nodes :: "noderow list"
  sk_contacts :: "contactrow list"
  sk_history :: history
  account_id :: pid
  sk_time :: int
  signals :: "signal list"

definition emit_signal :: "signal \<Rightarrow> skynet \<Rightarrow> skynet" where
  "emit_signal x s = s\<lparr>signals := signals s @ [x]\<rparr>"

definition startTimer :: "skynet \<Rightarrow> nat \<times> skynet" where
  "startTimer s = (next_timer s, s\<lparr>timers := next_timer s # timers s, next_timer := Suc (next_timer s)\<rparr>)"

definition killTimer :: "nat \<Rightarrow> skynet \<Rightarrow> skynet" where
  "killTimer i s = s\<lparr>timers := removeAll i (timers s)\<rparr>"

text \<open>The constructor. It does not set \<open>nodelink_reconnect_timer_id\<close>, so what the memory holds is an
  argument; the other arguments are what the database and the clock hold.\<close>

definition new_SkyNet ::
  "nat \<Rightarrow> lib \<Rightarrow> noderow list \<Rightarrow> contactrow list \<Rightarrow> history \<Rightarrow> pid \<Rightarrow> int \<Rightarrow> skynet" where
  "new_SkyNet garbage l ns cs h acc t =
     (let s = \<lparr>sk_lib = l, connecting_nodes = [], connected_nodes_to_close = [], self_aware = False, active_nodelink = None,
            sk_acc = None, sk_listener = None, msgqueues = [], sndfilequeues = [], c2c_reconnect_timeouts = [], timers = [],
            next_timer = 1, nodelink_reconnect_timer_id = garbage, event_loop_timer_id = 0, file_transfer_timer_id = 0,
            c2c_reconnect_timer_id = 0, active_filetransfers = 0, sk_nodes = ns, sk_contacts = cs, sk_history = h,
            account_id = acc, sk_time = t, signals = []\<rparr>;
          (i, s) = startTimer s;
          s = s\<lparr>event_loop_timer_id := i\<rparr>;
          (i, s) = startTimer s
      in s\<lparr>c2c_reconnect_timer_id := i\<rparr>)"

section \<open>The timer of file transfers\<close>

text \<open>The counter is a \<open>quint32\<close>: the assertion that it is not negative always holds.\<close>

definition active_filetransfers_up :: "skynet \<Rightarrow> skynet" where
  "active_filetransfers_up s =
     (let s = s\<lparr>active_filetransfers := active_filetransfers s + 1\<rparr> in
      if active_filetransfers s > 0 \<and> file_transfer_timer_id s = 0
      then (let (i, s) = startTimer s in s\<lparr>file_transfer_timer_id := i\<rparr>) else s)"

definition stop_file_timer :: "skynet \<Rightarrow> skynet" where
  "stop_file_timer s = (killTimer (file_transfer_timer_id s) s)\<lparr>file_transfer_timer_id := 0\<rparr>"

definition active_filetransfers_down :: "skynet \<Rightarrow> skynet" where
  "active_filetransfers_down s =
     (let s = s\<lparr>active_filetransfers := active_filetransfers s - 1\<rparr> in
      if active_filetransfers s = 0 \<and> file_transfer_timer_id s \<noteq> 0 then stop_file_timer s else s)"

definition active_filetransfers_reset :: "skynet \<Rightarrow> skynet" where
  "active_filetransfers_reset s =
     (let s = s\<lparr>active_filetransfers := 0\<rparr> in if file_transfer_timer_id s \<noteq> 0 then stop_file_timer s else s)"

section \<open>Channels\<close>

fun find_chan_loop :: "lib \<Rightarrow> pid \<Rightarrow> nat list \<Rightarrow> nat option option" where
  "find_chan_loop l peer_id [] = Some None"
| "find_chan_loop l peer_id (p # ps) =
     do { c \<leftarrow> chans l p;
          if ch_state c = PICA_C2C_STATE_ACTIVE \<and> ch_peer_id c = peer_id then Some (Some p)
          else find_chan_loop l peer_id ps }"

definition find_active_chan :: "pid \<Rightarrow> skynet \<Rightarrow> nat option option" where
  "find_active_chan peer_id s =
     (case active_nodelink s of
        None \<Rightarrow> Some None
      | Some a \<Rightarrow> do { n \<leftarrow> conns (sk_lib s) a; find_chan_loop (sk_lib s) peer_id (cn_chan_list n) })"

fun filter_chans_loop :: "lib \<Rightarrow> pid list \<Rightarrow> nat list \<Rightarrow> pid list \<Rightarrow> pid list option" where
  "filter_chans_loop l peer_ids [] ret = Some ret"
| "filter_chans_loop l peer_ids (p # ps) ret =
     do { c \<leftarrow> chans l p;
          filter_chans_loop l peer_ids ps
            (if ch_peer_id c \<in> set peer_ids then remove1 (ch_peer_id c) ret else ret) }"

definition filter_existing_chans :: "pid list \<Rightarrow> skynet \<Rightarrow> pid list option" where
  "filter_existing_chans peer_ids s =
     (case active_nodelink s of
        None \<Rightarrow> Some peer_ids
      | Some a \<Rightarrow> do { n \<leftarrow> conns (sk_lib s) a; filter_chans_loop (sk_lib s) peer_ids (cn_chan_list n) peer_ids })"

text \<open>\<open>PICA_new_c2c\<close> refuses a \<open>NULL\<close> connection.\<close>

definition sky_new_c2c :: "pid \<Rightarrow> skynet \<Rightarrow> (int \<times> skynet) option" where
  "sky_new_c2c peer_id s =
     (case active_nodelink s of
        None \<Rightarrow> Some (PICA_ERRINVARG, s)
      | Some a \<Rightarrow> do { (ret, chan, l) \<leftarrow> PICA_new_c2c a peer_id (sk_lib s); Some (ret, s\<lparr>sk_lib := l\<rparr>) })"

definition update_c2c_reconnect_timeout :: "pid \<Rightarrow> skynet \<Rightarrow> skynet" where
  "update_c2c_reconnect_timeout peer_id s =
     (let m = c2c_reconnect_timeouts s;
          t = (case map_of m peer_id of None \<Rightarrow> 1 | Some t \<Rightarrow> t * 2);
          t = (if t \<ge> 64 then 64 else t)
      in s\<lparr>c2c_reconnect_timeouts := qm_insert peer_id t m\<rparr>)"

definition reset_c2c_reconnect_timeout :: "pid \<Rightarrow> skynet \<Rightarrow> skynet" where
  "reset_c2c_reconnect_timeout peer_id s =
     s\<lparr>c2c_reconnect_timeouts := qm_remove peer_id (c2c_reconnect_timeouts s)\<rparr>"

text \<open>A remainder by zero has no result.\<close>

fun reconnect_loop :: "pid list \<Rightarrow> skynet \<Rightarrow> skynet option" where
  "reconnect_loop [] s = Some s"
| "reconnect_loop (i # is) s =
     (case map_of (c2c_reconnect_timeouts s) i of
        Some t \<Rightarrow>
          if t = 0 then None
          else if sk_time s mod uint t \<noteq> 0 then reconnect_loop is s
          else do { (ret, s) \<leftarrow> sky_new_c2c i s; reconnect_loop is s }
      | None \<Rightarrow> do { (ret, s) \<leftarrow> sky_new_c2c i s; reconnect_loop is s })"

definition queue_keys :: "skynet \<Rightarrow> pid list" where
  "queue_keys s = sort (remdups (map fst (msgqueues s) @ map fst (sndfilequeues s)))"

definition reconnect_c2c :: "skynet \<Rightarrow> skynet option" where
  "reconnect_c2c s =
     (if msgqueues s = [] \<and> sndfilequeues s = [] then Some s
      else if self_aware s then
        do { ids \<leftarrow> filter_existing_chans (queue_keys s) s; reconnect_loop ids s }
      else Some s)"

section \<open>Nodes\<close>

definition node_status_changed :: "NodeRecord \<Rightarrow> bool \<Rightarrow> skynet \<Rightarrow> skynet" where
  "node_status_changed nr alive s = s\<lparr>sk_nodes := Nodes_UpdateStatus (sk_time s) nr alive (sk_nodes s)\<rparr>"

text \<open>The first entry of \<open>connecting_nodes\<close> for a connection, and the list without it.\<close>

fun take_connecting :: "nat \<Rightarrow> (nat \<times> NodeRecord) list \<Rightarrow> NodeRecord option \<times> (nat \<times> NodeRecord) list" where
  "take_connecting c [] = (None, [])"
| "take_connecting c ((c', nr) # l) =
     (if c' = c then (Some nr, l) else let (r, l) = take_connecting c l in (r, (c', nr) # l))"

definition nodelink_activated :: "nat \<Rightarrow> skynet \<Rightarrow> skynet option" where
  "nodelink_activated c2n s =
     (let (r, l) = take_connecting c2n (connecting_nodes s);
          s = (case r of None \<Rightarrow> s | Some nr \<Rightarrow> (node_status_changed nr True s)\<lparr>connecting_nodes := l\<rparr>) in
      if self_aware s then Some (s\<lparr>connected_nodes_to_close := connected_nodes_to_close s @ [c2n]\<rparr>)
      else
        let s = emit_signal BecameSelfAware
                  (s\<lparr>self_aware := True, active_nodelink := Some c2n, sk_nodes := Nodes_MakeClean (sk_nodes s)\<rparr>);
            s = (if msgqueues s = []
                 then s\<lparr>msgqueues := History_GetUndeliveredMessages (account_id s) (sk_history s)\<rparr> else s)
        in reconnect_c2c (s\<lparr>c2c_reconnect_timeouts := []\<rparr>))"

definition lose_awareness :: "skynet \<Rightarrow> skynet" where
  "lose_awareness s =
     (let (i, s) = startTimer (emit_signal LostSelfAwareness (s\<lparr>self_aware := False\<rparr>))
      in s\<lparr>nodelink_reconnect_timer_id := i\<rparr>)"

definition nodelink_closed :: "nat \<Rightarrow> skynet \<Rightarrow> skynet" where
  "nodelink_closed c2n s =
     (if self_aware s \<and> active_nodelink s = Some c2n then lose_awareness (s\<lparr>active_nodelink := None\<rparr>)
      else s\<lparr>connecting_nodes := snd (take_connecting c2n (connecting_nodes s))\<rparr>)"

definition nodelink_failed :: "nat \<Rightarrow> int \<Rightarrow> skynet \<Rightarrow> skynet" where
  "nodelink_failed c2n err s =
     (let (r, l) = take_connecting c2n (connecting_nodes s);
          s = (case r of
                 None \<Rightarrow> s
               | Some nr \<Rightarrow>
                   (node_status_changed nr False
                     (if err = PICA_ERRPROTONEW then emit_signal (StatusMsg True) s
                      else if err = PICA_ERRPROTOOLD then emit_signal (StatusMsg False) s else s))\<lparr>connecting_nodes := l\<rparr>)
      in if connecting_nodes s = [] then lose_awareness s else s)"

fun close_all :: "nat list \<Rightarrow> lib \<Rightarrow> lib option" where
  "close_all [] l = Some l"
| "close_all (c # cs) l = do { l \<leftarrow> PICA_close_c2n c l; close_all cs l }"

text \<open>\<open>SkyNet::Exit\<close>\<close>

definition sky_exit :: "skynet \<Rightarrow> skynet option" where
  "sky_exit s =
     do { s \<leftarrow> (case active_nodelink s of
                  Some a \<Rightarrow> if self_aware s
                            then do { l \<leftarrow> PICA_close_c2n a (sk_lib s); Some (s\<lparr>sk_lib := l, active_nodelink := None\<rparr>) }
                            else Some s
                | None \<Rightarrow> Some s);
          let s = (active_filetransfers_reset (s\<lparr>self_aware := False\<rparr>))\<lparr>msgqueues := []\<rparr>;
          l \<leftarrow> close_all (map fst (connecting_nodes s)) (sk_lib s);
          Some (emit_signal LostSelfAwareness (s\<lparr>sk_lib := l, connecting_nodes := []\<rparr>)) }"

abbreviation (input) PICA_MULTILOGIN_REPLACE :: int where
  "PICA_MULTILOGIN_REPLACE \<equiv> 1"

text \<open>The slot runs later than the callback; \<open>active_nodelink\<close> may be \<open>NULL\<close> by then.\<close>

definition multilogin_event :: "skynet \<Rightarrow> skynet option" where
  "multilogin_event s =
     do { let s = emit_signal (StatusMsg True) s;
          a \<leftarrow> active_nodelink s;
          n \<leftarrow> conns (sk_lib s) a;
          if cn_multilogin_policy n = PICA_MULTILOGIN_REPLACE then sky_exit (emit_signal (StatusMsg True) s) else Some s }"

section \<open>Going online\<close>

text \<open>The values of the settings, the answers of the system and of UPnP (\<open>None\<close> where it is not
  built in or fails), and the account that \<open>open_account\<close> opens.\<close>

record join_input =
  ji_account :: "pid option"
  ji_select :: "noderow list \<Rightarrow> noderow list"
  ji_direct_c2c :: PICA_directc2c_config
  ji_multilogin :: int
  ji_public_port :: int
  ji_local_port :: int
  ji_public_addr :: string
  ji_upnp_enabled :: bool
  ji_ifaddrs :: "ifaddr list option"
  ji_upnp :: "int \<Rightarrow> int \<Rightarrow> string option"
  ji_inet_addr :: "byte list \<Rightarrow> u32"

definition latin1 :: "string \<Rightarrow> byte list" where
  "latin1 s = map of_char s"

definition autoconfigured_addr :: "join_input \<Rightarrow> string" where
  "autoconfigured_addr ji =
     (let guess = PICA_guess_listening_addr_ipv4 (ji_ifaddrs ji) in
      if ji_upnp_enabled ji \<and> PICA_is_reserved_addr_ipv4 guess
      then (case ji_upnp ji (ji_public_port ji) (ji_local_port ji) of None \<Rightarrow> inet_ntoa guess | Some a \<Rightarrow> a)
      else inet_ntoa guess)"

definition join_listener :: "join_input \<Rightarrow> skynet \<Rightarrow> PICA_directc2c_config \<times> skynet" where
  "join_listener ji s =
     (if sk_listener s = None \<and> ji_direct_c2c ji = PICA_DIRECTC2C_CFG_ALLOWINCOMING then
        let (addr, s) = (if sublist ''autoconfigure'' (ji_public_addr ji)
                         then (autoconfigured_addr ji, emit_signal (StatusMsg False) s) else (ji_public_addr ji, s));
            (ret, l, lb) = PICA_new_listener (ji_inet_addr ji) (sk_acc s \<noteq> None) (Some (latin1 addr))
                             (ji_public_port ji) (ji_local_port ji) (sk_lib s);
            s = s\<lparr>sk_lib := lb, sk_listener := l\<rparr> in
        if ret \<noteq> PICA_OK then (PICA_DIRECTC2C_CFG_CONNECTONLY, emit_signal (StatusMsg True) s)
        else (ji_direct_c2c ji, s)
      else (ji_direct_c2c ji, s))"

fun join_nodes :: "PICA_directc2c_config \<Rightarrow> int \<Rightarrow> NodeRecord list \<Rightarrow> skynet \<Rightarrow> skynet option" where
  "join_nodes cfg multilogin [] s = Some s"
| "join_nodes cfg multilogin (nr # nrs) s =
     do { (ret, c, l) \<leftarrow> PICA_new_c2n (sk_acc s) (Some (latin1 (nr_address nr))) (ucast (nr_port nr)) cfg multilogin
                           (sk_listener s) (sk_lib s);
          let s = s\<lparr>sk_lib := l\<rparr>;
          join_nodes cfg multilogin nrs
            (if ret = PICA_OK then (case c of None \<Rightarrow> s | Some c \<Rightarrow> s\<lparr>connecting_nodes := connecting_nodes s @ [(c, nr)]\<rparr>)
             else node_status_changed nr False s) }"

definition Join :: "join_input \<Rightarrow> skynet \<Rightarrow> skynet option" where
  "Join ji s =
     (let noderecords = Nodes_GetNodes (ji_select ji) (sk_nodes s);
          s = (if sk_acc s = None then s\<lparr>sk_acc := ji_account ji\<rparr> else s) in
      if sk_acc s = None then Some s
      else if noderecords = [] then Some (emit_signal (StatusMsg True) s)
      else
        let (cfg, s) = join_listener ji s in
        do { l \<leftarrow> close_all (map fst (connecting_nodes s)) (sk_lib s);
             join_nodes cfg (ji_multilogin ji) noderecords (s\<lparr>sk_lib := l, connecting_nodes := []\<rparr>) })"

section \<open>Timers\<close>

text \<open>The connections that a round of the event loop is run with, and what is closed after it.\<close>

definition round_links :: "skynet \<Rightarrow> nat list" where
  "round_links s = map fst (connecting_nodes s) @ (if self_aware s then case_option [] (\<lambda>a. [a]) (active_nodelink s) else [])"

definition close_connected :: "skynet \<Rightarrow> skynet option" where
  "close_connected s =
     do { l \<leftarrow> close_all (connected_nodes_to_close s) (sk_lib s); Some (s\<lparr>sk_lib := l, connected_nodes_to_close := []\<rparr>) }"

text \<open>\<open>PICA_event_loop\<close>, together with the callbacks it calls, is the argument \<open>event_loop\<close>.\<close>

definition timerEvent :: "(nat list \<Rightarrow> skynet \<Rightarrow> (int \<times> skynet) option) \<Rightarrow> join_input \<Rightarrow> nat \<Rightarrow> skynet \<Rightarrow> skynet option" where
  "timerEvent event_loop ji i s =
     (if i = file_transfer_timer_id s \<or> i = event_loop_timer_id s then
        (if connecting_nodes s \<noteq> [] \<or> self_aware s then
           do { (ret, s) \<leftarrow> event_loop (round_links s) s;
                s \<leftarrow> close_connected s;
                Some (if ret \<noteq> PICA_OK then emit_signal (StatusMsg True) s else s) }
         else Some s)
      else
        do { s \<leftarrow> (if self_aware s \<and> i = c2c_reconnect_timer_id s then reconnect_c2c s else Some s);
             if \<not> self_aware s \<and> i = nodelink_reconnect_timer_id s
             then Join ji (killTimer (nodelink_reconnect_timer_id s) s) else Some s })"

section \<open>Messages and files\<close>

definition SendMessage :: "pid \<Rightarrow> byte list \<Rightarrow> skynet \<Rightarrow> skynet option" where
  "SendMessage to msg s =
     do { ch \<leftarrow> find_active_chan to s;
          case ch of
            Some p \<Rightarrow>
              do { (ret, l) \<leftarrow> PICA_send_msg p msg (sk_lib s);
                   let s = s\<lparr>sk_lib := l\<rparr>;
                   Some (if ret \<noteq> PICA_OK then emit_signal (UnableToDeliver to msg) s else s) }
          | None \<Rightarrow>
              do { (ret, s) \<leftarrow>
                     (if qm_contains (msgqueues s) to
                      then Some (PICA_OK, s\<lparr>msgqueues := qm_insert to (qm_list (msgqueues s) to @ [msg]) (msgqueues s)\<rparr>)
                      else do { (ret, s) \<leftarrow> sky_new_c2c to s;
                                Some (ret, s\<lparr>msgqueues := qm_insert to [msg] (msgqueues s)\<rparr>) });
                   Some (if ret \<noteq> PICA_OK then emit_signal (UnableToDeliver to msg) s else s) } }"

definition SendFile :: "pid \<Rightarrow> byte list \<Rightarrow> skynet \<Rightarrow> skynet option" where
  "SendFile to filepath s =
     do { ch \<leftarrow> find_active_chan to s;
          case ch of
            Some p \<Rightarrow> do { (ret, l) \<leftarrow> PICA_send_file p (Some filepath) (sk_lib s); Some (s\<lparr>sk_lib := l\<rparr>) }
          | None \<Rightarrow>
              if qm_contains (sndfilequeues s) to then Some s
              else do { (ret, s) \<leftarrow> sky_new_c2c to s;
                        Some (s\<lparr>sndfilequeues := qm_insert to [filepath] (sndfilequeues s)\<rparr>) } }"

text \<open>A call of the library on the active channel to a peer, if there is one.\<close>

definition on_chan :: "(nat \<Rightarrow> lib \<Rightarrow> (int \<times> lib) option) \<Rightarrow> pid \<Rightarrow> skynet \<Rightarrow> (bool \<times> skynet) option" where
  "on_chan f peer_id s =
     do { ch \<leftarrow> find_active_chan peer_id s;
          case ch of
            None \<Rightarrow> Some (False, s)
          | Some p \<Rightarrow> do { (ret, l) \<leftarrow> f p (sk_lib s); Some (ret = PICA_OK, s\<lparr>sk_lib := l\<rparr>) } }"

definition AcceptFile :: "pid \<Rightarrow> byte list \<Rightarrow> skynet \<Rightarrow> skynet option" where
  "AcceptFile from filepath s =
     do { (ok, s) \<leftarrow> on_chan (\<lambda>p. PICA_accept_file p filepath) from s;
          Some (if ok then active_filetransfers_up s else s) }"

definition DenyFile :: "pid \<Rightarrow> skynet \<Rightarrow> skynet option" where
  "DenyFile from s = do { (ok, s) \<leftarrow> on_chan PICA_deny_file from s; Some s }"

definition PauseFile :: "pid \<Rightarrow> bool \<Rightarrow> skynet \<Rightarrow> skynet option" where
  "PauseFile peer_id sending s = do { (ok, s) \<leftarrow> on_chan (\<lambda>p. PICA_pause_file p sending) peer_id s; Some s }"

definition ResumeFile :: "pid \<Rightarrow> bool \<Rightarrow> skynet \<Rightarrow> skynet option" where
  "ResumeFile peer_id sending s = do { (ok, s) \<leftarrow> on_chan (\<lambda>p. PICA_resume_file p sending) peer_id s; Some s }"

definition CancelFile :: "pid \<Rightarrow> bool \<Rightarrow> skynet \<Rightarrow> skynet option" where
  "CancelFile peer_id sending s = do { (ok, s) \<leftarrow> on_chan (\<lambda>p. PICA_cancel_file p sending) peer_id s; Some s }"

fun flush_msgs :: "nat \<Rightarrow> pid \<Rightarrow> byte list list \<Rightarrow> skynet \<Rightarrow> (byte list list \<times> skynet) option" where
  "flush_msgs p to [] s = Some ([], s)"
| "flush_msgs p to (m # ms) s =
     do { (ret, l) \<leftarrow> PICA_send_msg p m (sk_lib s);
          let s = s\<lparr>sk_lib := l\<rparr>;
          if ret \<noteq> PICA_OK then Some (m # ms, emit_signal (UnableToDeliver to m) s) else flush_msgs p to ms s }"

fun flush_files :: "nat \<Rightarrow> byte list list \<Rightarrow> skynet \<Rightarrow> (byte list list \<times> skynet) option" where
  "flush_files p [] s = Some ([], s)"
| "flush_files p (f # fs) s =
     do { (ret, l) \<leftarrow> PICA_send_file p (Some f) (sk_lib s);
          let s = s\<lparr>sk_lib := l\<rparr>;
          if ret \<noteq> PICA_OK then Some (f # fs, s) else flush_files p fs s }"

definition keep_queue :: "pid \<Rightarrow> byte list list \<Rightarrow> (pid \<times> byte list list) list \<Rightarrow> (pid \<times> byte list list) list" where
  "keep_queue to q m = (if q = [] then qm_remove to m else qm_insert to q m)"

definition flush_queues :: "pid \<Rightarrow> skynet \<Rightarrow> skynet option" where
  "flush_queues to s =
     (if self_aware s \<and> (qm_contains (msgqueues s) to \<or> qm_contains (sndfilequeues s) to) then
        do { ch \<leftarrow> find_active_chan to s;
             case ch of
               None \<Rightarrow> Some s
             | Some p \<Rightarrow>
                 do { (q, s) \<leftarrow> flush_msgs p to (qm_list (msgqueues s) to) s;
                      let s = s\<lparr>msgqueues := keep_queue to q (msgqueues s)\<rparr>;
                      (q, s) \<leftarrow> flush_files p (qm_list (sndfilequeues s) to) s;
                      Some (s\<lparr>sndfilequeues := keep_queue to q (sndfilequeues s)\<rparr>) } }
      else Some s)"

section \<open>Certificates\<close>

text \<open>\<open>QString::replace(pattern, "")\<close>\<close>

function remove_str :: "string \<Rightarrow> string \<Rightarrow> string" where
  "remove_str pat s =
     (if pat \<noteq> [] \<and> prefix pat s then remove_str pat (drop (length pat) s)
      else case s of [] \<Rightarrow> [] | c # cs \<Rightarrow> c # remove_str pat cs)"
  by pat_completeness auto
termination
  by (relation "measure (\<lambda>(pat, s). length s)") (auto simp: prefix_def)

declare remove_str.simps [simp del]

definition strip_pem :: "string list" where
  "strip_pem = [''-----BEGIN CERTIFICATE-----'', ''-----END CERTIFICATE-----'',
     ''-----BEGIN X509 CERTIFICATE-----'', ''-----END X509 CERTIFICATE-----'']"

definition pem_body :: "string \<Rightarrow> string" where
  "pem_body pem = fold remove_str strip_pem pem"

text \<open>The result and the state. The decoding of base64 and the name in a certificate are what Qt
  and OpenSSL compute.\<close>

definition verify_peer_cert ::
  "(string \<Rightarrow> byte list) \<Rightarrow> (string \<Rightarrow> string) \<Rightarrow> pid \<Rightarrow> string \<Rightarrow> skynet \<Rightarrow> bool \<times> skynet" where
  "verify_peer_cert fromBase64 NameFromCertString peer_id cert_pem s =
     (let acc = account_id s;
          cs = (if \<not> Contacts_Exists acc peer_id (sk_contacts s) then Contacts_Add acc peer_id 0 (sk_contacts s)
                else sk_contacts s);
          stored_cert = Contacts_GetContactCert acc peer_id cs in
      if stored_cert = [] then
        (True, emit_signal ContactsUpdated
          (s\<lparr>sk_contacts := Contacts_SetContactName acc peer_id (NameFromCertString cert_pem)
              (Contacts_SetContactCert acc peer_id cert_pem cs)\<rparr>))
      else if fromBase64 (pem_body stored_cert) \<noteq> fromBase64 (pem_body cert_pem)
      then (False, emit_signal (CertificateForged peer_id cert_pem stored_cert) (s\<lparr>sk_contacts := cs\<rparr>))
      else (True, s\<lparr>sk_contacts := cs\<rparr>))"

section \<open>Callbacks\<close>

definition sky_file_control :: "pid \<Rightarrow> byte \<Rightarrow> byte \<Rightarrow> skynet \<Rightarrow> skynet" where
  "sky_file_control peer_id sender_cmd receiver_cmd s =
     (if sender_cmd \<noteq> PICA_PROTO_FILECONTROL_VOID \<and> receiver_cmd = PICA_PROTO_FILECONTROL_VOID then
        (if sender_cmd = PICA_PROTO_FILECONTROL_PAUSE
         then emit_signal (IncomingFilePaused peer_id) (active_filetransfers_down s)
         else if sender_cmd = PICA_PROTO_FILECONTROL_RESUME
         then emit_signal (IncomingFileResumed peer_id) (active_filetransfers_up s)
         else if sender_cmd = PICA_PROTO_FILECONTROL_CANCEL
         then emit_signal (IncomingFileCancelled peer_id) (active_filetransfers_down s)
         else if sender_cmd = PICA_PROTO_FILECONTROL_IOERROR
         then emit_signal (IncomingFileIoError peer_id) (active_filetransfers_down s)
         else s)
      else if sender_cmd = PICA_PROTO_FILECONTROL_VOID \<and> receiver_cmd \<noteq> PICA_PROTO_FILECONTROL_VOID then
        (if receiver_cmd = PICA_PROTO_FILECONTROL_PAUSE
         then emit_signal (OutgoingFilePaused peer_id) (active_filetransfers_down s)
         else if receiver_cmd = PICA_PROTO_FILECONTROL_RESUME
         then emit_signal (OutgoingFileResumed peer_id) (active_filetransfers_up s)
         else if receiver_cmd = PICA_PROTO_FILECONTROL_CANCEL
         then emit_signal (OutgoingFileCancelled peer_id) (active_filetransfers_down s)
         else if receiver_cmd = PICA_PROTO_FILECONTROL_IOERROR
         then emit_signal (OutgoingFileIoError peer_id) (active_filetransfers_down s)
         else s)
      else s)"

text \<open>The address that a node list entry is stored under is the text the library passes.\<close>

fun sky_callback :: "(byte list \<Rightarrow> string) \<Rightarrow> callback \<Rightarrow> skynet \<Rightarrow> skynet option" where
  "sky_callback txt (newmsg_cb i msg ty) s = Some (emit_signal (MessageReceived i msg) s)"
| "sky_callback txt (msgok_cb i) s = Some (emit_signal (Delivered i) s)"
| "sky_callback txt (c2c_established_cb i) s =
     flush_queues i (emit_signal (ConnectionStatusUpdated i) (reset_c2c_reconnect_timeout i s))"
| "sky_callback txt (c2c_failed_cb i) s = Some (emit_signal (ConnectionStatusUpdated i) (update_c2c_reconnect_timeout i s))"
| "sky_callback txt (notfound_cb i) s = Some (update_c2c_reconnect_timeout i s)"
| "sky_callback txt (c2c_closed_cb i err) s = Some (emit_signal (ConnectionStatusUpdated i) (emit_signal (c2cClosed i) s))"
| "sky_callback txt (nodelist_cb ty addr port) s =
     Some (s\<lparr>sk_nodes := Nodes_Add (sk_time s) \<lparr>nr_address = txt addr, nr_port = port\<rparr> (sk_nodes s)\<rparr>)"
| "sky_callback txt (accepted_file_cb i) s = Some (emit_signal (OutgoingFileRequestAccepted i) (active_filetransfers_up s))"
| "sky_callback txt (denied_file_cb i) s = Some (emit_signal (OutgoingFileRequestDenied i) s)"
| "sky_callback txt (file_progress_cb i sent received) s = Some (emit_signal (FileProgress i sent received) s)"
| "sky_callback txt (file_control_cb i sc rc) s = Some (sky_file_control i sc rc s)"
| "sky_callback txt (file_finished_cb i sending) s =
     Some (emit_signal (if sending then OutgoingFileFinished i else IncomingFileFinished i) (active_filetransfers_down s))"
| "sky_callback txt (c2n_established_cb c) s = nodelink_activated c s"
| "sky_callback txt (c2n_failed_cb c err) s = Some (nodelink_failed c err s)"
| "sky_callback txt (c2n_closed_cb c err) s = Some (nodelink_closed c s)"
| "sky_callback txt (multilogin_cb t addr port) s = Some (emit_signal (MultiloginMessageReceived t addr port) s)"
| "sky_callback txt (direct_c2c_established_cb i) s = Some (emit_signal (ConnectionStatusUpdated i) s)"
| "sky_callback txt (listener_error_cb l err) s = Some s"

text \<open>The callbacks that return a value: every call is accepted, a file is decided on later.\<close>

definition sky_accept_cb :: "pid \<Rightarrow> bool" where
  "sky_accept_cb caller_id = True"

definition sky_accept_file_cb :: "pid \<Rightarrow> u64 \<Rightarrow> byte list \<Rightarrow> skynet \<Rightarrow> int \<times> skynet" where
  "sky_accept_file_cb peer_id file_size filename s = (2, emit_signal (IncomingFileRequestReceived peer_id file_size filename) s)"

end
