(* ===== verification/SkyProps.thy ===== *)
theory SkyProps
  imports SkyNet ClientXfer
begin

text \<open>
  What the class \<open>SkyNet\<close> does with the library: messages written while a contact cannot be
  reached are handed over in order, delays between attempts stay within their bounds, a
  certificate is pinned; and what it does not do: it goes offline when another node fails, and
  loses count of paused file transfers.
\<close>

section \<open>Queued messages\<close>

fun SendMessages :: "pid \<Rightarrow> byte list list \<Rightarrow> skynet \<Rightarrow> skynet option" where
  "SendMessages to [] s = Some s"
| "SendMessages to (m # ms) s = do { s \<leftarrow> SendMessage to m s; SendMessages to ms s }"

lemma signal_simps [simp]:
  "sk_lib (emit_signal x s) = sk_lib s" "msgqueues (emit_signal x s) = msgqueues s" "sndfilequeues (emit_signal x s) = sndfilequeues s"
  "active_nodelink (emit_signal x s) = active_nodelink s" "self_aware (emit_signal x s) = self_aware s"
  "c2c_reconnect_timeouts (emit_signal x s) = c2c_reconnect_timeouts s" "sk_contacts (emit_signal x s) = sk_contacts s"
  "account_id (emit_signal x s) = account_id s" "signals (emit_signal x s) = signals s @ [x]"
  "connecting_nodes (emit_signal x s) = connecting_nodes s" "sk_nodes (emit_signal x s) = sk_nodes s"
  "active_filetransfers (emit_signal x s) = active_filetransfers s" "file_transfer_timer_id (emit_signal x s) = file_transfer_timer_id s"
  "sk_history (emit_signal x s) = sk_history s"
  by (simp_all add: emit_signal_def)

text \<open>Offline, a message goes to the end of the queue of its contact, and nothing else is queued.\<close>

lemma offline_send:
  assumes "active_nodelink s = None"
  shows "\<exists>s'. SendMessage to m s = Some s' \<and> active_nodelink s' = None \<and> sndfilequeues s' = sndfilequeues s
     \<and> (\<forall>i. qm_list (msgqueues s') i = (if i = to then qm_list (msgqueues s) to @ [m] else qm_list (msgqueues s) i))
     \<and> (\<forall>i. qm_contains (msgqueues s') i \<longleftrightarrow> i = to \<or> qm_contains (msgqueues s) i)"
proof -
  have "qm_list (msgqueues s) to = []" if "\<not> qm_contains (msgqueues s) to"
    using that by (simp add: qm_contains_map_of qm_list_def)
  then show ?thesis using assms
    by (auto simp: SendMessage_def find_active_chan_def sky_new_c2c_def qm.get_put qm.has_put)
qed

lemma offline_sends:
  assumes "active_nodelink s = None"
  shows "\<exists>s'. SendMessages to ms s = Some s' \<and> sndfilequeues s' = sndfilequeues s
     \<and> (\<forall>i. qm_list (msgqueues s') i = (if i = to then qm_list (msgqueues s) to @ ms else qm_list (msgqueues s) i))
     \<and> (\<forall>i. qm_contains (msgqueues s') i \<longleftrightarrow> i = to \<and> ms \<noteq> [] \<or> qm_contains (msgqueues s) i)"
  using assms
proof (induction ms arbitrary: s)
  case (Cons m ms)
  from offline_send [OF Cons.prems, of to m] obtain s1 where
    s1: "SendMessage to m s = Some s1" "active_nodelink s1 = None" "sndfilequeues s1 = sndfilequeues s"
     "\<And>i. qm_list (msgqueues s1) i = (if i = to then qm_list (msgqueues s) to @ [m] else qm_list (msgqueues s) i)"
     "\<And>i. qm_contains (msgqueues s1) i \<longleftrightarrow> i = to \<or> qm_contains (msgqueues s) i" by blast
  from Cons.IH [OF s1(2)] show ?case using s1 by auto
qed auto

definition queued_len :: "byte list list \<Rightarrow> nat" where
  "queued_len ms = sum_list (map (\<lambda>m. length m + 4) ms)"

lemma send_msg_room:
  assumes ok: "chan_ok p (length m + 4 + k) l" and c: "chans l p = Some c" and "length m \<le> PICA_PROTO_C2CMSG_MAXDATASIZE"
  obtains e w where "PICA_send_msg p m l = Some (PICA_OK, l\<lparr>lenv := e, chans := (chans l)(p \<mapsto> c\<lparr>ch_w := w\<rparr>)\<rparr>)"
    "pending w = pending (ch_w c) @ var_packet PICA_PROTO_MSGUTF8 m"
    "chan_ok p k (l\<lparr>lenv := e, chans := (chans l)(p \<mapsto> c\<lparr>ch_w := w\<rparr>)\<rparr>)"
proof -
  let ?n = "of_nat (length m) + 4 :: u32"
  have n: "unat ?n = length m + 4" using assms(3) by (simp add: unat_len4)
  from chan_send_ok [of p "put16 (length m) @ m" l c ?n PICA_PROTO_MSGUTF8] ok c n obtain e w where
    w: "chan_send p PICA_PROTO_MSGUTF8 ?n (put16 (length m) @ m) l
       = Some (True, l\<lparr>lenv := e, chans := (chans l)(p \<mapsto> c\<lparr>ch_w := w\<rparr>)\<rparr>)"
    "pending w = pending (ch_w c) @ packet PICA_PROTO_MSGUTF8 (put16 (length m) @ m)" "wbuf_ok w" "alloc_ok e = (\<lambda>_. True)"
    by (auto simp: chan_ok_def)
  have "length (pending w) = length (pending (ch_w c)) + length m + 4" by (simp add: w(2) length_packet)
  then have "unat (w_pos w) = unat (w_pos (ch_w c)) + length m + 4"
    using length_pending [OF w(3)] length_pending [of "ch_w c"] ok c by (simp add: chan_ok_def)
  then have "chan_ok p k (l\<lparr>lenv := e, chans := (chans l)(p \<mapsto> c\<lparr>ch_w := w\<rparr>)\<rparr>)"
    using w(3,4) ok c by (simp add: chan_ok_def)
  then show thesis using w assms(3) by (intro that [where e = e and w = w]) (simp_all add: PICA_send_msg_def var_packet_def)
qed

lemma flush_msgs_all:
  assumes "chan_ok p (queued_len ms) (sk_lib s)" "chans (sk_lib s) p = Some c"
    "\<forall>m\<in>set ms. length m \<le> PICA_PROTO_C2CMSG_MAXDATASIZE"
  shows "\<exists>l w. flush_msgs p to ms s = Some ([], s\<lparr>sk_lib := l\<rparr>) \<and> chans l = (chans (sk_lib s))(p \<mapsto> c\<lparr>ch_w := w\<rparr>)
     \<and> pending w = pending (ch_w c) @ concat (map (var_packet PICA_PROTO_MSGUTF8) ms)"
  using assms
proof (induction ms arbitrary: s c)
  case Nil
  then show ?case by (intro exI [of _ "sk_lib s"] exI [of _ "ch_w c"]) (auto simp: fun_upd_idem)
next
  case (Cons m ms)
  have "chan_ok p (length m + 4 + queued_len ms) (sk_lib s)" using Cons.prems(1) by (simp add: queued_len_def)
  moreover have "length m \<le> PICA_PROTO_C2CMSG_MAXDATASIZE" using Cons.prems(3) by simp
  ultimately obtain e w where
    w: "PICA_send_msg p m (sk_lib s) = Some (PICA_OK, (sk_lib s)\<lparr>lenv := e, chans := (chans (sk_lib s))(p \<mapsto> c\<lparr>ch_w := w\<rparr>)\<rparr>)"
    "pending w = pending (ch_w c) @ var_packet PICA_PROTO_MSGUTF8 m"
    "chan_ok p (queued_len ms) ((sk_lib s)\<lparr>lenv := e, chans := (chans (sk_lib s))(p \<mapsto> c\<lparr>ch_w := w\<rparr>)\<rparr>)"
    by (rule send_msg_room [OF _ Cons.prems(2)])
  let ?s = "s\<lparr>sk_lib := (sk_lib s)\<lparr>lenv := e, chans := (chans (sk_lib s))(p \<mapsto> c\<lparr>ch_w := w\<rparr>)\<rparr>\<rparr>"
  have "\<exists>l w'. flush_msgs p to ms ?s = Some ([], ?s\<lparr>sk_lib := l\<rparr>) \<and>
      chans l = (chans (sk_lib ?s))(p \<mapsto> (c\<lparr>ch_w := w\<rparr>)\<lparr>ch_w := w'\<rparr>) \<and>
      pending w' = pending (ch_w (c\<lparr>ch_w := w\<rparr>)) @ concat (map (var_packet PICA_PROTO_MSGUTF8) ms)"
    by (rule Cons.IH) (use w(3) Cons.prems(3) in simp_all)
  then obtain l w' where
    "flush_msgs p to ms ?s = Some ([], ?s\<lparr>sk_lib := l\<rparr>)"
    "chans l = (chans (sk_lib ?s))(p \<mapsto> (c\<lparr>ch_w := w\<rparr>)\<lparr>ch_w := w'\<rparr>)"
    "pending w' = pending (ch_w (c\<lparr>ch_w := w\<rparr>)) @ concat (map (var_packet PICA_PROTO_MSGUTF8) ms)" by blast
  then show ?case using w(1,2) by (intro exI [of _ l] exI [of _ w']) simp
qed

section \<open>Delays\<close>

text \<open>The operations of the class, in any order.\<close>

inductive sky_step :: "skynet \<Rightarrow> skynet \<Rightarrow> bool" where
  step_callback: "sky_callback txt cb s = Some s' \<Longrightarrow> sky_step s s'"
| step_message: "SendMessage to m s = Some s' \<Longrightarrow> sky_step s s'"
| step_file: "SendFile to f s = Some s' \<Longrightarrow> sky_step s s'"
| step_accept: "AcceptFile i f s = Some s' \<Longrightarrow> sky_step s s'"
| step_deny: "DenyFile i s = Some s' \<Longrightarrow> sky_step s s'"
| step_pause: "PauseFile i b s = Some s' \<Longrightarrow> sky_step s s'"
| step_resume: "ResumeFile i b s = Some s' \<Longrightarrow> sky_step s s'"
| step_cancel: "CancelFile i b s = Some s' \<Longrightarrow> sky_step s s'"
| step_reconnect: "reconnect_c2c s = Some s' \<Longrightarrow> sky_step s s'"
| step_join: "Join ji s = Some s' \<Longrightarrow> sky_step s s'"
| step_exit: "sky_exit s = Some s' \<Longrightarrow> sky_step s s'"
| step_multilogin: "multilogin_event s = Some s' \<Longrightarrow> sky_step s s'"
| step_close: "close_connected s = Some s' \<Longrightarrow> sky_step s s'"
| step_verify: "sky_step s (snd (verify_peer_cert b64 nm i pem s))"
| step_time: "sky_step s (s\<lparr>sk_time := t\<rparr>)"
| step_library: "sky_step s (s\<lparr>sk_lib := l\<rparr>)"

abbreviation delays :: "skynet \<Rightarrow> (pid \<times> u32) list" where
  "delays \<equiv> c2c_reconnect_timeouts"

text \<open>What most operations leave alone: the delays, the contacts and the account.\<close>

definition kept :: "skynet \<Rightarrow> (pid \<times> u32) list \<times> contactrow list \<times> pid" where
  "kept s = (delays s, sk_contacts s, account_id s)"

lemma kept_simps [simp]:
  "kept (emit_signal x s) = kept s" "kept (s\<lparr>sk_lib := l\<rparr>) = kept s" "kept (s\<lparr>connecting_nodes := ns\<rparr>) = kept s"
  "kept (s\<lparr>connected_nodes_to_close := cl\<rparr>) = kept s" "kept (s\<lparr>self_aware := b\<rparr>) = kept s"
  "kept (s\<lparr>active_nodelink := a\<rparr>) = kept s" "kept (s\<lparr>sk_acc := ac\<rparr>) = kept s" "kept (s\<lparr>sk_listener := ls\<rparr>) = kept s"
  "kept (s\<lparr>msgqueues := q\<rparr>) = kept s" "kept (s\<lparr>sndfilequeues := q\<rparr>) = kept s" "kept (s\<lparr>timers := ts\<rparr>) = kept s"
  "kept (s\<lparr>next_timer := i\<rparr>) = kept s" "kept (s\<lparr>nodelink_reconnect_timer_id := i\<rparr>) = kept s"
  "kept (s\<lparr>file_transfer_timer_id := i\<rparr>) = kept s" "kept (s\<lparr>active_filetransfers := n\<rparr>) = kept s"
  "kept (s\<lparr>sk_nodes := rs\<rparr>) = kept s" "kept (s\<lparr>sk_history := h\<rparr>) = kept s" "kept (s\<lparr>sk_time := t\<rparr>) = kept s"
  by (simp_all add: kept_def emit_signal_def)

named_theorems same_kept

lemma kept_new_c2c [same_kept]: "sky_new_c2c i s = Some (r, s') \<Longrightarrow> kept s' = kept s"
  by (auto simp: sky_new_c2c_def split: option.splits)

lemma kept_timers [same_kept]:
  "kept (active_filetransfers_up s) = kept s" "kept (active_filetransfers_down s) = kept s"
  "kept (active_filetransfers_reset s) = kept s" "kept (killTimer j s) = kept s" "kept (lose_awareness s) = kept s"
  "kept (node_status_changed nr b s) = kept s" "kept (sky_file_control i x y s) = kept s"
  by (simp_all add: active_filetransfers_up_def active_filetransfers_down_def active_filetransfers_reset_def stop_file_timer_def
      killTimer_def startTimer_def lose_awareness_def node_status_changed_def sky_file_control_def Let_def)

lemma kept_reconnect_loop: "reconnect_loop is s = Some s' \<Longrightarrow> kept s' = kept s"
  by (induction "is" s rule: reconnect_loop.induct) (auto simp: same_kept split: option.splits if_splits)

lemma kept_reconnect [same_kept]: "reconnect_c2c s = Some s' \<Longrightarrow> kept s' = kept s"
  by (auto simp: reconnect_c2c_def kept_reconnect_loop split: if_splits)

lemma kept_flush_msgs: "flush_msgs p to ms s = Some (q, s') \<Longrightarrow> kept s' = kept s"
  by (induction p to ms s rule: flush_msgs.induct) (auto simp: Let_def split: if_splits)

lemma kept_flush_files: "flush_files p fs s = Some (q, s') \<Longrightarrow> kept s' = kept s"
  by (induction p fs s rule: flush_files.induct) (auto simp: Let_def split: if_splits)

lemma kept_flush [same_kept]: "flush_queues to s = Some s' \<Longrightarrow> kept s' = kept s"
  by (auto simp: flush_queues_def split: if_splits option.splits dest!: kept_flush_msgs kept_flush_files)

lemma kept_on_chan [same_kept]: "on_chan f i s = Some (r, s') \<Longrightarrow> kept s' = kept s"
  by (auto simp: on_chan_def split: option.splits)

lemma kept_send [same_kept]:
  "SendMessage to m s = Some s' \<Longrightarrow> kept s' = kept s" "SendFile to m s = Some s' \<Longrightarrow> kept s' = kept s"
  by (auto simp: SendMessage_def SendFile_def Let_def split: option.splits if_splits dest!: kept_new_c2c)

lemma kept_join_nodes: "join_nodes cfg ml nrs s = Some s' \<Longrightarrow> kept s' = kept s"
  by (induction nrs arbitrary: s) (fastforce simp: same_kept Let_def split: option.splits if_splits)+

lemma kept_join [same_kept]: "Join ji s = Some s' \<Longrightarrow> kept s' = kept s"
  by (auto simp: Join_def join_listener_def Let_def split: if_splits prod.splits dest!: kept_join_nodes)

lemma kept_exit [same_kept]: "sky_exit s = Some s' \<Longrightarrow> kept s' = kept s"
  by (auto simp: sky_exit_def same_kept split: option.splits if_splits)

definition delays_ok :: "skynet \<Rightarrow> bool" where
  "delays_ok s \<longleftrightarrow> (\<forall>i t. map_of (delays s) i = Some t \<longrightarrow> (\<exists>k\<le>6. t = 2 ^ k))"

lemma double_ok:
  assumes "k \<le> (6::nat)" "t = (2::u32) ^ k"
  shows "\<exists>j\<le>6. (if t * 2 \<ge> 64 then 64 else t * 2) = 2 ^ j"
proof -
  have "k = 0 \<or> k = 1 \<or> k = 2 \<or> k = 3 \<or> k = 4 \<or> k = 5 \<or> k = 6" using assms(1) by linarith
  then show ?thesis unfolding assms(2)
    by (elim disjE) (auto intro: exI [of _ 1] exI [of _ 2] exI [of _ 3] exI [of _ 4] exI [of _ 5] exI [of _ 6])
qed

lemma delays_ok_update:
  assumes "delays_ok s"
  shows "delays_ok (update_c2c_reconnect_timeout i s)"
proof -
  let ?t = "case map_of (delays s) i of None \<Rightarrow> 1 | Some t \<Rightarrow> t * 2"
  have "\<exists>j\<le>6. (if ?t \<ge> 64 then 64 else ?t) = 2 ^ j"
  proof (cases "map_of (delays s) i")
    case None
    then show ?thesis by (intro exI [of _ 0]) (simp add: word_le_nat_alt)
  next
    case (Some t)
    then obtain k where "k \<le> 6" "t = 2 ^ k" using assms unfolding delays_ok_def by blast
    from double_ok [OF this] show ?thesis unfolding Some option.case .
  qed
  then show ?thesis using assms
    unfolding delays_ok_def update_c2c_reconnect_timeout_def Let_def by (auto simp: map_of_qm_insert)
qed

text \<open>How a step changes delays and contacts.\<close>

definition delays_change :: "skynet \<Rightarrow> skynet \<Rightarrow> bool" where
  "delays_change s s' \<longleftrightarrow> account_id s' = account_id s \<and> sk_contacts s' = sk_contacts s \<and>
     (delays s' = delays s \<or> delays s' = [] \<or>
      (\<exists>i. delays s' = qm_remove i (delays s) \<or> delays s' = delays (update_c2c_reconnect_timeout i s)))"

definition contacts_change :: "skynet \<Rightarrow> skynet \<Rightarrow> bool" where
  "contacts_change s s' \<longleftrightarrow> account_id s' = account_id s \<and> delays s' = delays s \<and>
     (\<exists>b64 nm i pem. sk_contacts s' = sk_contacts (snd (verify_peer_cert b64 nm i pem s)))"

lemma kept_change: "kept s' = kept s \<Longrightarrow> delays_change s s'"
  by (simp add: kept_def delays_change_def)

lemma update_change: "delays_change s (update_c2c_reconnect_timeout i s)"
proof -
  have "sk_contacts (update_c2c_reconnect_timeout i s) = sk_contacts s" "account_id (update_c2c_reconnect_timeout i s) = account_id s"
    by (simp_all add: update_c2c_reconnect_timeout_def Let_def)
  then show ?thesis unfolding delays_change_def by blast
qed

lemma signal_change: "delays_change s (emit_signal x s') = delays_change s s'"
  by (simp add: delays_change_def)

lemma kept_activated: "nodelink_activated c s = Some s' \<Longrightarrow> delays_change s s'"
proof -
  assume *: "nodelink_activated c s = Some s'"
  let ?s = "let (r, l) = take_connecting c (connecting_nodes s) in
     case r of None \<Rightarrow> s | Some nr \<Rightarrow> (node_status_changed nr True s)\<lparr>connecting_nodes := l\<rparr>"
  have "kept ?s = kept s" by (simp add: same_kept split: prod.split option.split)
  moreover have "kept s' = kept ?s \<or> kept s' = kept (?s\<lparr>c2c_reconnect_timeouts := []\<rparr>)"
    using * by (auto simp: nodelink_activated_def Let_def kept_def emit_signal_def split: prod.splits if_splits
        dest!: kept_reconnect [unfolded kept_def])
  ultimately show ?thesis by (auto simp: kept_def delays_change_def)
qed

lemma callback_change:
  assumes "sky_callback tx cb s = Some s'"
  shows "delays_change s s'"
proof (cases cb)
  case (c2c_established_cb i)
  with assms have "kept s' = kept (reset_c2c_reconnect_timeout i s)" by (auto dest!: kept_flush)
  then show ?thesis by (auto simp: kept_def delays_change_def reset_c2c_reconnect_timeout_def)
next
  case (c2c_failed_cb i)
  with assms show ?thesis by (auto simp: signal_change update_change)
next
  case (notfound_cb i)
  with assms show ?thesis by (auto simp: signal_change update_change)
next
  case (c2n_failed_cb c err)
  with assms show ?thesis
    by (auto intro!: kept_change simp: nodelink_failed_def same_kept Let_def split: prod.splits option.splits)
next
  case (c2n_closed_cb c err)
  with assms show ?thesis by (auto intro!: kept_change simp: nodelink_closed_def same_kept)
qed (use assms in \<open>auto simp: same_kept intro: kept_change kept_activated\<close>)

lemma sky_step_change: "sky_step s s' \<Longrightarrow> delays_change s s' \<or> contacts_change s s'"
proof (induction rule: sky_step.induct)
  case (step_callback tx cb s s')
  then show ?case using callback_change by blast
next
  case (step_multilogin s s')
  then have "kept s' = kept s" by (auto simp: multilogin_event_def Let_def split: if_splits dest!: kept_exit)
  then show ?case using kept_change by blast
next
  case (step_verify s b64 nm i pem)
  have "delays (snd (verify_peer_cert b64 nm i pem s)) = delays s" "account_id (snd (verify_peer_cert b64 nm i pem s)) = account_id s"
    by (simp_all add: verify_peer_cert_def Let_def)
  then have "contacts_change s (snd (verify_peer_cert b64 nm i pem s))" unfolding contacts_change_def by blast
  then show ?case ..
qed (auto intro!: disjI1 kept_change simp: AcceptFile_def DenyFile_def PauseFile_def ResumeFile_def CancelFile_def
    close_connected_def same_kept dest!: kept_send kept_on_chan kept_reconnect kept_join kept_exit)

lemma sky_step_delays_ok:
  assumes "sky_step s s'" "delays_ok s"
  shows "delays_ok s'"
  using sky_step_change [OF assms(1)] assms(2) delays_ok_update [OF assms(2)]
  unfolding delays_change_def contacts_change_def by (auto simp: delays_ok_def map_of_qm_remove split: if_splits)

section \<open>Stored certificates\<close>

lemma filter_contact_map:
  assumes "\<And>r. contact_is acc i (f r) = contact_is acc i r"
  shows "filter (contact_is acc i) (map f rs) = map f (filter (contact_is acc i) rs)"
  by (induction rs) (simp_all add: assms)

lemma first_text_map: "(\<And>r. r \<in> set rs \<Longrightarrow> g (f r) = g r) \<Longrightarrow> first_text g (map f rs) = first_text g rs"
  by (cases rs) (simp_all add: first_text_def)

abbreviation stored_cert :: "pid \<Rightarrow> skynet \<Rightarrow> string" where
  "stored_cert i s \<equiv> Contacts_GetContactCert (account_id s) i (sk_contacts s)"

lemma GetContactCert_append:
  "Contacts_GetContactCert acc i rs \<noteq> [] \<Longrightarrow> Contacts_GetContactCert acc i (rs @ rs') = Contacts_GetContactCert acc i rs"
  by (cases "filter (contact_is acc i) rs") (simp_all add: Contacts_GetContactCert_def first_text_def)

lemma GetContactCert_Type:
  "Contacts_GetContactCert acc i (Contacts_SetContactType acc j ty rs) = Contacts_GetContactCert acc i rs"
  unfolding Contacts_GetContactCert_def Contacts_SetContactType_def
  by (subst filter_contact_map) (auto simp: contact_is_def intro: first_text_map)

lemma GetContactCert_Add:
  "Contacts_GetContactCert acc i rs \<noteq> [] \<Longrightarrow> Contacts_GetContactCert acc i (Contacts_Add acc j ty rs) = Contacts_GetContactCert acc i rs"
  by (simp add: Contacts_Add_def GetContactCert_append GetContactCert_Type)

lemma GetContactCert_Name:
  "Contacts_GetContactCert acc i (Contacts_SetContactName acc j n rs) = Contacts_GetContactCert acc i rs"
  unfolding Contacts_GetContactCert_def Contacts_SetContactName_def
  by (subst filter_contact_map) (auto simp: contact_is_def intro: first_text_map)

lemma GetContactCert_Set_other:
  "i \<noteq> j \<Longrightarrow> Contacts_GetContactCert acc i (Contacts_SetContactCert acc j pem rs) = Contacts_GetContactCert acc i rs"
  unfolding Contacts_GetContactCert_def Contacts_SetContactCert_def
  by (subst filter_contact_map) (auto simp: contact_is_def intro!: first_text_map)

lemma GetContactCert_Set:
  assumes "filter (contact_is acc i) rs \<noteq> []"
  shows "Contacts_GetContactCert acc i (Contacts_SetContactCert acc i pem rs) = pem"
proof -
  obtain x xs where x: "filter (contact_is acc i) rs = x # xs" using assms by (cases "filter (contact_is acc i) rs") auto
  then have "contact_is acc i x" by (metis filter_eq_Cons_iff)
  then show ?thesis unfolding Contacts_GetContactCert_def Contacts_SetContactCert_def
    by (subst filter_contact_map) (auto simp: x first_text_def contact_is_def)
qed

lemma contact_added: "filter (contact_is acc i) (if \<not> Contacts_Exists acc i rs then Contacts_Add acc i ty rs else rs) \<noteq> []"
  by (auto simp: Contacts_Exists_def Contacts_Add_def contact_is_def)

lemma verify_account [simp]: "account_id (snd (verify_peer_cert b64 nm i pem s)) = account_id s"
  by (simp add: verify_peer_cert_def Let_def)

lemma empty_cert_added:
  "Contacts_GetContactCert acc i rs = [] \<Longrightarrow> Contacts_GetContactCert acc i (if \<not> Contacts_Exists acc i rs then Contacts_Add acc i ty rs else rs) = []"
  by (cases "filter (contact_is acc i) rs")
    (simp_all add: Contacts_GetContactCert_def Contacts_Add_def first_text_def contact_is_def)

lemma verify_first:
  assumes "stored_cert i s = []"
  shows "fst (verify_peer_cert b64 nm i pem s)" "stored_cert i (snd (verify_peer_cert b64 nm i pem s)) = pem"
  using empty_cert_added [OF assms, of 0] contact_added [of "account_id s" i "sk_contacts s" 0]
  by (simp_all add: verify_peer_cert_def Let_def GetContactCert_Name GetContactCert_Set)

lemma verify_next:
  assumes "stored_cert i s \<noteq> []"
  shows "fst (verify_peer_cert b64 nm i pem s) \<longleftrightarrow> b64 (pem_body (stored_cert i s)) = b64 (pem_body pem)"
    "b64 (pem_body (stored_cert i s)) \<noteq> b64 (pem_body pem) \<Longrightarrow>
       signals (snd (verify_peer_cert b64 nm i pem s)) = signals s @ [CertificateForged i pem (stored_cert i s)]"
  using GetContactCert_Add [OF assms, of i 0] assms by (simp_all add: verify_peer_cert_def Let_def)

lemma verify_keeps:
  assumes "stored_cert i s \<noteq> []"
  shows "Contacts_GetContactCert (account_id s) i (sk_contacts (snd (verify_peer_cert b64 nm j pem s))) = stored_cert i s"
  using GetContactCert_Add [OF assms, of j 0] assms
  by (cases "i = j") (auto simp: verify_peer_cert_def Let_def GetContactCert_Name GetContactCert_Set_other)

lemma sky_step_cert:
  assumes "sky_step s s'" "stored_cert i s \<noteq> []"
  shows "stored_cert i s' = stored_cert i s"
  using sky_step_change [OF assms(1)] verify_keeps [OF assms(2)]
  unfolding delays_change_def contacts_change_def by auto

section \<open>Going offline by accident\<close>

definition links :: "skynet \<Rightarrow> (nat \<times> NodeRecord) list \<times> bool \<times> nat option" where
  "links s = (connecting_nodes s, self_aware s, active_nodelink s)"

lemma links_new_c2c: "sky_new_c2c i s = Some (r, s') \<Longrightarrow> links s' = links s"
  by (auto simp: sky_new_c2c_def links_def split: option.splits)

lemma links_reconnect_loop: "reconnect_loop is s = Some s' \<Longrightarrow> links s' = links s"
  by (induction "is" s rule: reconnect_loop.induct) (auto simp: links_new_c2c split: option.splits if_splits)

lemma links_reconnect: "reconnect_c2c s = Some s' \<Longrightarrow> links s' = links s"
  by (auto simp: reconnect_c2c_def split: if_splits dest!: links_reconnect_loop)

text \<open>A transfer that the peer pauses and then cancels is counted down twice, so the counter of
  running transfers wraps; the next transfer brings it to zero, and its timer is not started.\<close>

lemma pause_cancel_wraps:
  assumes "active_filetransfers s = 1"
    and "s' = sky_file_control i PICA_PROTO_FILECONTROL_CANCEL PICA_PROTO_FILECONTROL_VOID
           (sky_file_control i PICA_PROTO_FILECONTROL_PAUSE PICA_PROTO_FILECONTROL_VOID s)"
  shows "active_filetransfers s' = 0xFFFFFFFF \<and> active_filetransfers (active_filetransfers_up s') = 0 \<and>
    file_transfer_timer_id (active_filetransfers_up s') = 0"
  using assms(1) unfolding assms(2)
  by (auto simp: sky_file_control_def active_filetransfers_down_def active_filetransfers_up_def stop_file_timer_def killTimer_def Let_def)

section \<open>Properties\<close>

text \<open>C8. Messages written while the client is offline are not lost and not reordered. Whatever
  happens in between, as long as the queues are kept: when a channel to the contact becomes
  active, the library gets exactly the messages that wait for this contact, each as one packet
  behind what the channel already had to send, the ones written offline last and in the order
  they were written; then the queue of this contact is gone, and no other queue has changed.\<close>

theorem offline_messages_flushed:
  assumes "active_nodelink s = None" "SendMessages to ms s = Some s1" "ms \<noteq> []"
    and "msgqueues s2 = msgqueues s1" "sndfilequeues s2 = []" "self_aware s2"
    and "find_active_chan to s2 = Some (Some p)" "chans (sk_lib s2) p = Some c"
    and "all = qm_list (msgqueues s) to @ ms"
    and "chan_ok p (queued_len all) (sk_lib s2)" "\<forall>m\<in>set all. length m \<le> PICA_PROTO_C2CMSG_MAXDATASIZE"
  shows "\<exists>s3 c'. sky_callback txt (c2c_established_cb to) s2 = Some s3 \<and> chans (sk_lib s3) p = Some c' \<and>
     pending (ch_w c') = pending (ch_w c) @ concat (map (var_packet PICA_PROTO_MSGUTF8) all) \<and>
     \<not> qm_contains (msgqueues s3) to \<and>
     (\<forall>i. i \<noteq> to \<longrightarrow> qm_list (msgqueues s3) i = qm_list (msgqueues s) i) \<and>
     signals s3 = signals s2 @ [ConnectionStatusUpdated to]"
proof -
  from offline_sends [OF assms(1), of to ms] assms(2,3) have
    q: "\<And>i. qm_list (msgqueues s1) i = (if i = to then all else qm_list (msgqueues s) i)" "qm_contains (msgqueues s1) to"
    unfolding assms(9) by auto
  let ?s = "emit_signal (ConnectionStatusUpdated to) (reset_c2c_reconnect_timeout to s2)"
  have same: "sk_lib ?s = sk_lib s2" "msgqueues ?s = msgqueues s1" "sndfilequeues ?s = []" "self_aware ?s"
    "find_active_chan to ?s = Some (Some p)" "signals ?s = signals s2 @ [ConnectionStatusUpdated to]"
    using assms(4-7) by (simp_all add: reset_c2c_reconnect_timeout_def find_active_chan_def cong: option.case_cong)
  from flush_msgs_all [of p all ?s c to] assms(8,10,11) same(1) obtain l w where
    f: "flush_msgs p to all ?s = Some ([], ?s\<lparr>sk_lib := l\<rparr>)" "chans l = (chans (sk_lib s2))(p \<mapsto> c\<lparr>ch_w := w\<rparr>)"
    "pending w = pending (ch_w c) @ concat (map (var_packet PICA_PROTO_MSGUTF8) all)" by auto
  let ?s3 = "?s\<lparr>sk_lib := l, msgqueues := qm_remove to (msgqueues s1), sndfilequeues := qm_remove to []\<rparr>"
  have "flush_queues to ?s = Some ?s3"
    using q same f(1) by (simp add: flush_queues_def keep_queue_def qm_list_def [of "[]"])
  then have "sky_callback txt (c2c_established_cb to) s2 = Some ?s3" by simp
  moreover have "chans (sk_lib ?s3) p = Some (c\<lparr>ch_w := w\<rparr>)" using f(2) by simp
  ultimately show ?thesis
    using f(3) q(1) same(6) by (intro exI [of _ ?s3] exI [of _ "c\<lparr>ch_w := w\<rparr>"]) (simp add: qm.get_del qm.has_del)
qed


text \<open>C22. Delays between attempts to reach a contact stay within their bounds: from the
  start of the client on, after any sequence of operations and callbacks every delay is a power of two of
  at most 64 seconds. In particular none is zero, so the remainder by it that decides on the next
  attempt is defined.\<close>

theorem reconnect_delay_bounds:
  assumes "sky_step\<^sup>*\<^sup>* (new_SkyNet g l ns cs h acc t0) s'" "map_of (c2c_reconnect_timeouts s') i = Some t"
  shows "\<exists>k\<le>6. t = 2 ^ k"
proof -
  have "delays_ok (new_SkyNet g l ns cs h acc t0)" by (simp add: delays_ok_def new_SkyNet_def startTimer_def)
  with assms(1) have "delays_ok s'" by (induction rule: rtranclp_induct) (auto intro: sky_step_delays_ok)
  then show ?thesis using assms(2) unfolding delays_ok_def by blast
qed


text \<open>C34. A node that fails takes the client offline although another one is connected. Two nodes
  are tried; the first answers and the client is online with it. When the attempt on
  the second one fails afterwards, the client declares itself offline: the connection to the
  first node stays open, but no later round of the event loop serves it.\<close>

theorem failed_node_takes_offline:
  assumes "connecting_nodes s = [(a, na), (b, nb)]" "a \<noteq> b" "\<not> self_aware s"
    and "sky_callback tx (c2n_established_cb a) s = Some s1"
  shows "self_aware s1 \<and> active_nodelink s1 = Some a \<and> round_links s1 = [b, a] \<and>
    (\<exists>s2. sky_callback tx (c2n_failed_cb b err) s1 = Some s2 \<and> \<not> self_aware s2 \<and> active_nodelink s2 = Some a \<and>
       sk_lib s2 = sk_lib s1 \<and> round_links s2 = [] \<and> last (signals s2) = LostSelfAwareness)"
proof -
  have "connecting_nodes s1 = [(b, nb)] \<and> self_aware s1 \<and> active_nodelink s1 = Some a"
    using assms by (auto simp: nodelink_activated_def node_status_changed_def links_def Let_def split: if_splits
        dest!: links_reconnect)
  then show ?thesis
    by (simp add: round_links_def nodelink_failed_def lose_awareness_def startTimer_def node_status_changed_def Let_def)
qed

section \<open>Examples\<close>

definition demo_sky :: skynet where
  "demo_sky = (new_SkyNet 0 demo_active [] [] \<lparr>h_rows = [], h_next = 0\<rparr> [3] 0)
     \<lparr>connecting_nodes := [(0, \<lparr>nr_address = ''a'', nr_port = 1\<rparr>), (9, \<lparr>nr_address = ''b'', nr_port = 2\<rparr>)]\<rparr>"

lemmas demo_sky_eval = demo_sky_def new_SkyNet_def startTimer_def Let_def

text \<open>Until a first node has failed, the timer of the next attempt to join is whatever the memory
  held; the timer of the channels may be taken for it.\<close>

lemma unset_timer_joins:
  "timerEvent ev ji 2 (new_SkyNet 2 l ns cs h acc t) = Join ji (killTimer 2 (new_SkyNet 2 l ns cs h acc t))"
  by (simp add: timerEvent_def new_SkyNet_def startTimer_def)

theorem offline_messages_flushed_witness:
  "\<exists>s1 s3 c'. SendMessages demo_id [[72], [105]] demo_sky = Some s1 \<and>
     sky_callback (\<lambda>_. []) (c2c_established_cb demo_id) (s1\<lparr>self_aware := True, active_nodelink := Some 0\<rparr>) = Some s3 \<and>
     chans (sk_lib s3) 1 = Some c' \<and>
     pending (ch_w c') = pending (ch_w demo_chan) @ concat (map (var_packet PICA_PROTO_MSGUTF8) [[72], [105]])"
proof -
  obtain s1 where s1: "SendMessages demo_id [[72], [105]] demo_sky = Some s1" "sk_lib s1 = demo_active" "sndfilequeues s1 = []"
    by (simp add: demo_sky_eval SendMessage_def find_active_chan_def sky_new_c2c_def qm_contains_def)
  let ?s2 = "s1\<lparr>self_aware := True, active_nodelink := Some 0\<rparr>"
  have "find_active_chan demo_id ?s2 = Some (Some 1)"
    using s1(2) by (simp add: find_active_chan_def demo_active_def demo_conn_def demo_chan_def new_c2c_def)
  with offline_messages_flushed [of demo_sky demo_id "[[72], [105]]" s1 ?s2 1 demo_chan "[[72], [105]]" "\<lambda>_. []"] s1 demo_active_ok
  show ?thesis by (auto simp: demo_sky_eval qm_list_def queued_len_def)
qed

theorem reconnect_delay_bounds_witness:
  "\<exists>s1 s2 k. sky_callback (\<lambda>_. []) (notfound_cb [5]) (new_SkyNet 0 demo_active [] [] \<lparr>h_rows = [], h_next = 0\<rparr> [3] 0) = Some s1 \<and>
     sky_callback (\<lambda>_. []) (c2c_failed_cb [5]) s1 = Some s2 \<and>
     map_of (c2c_reconnect_timeouts s2) [5] = Some 2 \<and> k \<le> 6 \<and> (2 :: u32) = 2 ^ k"
proof -
  let ?s0 = "new_SkyNet 0 demo_active [] [] \<lparr>h_rows = [], h_next = 0\<rparr> [3] 0"
  let ?s1 = "update_c2c_reconnect_timeout [5] ?s0"
  let ?s2 = "emit_signal (ConnectionStatusUpdated [5]) (update_c2c_reconnect_timeout [5] ?s1)"
  have "sky_step ?s0 ?s1" "sky_step ?s1 ?s2"
    by (auto intro: step_callback [where cb = "notfound_cb [5]"] step_callback [where cb = "c2c_failed_cb [5]"])
  then have "sky_step\<^sup>*\<^sup>* ?s0 ?s2" by auto
  moreover have m: "map_of (c2c_reconnect_timeouts ?s2) [5] = Some 2"
    by (simp add: update_c2c_reconnect_timeout_def new_SkyNet_def startTimer_def word_le_nat_alt)
  ultimately obtain k where "k \<le> (6 :: nat)" "(2 :: u32) = 2 ^ k" using reconnect_delay_bounds by blast
  then show ?thesis using m by (intro exI [of _ ?s1] exI [of _ ?s2] exI [of _ k]) simp
qed


theorem failed_node_takes_offline_witness:
  "\<exists>s1 s2. sky_callback (\<lambda>_. []) (c2n_established_cb 0) demo_sky = Some s1 \<and> self_aware s1 \<and>
     sky_callback (\<lambda>_. []) (c2n_failed_cb 9 PICA_ERRPROTOOLD) s1 = Some s2 \<and> \<not> self_aware s2 \<and> active_nodelink s2 = Some 0"
proof -
  obtain s1 where "sky_callback (\<lambda>_. []) (c2n_established_cb 0) demo_sky = Some s1"
    by (simp add: demo_sky_eval nodelink_activated_def node_status_changed_def reconnect_c2c_def emit_signal_def
        History_GetUndeliveredMessages_def)
  moreover have "connecting_nodes demo_sky = [(0, \<lparr>nr_address = ''a'', nr_port = 1\<rparr>), (9, \<lparr>nr_address = ''b'', nr_port = 2\<rparr>)]"
    "\<not> self_aware demo_sky" by (simp_all add: demo_sky_eval)
  ultimately show ?thesis using failed_node_takes_offline [where a = 0 and b = 9 and s = demo_sky and err = PICA_ERRPROTOOLD]
    by fastforce
qed

end
