(* ===== verification/MsgRouter.thy ===== *)
theory MsgRouter
  imports SkyProps
begin

text \<open>
  The user's side of messages: \<open>msguirouter.cpp\<close>, which connects \<open>SkyNet\<close> with the chat windows, and
  what \<open>chatwindow.cpp\<close> does with the history. What is drawn is left out; of the positions of
  messages without a delivery mark their number is kept. Messages are octets; that a
  message consists of spaces only is decided by Qt and is an argument.
\<close>

section \<open>State\<close>

record router =
  r_sky :: skynet
  chatwindows :: "pid \<rightharpoonup> nat"
  connstatus :: "pid \<rightharpoonup> string"
  blinkqueue :: "pid list"
  blinking :: bool
  r_notes :: "(string \<times> bool) list"

section \<open>Chat windows\<close>

text \<open>\<open>put_message\<close>: a message of the user is drawn without a mark.\<close>

definition put_message :: "pid \<Rightarrow> bool \<Rightarrow> router \<Rightarrow> router option" where
  "put_message i is_me r =
     do { n \<leftarrow> chatwindows r i;
          Some (if is_me then r\<lparr>chatwindows := (chatwindows r)(i \<mapsto> Suc n)\<rparr> else r) }"

definition on_history :: "(pid \<Rightarrow> history \<Rightarrow> history) \<Rightarrow> router \<Rightarrow> router" where
  "on_history f r = r\<lparr>r_sky := (r_sky r)\<lparr>sk_history := f (account_id (r_sky r)) (sk_history (r_sky r))\<rparr>\<rparr>"

definition cw_msg_from_peer :: "pid \<Rightarrow> byte list \<Rightarrow> router \<Rightarrow> router option" where
  "cw_msg_from_peer i msg r =
     do { r \<leftarrow> put_message i False r;
          Some (on_history (\<lambda>me. History_Add (sk_time (r_sky r)) me i msg False) r) }"

definition cw_msg_delivered :: "pid \<Rightarrow> router \<Rightarrow> router option" where
  "cw_msg_delivered i r =
     do { n \<leftarrow> chatwindows r i;
          let my_id = account_id (r_sky r);
          r \<leftarrow> (if n = 0 \<and> qm_list (History_GetUndeliveredMessages my_id (sk_history (r_sky r))) my_id \<noteq> []
                then put_message i True r else Some r);
          n \<leftarrow> chatwindows r i;
          let r = (if n \<noteq> 0 then r\<lparr>chatwindows := (chatwindows r)(i \<mapsto> n - 1)\<rparr> else r);
          Some (on_history (\<lambda>me. History_SetDelivered me i) r) }"

section \<open>The router\<close>

definition stop_blinking :: "router \<Rightarrow> router" where
  "stop_blinking r = (if blinkqueue r = [] then r\<lparr>blinking := False\<rparr> else r)"

definition trayicon_dclick :: "bool \<Rightarrow> router \<Rightarrow> router" where
  "trayicon_dclick has_mainwindow r =
     (if \<not> has_mainwindow then r
      else case blinkqueue r of
        [] \<Rightarrow> r
      | _ # q \<Rightarrow> stop_blinking (r\<lparr>blinkqueue := q\<rparr>))"

definition update_status :: "pid \<Rightarrow> string \<Rightarrow> router \<Rightarrow> router" where
  "update_status i status r = r\<lparr>connstatus := (connstatus r)(i \<mapsto> status)\<rparr>"

definition create_chatwindow :: "pid \<Rightarrow> router \<Rightarrow> router" where
  "create_chatwindow i r =
     (let r = (if connstatus r i = None then r\<lparr>connstatus := (connstatus r)(i \<mapsto> ''Disconnected'')\<rparr> else r)
      in r\<lparr>chatwindows := (chatwindows r)(i \<mapsto> 0)\<rparr>)"

definition msg_from_peer :: "bool \<Rightarrow> pid \<Rightarrow> byte list \<Rightarrow> router \<Rightarrow> router option" where
  "msg_from_peer isActiveWindow from msg r =
     do { let r = (if chatwindows r from = None then create_chatwindow from r else r);
          r \<leftarrow> cw_msg_from_peer from msg r;
          Some (if isActiveWindow then r
                else if blinkqueue r = [] then r\<lparr>blinking := True, blinkqueue := [from]\<rparr>
                else if from \<notin> set (blinkqueue r) then r\<lparr>blinkqueue := blinkqueue r @ [from]\<rparr>
                else r) }"

definition msg_to_peer :: "byte list \<Rightarrow> pid \<Rightarrow> router \<Rightarrow> router option" where
  "msg_to_peer msg peer_id r =
     do { s \<leftarrow> SendMessage peer_id msg (r_sky r);
          let r = r\<lparr>r_sky := s\<rparr>;
          Some (if blinkqueue r \<noteq> [] then stop_blinking (r\<lparr>blinkqueue := removeAll peer_id (blinkqueue r)\<rparr>) else r) }"

definition start_chat :: "pid \<Rightarrow> router \<Rightarrow> router" where
  "start_chat i r = (if chatwindows r i = None then create_chatwindow i r else r)"

definition chatwindow_closed :: "pid \<Rightarrow> router \<Rightarrow> router" where
  "chatwindow_closed i r = r\<lparr>chatwindows := (chatwindows r)(i := None)\<rparr>"

definition delivered :: "pid \<Rightarrow> router \<Rightarrow> router option" where
  "delivered to r =
     (if chatwindows r to \<noteq> None then cw_msg_delivered to r
      else Some (on_history (\<lambda>me. History_SetDelivered me to) r))"

definition notification :: "bool \<Rightarrow> string \<Rightarrow> bool \<Rightarrow> router \<Rightarrow> router" where
  "notification has_mainwindow text is_critical r =
     (if has_mainwindow then r\<lparr>r_notes := r_notes r @ [(text, is_critical)]\<rparr> else r)"

text \<open>\<open>ChatWindow::send_message\<close>; the signal \<open>msg_input\<close> is connected to \<open>msg_to_peer\<close>.\<close>

definition send_message :: "(byte list \<Rightarrow> bool) \<Rightarrow> pid \<Rightarrow> byte list \<Rightarrow> router \<Rightarrow> router option" where
  "send_message isEmptyMessage i message r =
     (if isEmptyMessage message then Some r
      else
        do { r \<leftarrow> put_message i True r;
             let r = on_history (\<lambda>me. History_Add (sk_time (r_sky r)) me i message True) r;
             msg_to_peer message i r })"

section \<open>The blinking icon\<close>

inductive router_step :: "router \<Rightarrow> router \<Rightarrow> bool" where
  "msg_from_peer act i m r = Some r' \<Longrightarrow> router_step r r'"
| "send_message blank i m r = Some r' \<Longrightarrow> router_step r r'"
| "delivered i r = Some r' \<Longrightarrow> router_step r r'"
| "router_step r (trayicon_dclick b r)"
| "router_step r (update_status i t r)"
| "router_step r (start_chat i r)"
| "router_step r (chatwindow_closed i r)"
| "router_step r (notification b t c r)"
| "router_step r (r\<lparr>r_sky := s\<rparr>)"

definition blink_ok :: "router \<Rightarrow> bool" where
  "blink_ok r \<longleftrightarrow> (blinking r \<longleftrightarrow> blinkqueue r \<noteq> []) \<and> distinct (blinkqueue r)"

lemma blink_same [simp]:
  "blink_ok (on_history f r) = blink_ok r" "blink_ok (r\<lparr>r_sky := s\<rparr>) = blink_ok r"
  "blink_ok (r\<lparr>chatwindows := w\<rparr>) = blink_ok r" "blink_ok (r\<lparr>connstatus := c\<rparr>) = blink_ok r"
  "blink_ok (r\<lparr>r_notes := n\<rparr>) = blink_ok r"
  by (simp_all add: blink_ok_def on_history_def)

lemma blink_put: "put_message i b r = Some r' \<Longrightarrow> blink_ok r' = blink_ok r"
  by (auto simp: put_message_def split: if_splits)

lemma blink_create [simp]: "blink_ok (create_chatwindow i r) = blink_ok r"
  by (simp add: create_chatwindow_def Let_def)

lemma blink_stop: "blinking r \<longrightarrow> distinct (blinkqueue r) \<Longrightarrow> blinking r \<Longrightarrow> blink_ok (stop_blinking r)"
  by (simp add: blink_ok_def stop_blinking_def)

lemma blink_delivered: "delivered i r = Some r' \<Longrightarrow> blink_ok r' = blink_ok r"
  by (auto simp: delivered_def cw_msg_delivered_def Let_def split: if_splits dest!: blink_put)

lemma blink_from_peer:
  assumes "msg_from_peer act i m r = Some r'" "blink_ok r"
  shows "blink_ok r'"
proof -
  obtain r1 where r1: "cw_msg_from_peer i m (if chatwindows r i = None then create_chatwindow i r else r) = Some r1"
    "r' = (if act then r1 else if blinkqueue r1 = [] then r1\<lparr>blinking := True, blinkqueue := [i]\<rparr>
           else if i \<notin> set (blinkqueue r1) then r1\<lparr>blinkqueue := blinkqueue r1 @ [i]\<rparr> else r1)"
    using assms(1) by (auto simp: msg_from_peer_def Let_def)
  have "blink_ok r1" using r1(1) assms(2) by (auto simp: cw_msg_from_peer_def dest!: blink_put split: if_splits)
  then show ?thesis unfolding r1(2) by (auto simp: blink_ok_def)
qed

lemma blink_send:
  assumes "send_message blank i m r = Some r'" "blink_ok r"
  shows "blink_ok r'"
proof (cases "blank m")
  case False
  then obtain r1 where r1: "put_message i True r = Some r1"
    "msg_to_peer m i (on_history (\<lambda>me. History_Add (sk_time (r_sky r1)) me i m True) r1) = Some r'"
    using assms(1) by (auto simp: send_message_def Let_def)
  have "blink_ok (on_history (\<lambda>me. History_Add (sk_time (r_sky r1)) me i m True) r1)"
    using blink_put [OF r1(1)] assms(2) by simp
  then show ?thesis using r1(2)
    by (auto simp: msg_to_peer_def Let_def blink_ok_def stop_blinking_def on_history_def distinct_removeAll split: if_splits)
qed (use assms in \<open>simp add: send_message_def\<close>)

lemma router_step_blink: "router_step r r' \<Longrightarrow> blink_ok r \<Longrightarrow> blink_ok r'"
proof (induction rule: router_step.induct)
  case (4 r c)
  then show ?case by (auto simp: trayicon_dclick_def stop_blinking_def blink_ok_def split: list.splits)
qed (auto simp: update_status_def start_chat_def chatwindow_closed_def notification_def blink_delivered
    intro: blink_from_peer blink_send)

section \<open>Messages that were not acknowledged\<close>

text \<open>What happens in the conversation with one contact: the user writes, the contact's client
  acknowledges. The specification is a queue.\<close>

datatype ui_event = Write "byte list" | Acknowledged

fun ui_run :: "(byte list \<Rightarrow> bool) \<Rightarrow> pid \<Rightarrow> ui_event list \<Rightarrow> router \<Rightarrow> router option" where
  "ui_run blank i [] r = Some r"
| "ui_run blank i (Write m # es) r = do { r \<leftarrow> send_message blank i m r; ui_run blank i es r }"
| "ui_run blank i (Acknowledged # es) r = do { r \<leftarrow> delivered i r; ui_run blank i es r }"

fun awaited :: "(byte list \<Rightarrow> bool) \<Rightarrow> ui_event list \<Rightarrow> byte list list \<Rightarrow> byte list list" where
  "awaited blank [] q = q"
| "awaited blank (Write m # es) q = awaited blank es (if blank m then q else q @ [m])"
| "awaited blank (Acknowledged # es) q = awaited blank es (tl q)"

definition stores :: "skynet \<Rightarrow> history \<times> pid" where
  "stores s = (sk_history s, account_id s)"

lemma stores_simps [simp]:
  "stores (emit_signal x s) = stores s" "stores (s\<lparr>sk_lib := l\<rparr>) = stores s" "stores (s\<lparr>msgqueues := q\<rparr>) = stores s"
  by (simp_all add: stores_def emit_signal_def)

lemma stores_SendMessage: "SendMessage to m s = Some s' \<Longrightarrow> stores s' = stores s"
  by (auto simp: SendMessage_def sky_new_c2c_def Let_def split: option.splits if_splits)

lemma put_message_sky: "put_message i b r = Some r' \<Longrightarrow> r_sky r' = r_sky r"
  by (auto simp: put_message_def split: if_splits)

lemma send_message_stores:
  assumes "send_message blank i m r = Some r'" "\<not> blank m" "stores (r_sky r) = (h, me)"
  shows "stores (r_sky r') = (History_Add (sk_time (r_sky r)) me i m True h, me)"
  using assms
  by (auto simp: send_message_def msg_to_peer_def stop_blinking_def on_history_def Let_def stores_def [of "r_sky r"]
      dest!: put_message_sky stores_SendMessage split: if_splits) (auto simp: stores_def)

lemma delivered_stores:
  assumes "delivered i r = Some r'" "stores (r_sky r) = (h, me)"
  shows "stores (r_sky r') = (History_SetDelivered me i h, me)"
  using assms
  by (auto simp: delivered_def cw_msg_delivered_def on_history_def stores_def Let_def
      dest!: put_message_sky split: if_splits)

lemma ui_run_awaited:
  assumes "ui_run blank i es r = Some r'" "stores (r_sky r) = (h, me)" "history_ok h"
  shows "\<exists>h'. stores (r_sky r') = (h', me) \<and> undelivered me i h' = awaited blank es (undelivered me i h) \<and>
    (\<forall>j. j \<noteq> i \<longrightarrow> undelivered me j h' = undelivered me j h)"
  using assms
proof (induction blank i es r arbitrary: h rule: ui_run.induct)
  case (2 blank i m es r)
  from "2.prems"(1) obtain r1 where r1: "send_message blank i m r = Some r1" "ui_run blank i es r1 = Some r'" by auto
  show ?case
  proof (cases "blank m")
    case True
    then have "r1 = r" using r1(1) by (simp add: send_message_def)
    then show ?thesis using "2.IH" [OF r1] "2.prems"(2,3) True by simp
  next
    case False
    from "2.IH" [OF r1 send_message_stores [OF r1(1) False "2.prems"(2)] history_ok_Add [OF "2.prems"(3)]] show ?thesis
      using False by (simp add: undelivered_Add)
  qed
next
  case (3 blank i es r)
  from "3.prems"(1) obtain r1 where r1: "delivered i r = Some r1" "ui_run blank i es r1 = Some r'" by auto
  from "3.IH" [OF r1 delivered_stores [OF r1(1) "3.prems"(2)] history_ok_SetDelivered [OF "3.prems"(3)]] "3.prems"(3)
  show ?case by (simp add: undelivered_SetDelivered)
qed auto

text \<open>What leaving and joining again keep.\<close>

definition offline_queues :: "skynet \<Rightarrow> (pid \<times> byte list list) list \<times> bool \<times> history \<times> pid" where
  "offline_queues s = (msgqueues s, self_aware s, sk_history s, account_id s)"

lemma offline_simps [simp]:
  "offline_queues (emit_signal x s) = offline_queues s" "offline_queues (s\<lparr>sk_lib := l\<rparr>) = offline_queues s"
  "offline_queues (s\<lparr>connecting_nodes := ns\<rparr>) = offline_queues s" "offline_queues (s\<lparr>sk_acc := a\<rparr>) = offline_queues s"
  "offline_queues (s\<lparr>sk_listener := ls\<rparr>) = offline_queues s" "offline_queues (s\<lparr>sk_nodes := rs\<rparr>) = offline_queues s"
  by (simp_all add: offline_queues_def emit_signal_def)

lemma offline_status [simp]: "offline_queues (node_status_changed nr b s) = offline_queues s"
  by (simp add: node_status_changed_def)

lemma offline_join_nodes: "join_nodes cfg ml nrs s = Some s' \<Longrightarrow> offline_queues s' = offline_queues s"
  by (induction nrs arbitrary: s) (fastforce simp: Let_def split: option.splits if_splits)+

lemma offline_join: "Join ji s = Some s' \<Longrightarrow> offline_queues s' = offline_queues s"
  by (auto simp: Join_def join_listener_def Let_def split: if_splits prod.splits dest!: offline_join_nodes)

lemma exit_queues: "sky_exit s = Some s' \<Longrightarrow> offline_queues s' = ([], False, stores s)"
  by (auto simp: sky_exit_def offline_queues_def stores_def active_filetransfers_reset_def stop_file_timer_def killTimer_def Let_def
      split: option.splits if_splits)

lemma msgqueues_new_c2c: "sky_new_c2c i s = Some (r, s') \<Longrightarrow> msgqueues s' = msgqueues s"
  by (auto simp: sky_new_c2c_def split: option.splits)

lemma msgqueues_reconnect_loop: "reconnect_loop is s = Some s' \<Longrightarrow> msgqueues s' = msgqueues s"
  by (induction "is" s rule: reconnect_loop.induct) (auto simp: msgqueues_new_c2c split: option.splits if_splits)

lemma activated_queues:
  assumes "nodelink_activated c s = Some s'" "offline_queues s = ([], False, h, me)"
  shows "msgqueues s' = History_GetUndeliveredMessages me h"
  using assms
  by (auto simp: nodelink_activated_def offline_queues_def node_status_changed_def reconnect_c2c_def Let_def
      split: prod.splits option.splits if_splits dest!: msgqueues_reconnect_loop)

section \<open>Properties\<close>

text \<open>C6. No message is lost between the windows and the network. The user writes messages to a
  contact, some of them are acknowledged, online or not; then the client leaves the network,
  joins it again and gets connected to a node. The queue of the contact is then exactly what
  the contact has not acknowledged yet, older messages first, and the queues of other
  contacts are what the history had for them.\<close>

theorem unacknowledged_redelivered:
  assumes "history_ok (sk_history (r_sky r))" "ui_run blank i es r = Some r'"
    and "sky_exit (r_sky r') = Some s1" "Join ji s1 = Some s2" "nodelink_activated c s2 = Some s3"
  shows "qm_list (msgqueues s3) i =
      awaited blank es (undelivered (account_id (r_sky r)) i (sk_history (r_sky r))) \<and>
    (\<forall>j. j \<noteq> i \<longrightarrow> qm_list (msgqueues s3) j = undelivered (account_id (r_sky r)) j (sk_history (r_sky r)))"
proof -
  from ui_run_awaited [OF assms(2) stores_def assms(1)] obtain h' where
    h: "stores (r_sky r') = (h', account_id (r_sky r))"
      "undelivered (account_id (r_sky r)) i h' = awaited blank es (undelivered (account_id (r_sky r)) i (sk_history (r_sky r)))"
      "\<forall>j. j \<noteq> i \<longrightarrow> undelivered (account_id (r_sky r)) j h' = undelivered (account_id (r_sky r)) j (sk_history (r_sky r))"
    by blast
  have "offline_queues s2 = ([], False, h', account_id (r_sky r))"
    using exit_queues [OF assms(3)] offline_join [OF assms(4)] h(1) by simp
  from activated_queues [OF assms(5) this] h(2,3) show ?thesis by (simp add: get_undelivered)
qed

text \<open>Two messages of which one is acknowledged, written offline.\<close>

definition demo_router :: router where
  "demo_router = \<lparr>r_sky = demo_sky\<lparr>connecting_nodes := []\<rparr>, chatwindows = [demo_id \<mapsto> 0], connstatus = (\<lambda>_. None), blinkqueue = [],
     blinking = False, r_notes = []\<rparr>"

definition demo_join :: join_input where
  "demo_join = \<lparr>ji_account = None, ji_select = id, ji_direct_c2c = PICA_DIRECTC2C_CFG_DISABLED, ji_multilogin = 0,
     ji_public_port = 0, ji_local_port = 0, ji_public_addr = [], ji_upnp_enabled = False, ji_ifaddrs = None,
     ji_upnp = (\<lambda>_ _. None), ji_inet_addr = (\<lambda>_. 0)\<rparr>"

theorem unacknowledged_redelivered_witness:
  "\<exists>r' s1 s2 s3. ui_run (\<lambda>m. m = []) demo_id [Write [72], Write [], Write [105], Acknowledged] demo_router = Some r' \<and>
     sky_exit (r_sky r') = Some s1 \<and> Join demo_join s1 = Some s2 \<and>
     nodelink_activated 0 s2 = Some s3 \<and> qm_list (msgqueues s3) demo_id = [[105]]"
proof -
  let ?es = "[Write [72], Write [], Write [105], Acknowledged]"
  obtain r' where r: "ui_run (\<lambda>m. m = []) demo_id ?es demo_router = Some r'" "active_nodelink (r_sky r') = None"
      "connecting_nodes (r_sky r') = []" "sk_acc (r_sky r') = None" "sk_lib (r_sky r') = demo_active" "sndfilequeues (r_sky r') = []"
      "history_ok (sk_history demo_sky)" "file_transfer_timer_id (r_sky r') = 0" "account_id (r_sky r') = [3]"
      "History_GetUndeliveredMessages [3] (sk_history (r_sky r')) = [(demo_id, [[105]])]"
    by (simp add: demo_router_def demo_sky_eval send_message_def put_message_def on_history_def msg_to_peer_def SendMessage_def
        find_active_chan_def sky_new_c2c_def qm_contains_def delivered_def cw_msg_delivered_def emit_signal_def Let_def history_ok_def
        History_GetUndeliveredMessages_def History_Add_def History_SetDelivered_def undelivered_row_def qm_list_def)
  let ?s1 = "emit_signal LostSelfAwareness ((active_filetransfers_reset ((r_sky r')\<lparr>self_aware := False\<rparr>))
      \<lparr>msgqueues := [], sk_lib := demo_active, connecting_nodes := []\<rparr>)"
  have s1: "sky_exit (r_sky r') = Some ?s1" using r by (simp add: sky_exit_def active_filetransfers_reset_def)
  have s2: "Join demo_join ?s1 = Some ?s1" using r by (simp add: Join_def demo_join_def emit_signal_def active_filetransfers_reset_def)
  obtain s3 where s3: "nodelink_activated 0 ?s1 = Some s3"
    using r by (simp add: nodelink_activated_def active_filetransfers_reset_def reconnect_c2c_def queue_keys_def filter_existing_chans_def
        demo_active_def demo_conn_def demo_chan_def new_c2c_def emit_signal_def)
  from unacknowledged_redelivered [OF _ r(1) s1 s2 s3] r(7) have "qm_list (msgqueues s3) demo_id = [[105]]"
    by (simp add: demo_router_def demo_sky_eval undelivered_def)
  then show ?thesis using r(1) s1 s2 s3 by blast
qed

end
