(* ===== verification/FileUi.thy ===== *)
theory FileUi
  imports MsgRouter
begin

text \<open>
  The windows of file transfers: \<open>filetransferdialog.cpp\<close>, one dialog per transfer, and
  \<open>filetransfercontroller.cpp\<close>, which connects them with \<open>SkyNet\<close>. A dialog is an object on a heap:
  Qt deletes it when the user closes it in a final state. A slot that is connected to a signal
  several times is called as often, so the numbers of such connections are part of the state.
  Labels that only show numbers (speed, percentage) are left out. Texts of buttons are
  those of the untranslated program.
\<close>

section \<open>Dialogs\<close>

datatype TransferDirection = SENDING | RECEIVING

datatype TransferStatus =
  WAITINGFORACCEPT | DENIED | SENDINGFILE | RECEIVINGFILE | PAUSED | CANCELLED | PEERDISCONNECTED | IOERROR | FINISHED

record dialog =
  d_peer_id :: pid
  d_dir :: TransferDirection
  d_filename :: "byte list"
  d_filesize :: u64
  d_progress :: u64
  d_prevprogress :: u64
  d_status :: TransferStatus
  d_left :: "string \<times> bool"
  d_right :: "string \<times> bool"
  d_delete_on_close :: bool
  d_remaining :: "u64 option"

definition isTerminalState :: "TransferStatus \<Rightarrow> bool" where
  "isTerminalState st \<longleftrightarrow> st \<in> {DENIED, CANCELLED, FINISHED, PEERDISCONNECTED, IOERROR}"

definition setEnabled :: "bool \<Rightarrow> string \<times> bool \<Rightarrow> string \<times> bool" where
  "setEnabled b w = (fst w, b)"

definition setTransferStatus :: "TransferStatus \<Rightarrow> dialog \<Rightarrow> dialog" where
  "setTransferStatus st d =
     (let d = d\<lparr>d_status := st\<rparr>;
          d = (if st = SENDINGFILE then d\<lparr>d_left := setEnabled True (d_left d)\<rparr> else d) in
      if isTerminalState st
      then d\<lparr>d_left := setEnabled False (d_left d), d_right := setEnabled False (d_right d), d_delete_on_close := True\<rparr>
      else d)"

definition dialog_update :: "u64 \<Rightarrow> dialog \<Rightarrow> dialog" where
  "dialog_update progress d =
     (let d = d\<lparr>d_progress := progress\<rparr> in if progress = d_filesize d then setTransferStatus FINISHED d else d)"

definition new_dialog :: "pid \<Rightarrow> byte list \<Rightarrow> u64 \<Rightarrow> TransferDirection \<Rightarrow> dialog" where
  "new_dialog peer_id filename fsize drct =
     (dialog_update 0 (setTransferStatus WAITINGFORACCEPT
       \<lparr>d_peer_id = peer_id, d_dir = drct, d_filename = filename, d_filesize = fsize, d_progress = 0, d_prevprogress = 0,
        d_status = WAITINGFORACCEPT,
        d_left = (case drct of RECEIVING \<Rightarrow> (''Accept'', True) | SENDING \<Rightarrow> (''Pause'', False)),
        d_right = (case drct of RECEIVING \<Rightarrow> (''Deny'', True) | SENDING \<Rightarrow> (''Cancel'', True)),
        d_delete_on_close = False, d_remaining = None\<rparr>))
     \<lparr>d_progress := 0, d_prevprogress := 0\<rparr>"

definition running_status :: "dialog \<Rightarrow> TransferStatus" where
  "running_status d = (if d_dir d = SENDING then SENDINGFILE else RECEIVINGFILE)"

definition pausedByPeer :: "dialog \<Rightarrow> dialog" where
  "pausedByPeer d = setTransferStatus PAUSED (d\<lparr>d_left := setEnabled False (d_left d)\<rparr>)"

definition resumedByPeer :: "dialog \<Rightarrow> dialog" where
  "resumedByPeer d = setTransferStatus (running_status d) (d\<lparr>d_left := setEnabled True (d_left d)\<rparr>)"

definition cancelledByPeer :: "dialog \<Rightarrow> dialog" where
  "cancelledByPeer d = setTransferStatus CANCELLED d"

definition ioError :: "dialog \<Rightarrow> dialog" where
  "ioError d = setTransferStatus IOERROR d"

definition peerDisconnected :: "dialog \<Rightarrow> dialog" where
  "peerDisconnected d = setTransferStatus PEERDISCONNECTED d"

text \<open>\<open>timeout\<close>, every second; the difference is that of unsigned numbers.\<close>

definition dialog_timeout :: "dialog \<Rightarrow> dialog" where
  "dialog_timeout d =
     (if d_progress d \<ge> d_filesize d then d
      else
        let bps = d_progress d - d_prevprogress d;
            d = d\<lparr>d_prevprogress := d_progress d\<rparr>
        in d\<lparr>d_remaining := (if bps \<noteq> 0 then Some ((d_filesize d - d_progress d) div bps) else None)\<rparr>)"

section \<open>The controller\<close>

record ftc =
  fc_sky :: skynet
  dialogs :: "nat \<rightharpoonup> dialog"
  next_dialog :: nat
  ftdialogs_in :: "pid \<rightharpoonup> nat"
  ftdialogs_out :: "pid \<rightharpoonup> nat"
  fnames :: "pid \<rightharpoonup> byte list"
  in_connected :: nat
  out_connected :: nat
  fc_notes :: nat

definition on_dialog :: "(dialog \<Rightarrow> dialog) \<Rightarrow> nat \<Rightarrow> ftc \<Rightarrow> ftc option" where
  "on_dialog f p c = do { d \<leftarrow> dialogs c p; Some (c\<lparr>dialogs := (dialogs c)(p \<mapsto> f d)\<rparr>) }"

definition on_in :: "(dialog \<Rightarrow> dialog) \<Rightarrow> pid \<Rightarrow> ftc \<Rightarrow> ftc option" where
  "on_in f i c = do { p \<leftarrow> ftdialogs_in c i; on_dialog f p c }"

definition on_out :: "(dialog \<Rightarrow> dialog) \<Rightarrow> pid \<Rightarrow> ftc \<Rightarrow> ftc option" where
  "on_out f i c = do { p \<leftarrow> ftdialogs_out c i; on_dialog f p c }"

definition remove_in :: "pid \<Rightarrow> ftc \<Rightarrow> ftc" where
  "remove_in i c = c\<lparr>ftdialogs_in := (ftdialogs_in c)(i := None)\<rparr>"

definition remove_out :: "pid \<Rightarrow> ftc \<Rightarrow> ftc" where
  "remove_out i c = c\<lparr>ftdialogs_out := (ftdialogs_out c)(i := None)\<rparr>"

definition file_peer_disconnected :: "pid \<Rightarrow> ftc \<Rightarrow> ftc option" where
  "file_peer_disconnected i c =
     do { c \<leftarrow> (if ftdialogs_in c i \<noteq> None then map_option (remove_in i) (on_in peerDisconnected i c) else Some c);
          if ftdialogs_out c i \<noteq> None then map_option (remove_out i) (on_out peerDisconnected i c) else Some c }"

definition file_finished_incoming :: "pid \<Rightarrow> ftc \<Rightarrow> ftc option" where
  "file_finished_incoming i c = Some (if ftdialogs_in c i \<noteq> None then remove_in i c else c)"

definition file_finished_outgoing :: "pid \<Rightarrow> ftc \<Rightarrow> ftc option" where
  "file_finished_outgoing i c = Some (if ftdialogs_out c i \<noteq> None then remove_out i c else c)"

definition ftc_progress :: "pid \<Rightarrow> u64 \<Rightarrow> u64 \<Rightarrow> ftc \<Rightarrow> ftc option" where
  "ftc_progress i bytes_sent bytes_received c =
     (if bytes_received > 0 then (if ftdialogs_in c i \<noteq> None then on_in (dialog_update bytes_received) i c else Some c)
      else if bytes_sent > 0 then (if ftdialogs_out c i \<noteq> None then on_out (dialog_update bytes_sent) i c else Some c)
      else Some c)"

definition add_dialog :: "dialog \<Rightarrow> ftc \<Rightarrow> nat \<times> ftc" where
  "add_dialog d c = (next_dialog c, c\<lparr>dialogs := (dialogs c)(next_dialog c \<mapsto> d), next_dialog := Suc (next_dialog c)\<rparr>)"

definition file_request :: "pid \<Rightarrow> u64 \<Rightarrow> byte list \<Rightarrow> ftc \<Rightarrow> ftc option" where
  "file_request i file_size filename c =
     (let (p, c) = add_dialog (new_dialog i filename file_size RECEIVING) c
      in Some (c\<lparr>ftdialogs_in := (ftdialogs_in c)(i \<mapsto> p), fnames := (fnames c)(i \<mapsto> filename)\<rparr>))"

definition file_accepted_by_peer :: "pid \<Rightarrow> ftc \<Rightarrow> ftc option" where
  "file_accepted_by_peer i c = on_out (setTransferStatus SENDINGFILE) i (c\<lparr>out_connected := Suc (out_connected c)\<rparr>)"

definition file_denied_by_peer :: "pid \<Rightarrow> ftc \<Rightarrow> ftc option" where
  "file_denied_by_peer i c = on_out (setTransferStatus DENIED) i c"

definition file_paused_incoming :: "pid \<Rightarrow> ftc \<Rightarrow> ftc option" where
  "file_paused_incoming i c = on_in pausedByPeer i c"

definition file_resumed_incoming :: "pid \<Rightarrow> ftc \<Rightarrow> ftc option" where
  "file_resumed_incoming i c = on_in resumedByPeer i c"

definition file_cancelled_incoming :: "pid \<Rightarrow> ftc \<Rightarrow> ftc option" where
  "file_cancelled_incoming i c = map_option (remove_in i) (on_in cancelledByPeer i c)"

definition file_ioerror_incoming :: "pid \<Rightarrow> ftc \<Rightarrow> ftc option" where
  "file_ioerror_incoming i c = map_option (remove_in i) (on_in ioError i c)"

definition file_paused_outgoing :: "pid \<Rightarrow> ftc \<Rightarrow> ftc option" where
  "file_paused_outgoing i c = on_out pausedByPeer i c"

definition file_resumed_outgoing :: "pid \<Rightarrow> ftc \<Rightarrow> ftc option" where
  "file_resumed_outgoing i c = on_out resumedByPeer i c"

definition file_cancelled_outgoing :: "pid \<Rightarrow> ftc \<Rightarrow> ftc option" where
  "file_cancelled_outgoing i c = map_option (remove_out i) (on_out cancelledByPeer i c)"

definition file_ioerror_outgoing :: "pid \<Rightarrow> ftc \<Rightarrow> ftc option" where
  "file_ioerror_outgoing i c = map_option (remove_out i) (on_out ioError i c)"

text \<open>A call of \<open>SkyNet\<close>.\<close>

definition call_sky :: "(skynet \<Rightarrow> skynet option) \<Rightarrow> ftc \<Rightarrow> ftc option" where
  "call_sky f c = do { s \<leftarrow> f (fc_sky c); Some (c\<lparr>fc_sky := s\<rparr>) }"

definition file_accepted_by_me :: "byte list \<Rightarrow> pid \<Rightarrow> ftc \<Rightarrow> ftc option" where
  "file_accepted_by_me filePathToSave i c =
     do { c \<leftarrow> call_sky (AcceptFile i filePathToSave) c;
          on_in (setTransferStatus RECEIVINGFILE) i (c\<lparr>in_connected := Suc (in_connected c)\<rparr>) }"

definition file_denied_by_me :: "pid \<Rightarrow> ftc \<Rightarrow> ftc option" where
  "file_denied_by_me i c = map_option (remove_in i) (call_sky (DenyFile i) c)"

definition file_cancelled_by_me :: "pid \<Rightarrow> nat \<Rightarrow> ftc \<Rightarrow> ftc option" where
  "file_cancelled_by_me i from c =
     do { d \<leftarrow> dialogs c from;
          if d_dir d = RECEIVING then call_sky (CancelFile i False) (remove_in i c)
          else call_sky (CancelFile i True) (remove_out i c) }"

definition file_paused_by_me :: "pid \<Rightarrow> nat \<Rightarrow> ftc \<Rightarrow> ftc option" where
  "file_paused_by_me i from c = do { d \<leftarrow> dialogs c from; call_sky (PauseFile i (d_dir d \<noteq> RECEIVING)) c }"

definition file_resumed_by_me :: "pid \<Rightarrow> nat \<Rightarrow> ftc \<Rightarrow> ftc option" where
  "file_resumed_by_me i from c = do { d \<leftarrow> dialogs c from; call_sky (ResumeFile i (d_dir d \<noteq> RECEIVING)) c }"

text \<open>The file that the user selects: its path, its name and its size, if it exists.\<close>

definition send_file :: "(byte list \<times> (byte list \<times> u64) option) option \<Rightarrow> pid \<Rightarrow> ftc \<Rightarrow> ftc option" where
  "send_file selected i c =
     (if ftdialogs_out c i \<noteq> None then Some (c\<lparr>fc_notes := Suc (fc_notes c)\<rparr>)
      else case selected of
        None \<Rightarrow> Some c
      | Some (filepath, None) \<Rightarrow> Some (c\<lparr>fc_notes := Suc (fc_notes c)\<rparr>)
      | Some (filepath, Some (filename, fsize)) \<Rightarrow>
          do { let c = (if fsize = 0 then c\<lparr>fc_notes := Suc (fc_notes c)\<rparr> else c);
               c \<leftarrow> call_sky (SendFile i filepath) c;
               let (p, c) = add_dialog (new_dialog i filename fsize SENDING) c;
               Some (c\<lparr>ftdialogs_out := (ftdialogs_out c)(i \<mapsto> p)\<rparr>) })"

section \<open>Buttons\<close>

text \<open>A button that is not enabled cannot be clicked.\<close>

definition setTexts :: "string \<Rightarrow> string \<Rightarrow> dialog \<Rightarrow> dialog" where
  "setTexts l r d = d\<lparr>d_left := (l, snd (d_left d)), d_right := (r, snd (d_right d))\<rparr>"

definition leftbuttonclick :: "byte list \<Rightarrow> nat \<Rightarrow> ftc \<Rightarrow> ftc option" where
  "leftbuttonclick filePathToSave p c =
     do { d \<leftarrow> dialogs c p;
          let t = fst (d_left d);
          if \<not> snd (d_left d) then Some c
          else if d_dir d = RECEIVING \<and> t = ''Accept'' then
            do { c \<leftarrow> on_dialog (setTexts ''Pause'' ''Cancel'') p c;
                 file_accepted_by_me filePathToSave (d_peer_id d) c }
          else if t = ''Pause'' then
            do { c \<leftarrow> on_dialog (setTexts ''Resume'' (fst (d_right d))) p c;
                 c \<leftarrow> file_paused_by_me (d_peer_id d) p c;
                 on_dialog (setTransferStatus PAUSED) p c }
          else if t = ''Resume'' then
            do { c \<leftarrow> on_dialog (setTexts ''Pause'' (fst (d_right d))) p c;
                 c \<leftarrow> file_resumed_by_me (d_peer_id d) p c;
                 on_dialog (\<lambda>d. setTransferStatus (running_status d) d) p c }
          else Some c }"

definition rightbuttonclick :: "bool \<Rightarrow> nat \<Rightarrow> ftc \<Rightarrow> ftc option" where
  "rightbuttonclick sure p c =
     do { d \<leftarrow> dialogs c p;
          let t = fst (d_right d);
          if \<not> snd (d_right d) then Some c
          else if d_dir d = RECEIVING \<and> t = ''Deny'' then
            do { c \<leftarrow> file_denied_by_me (d_peer_id d) c;
                 on_dialog (setTransferStatus DENIED) p c }
          else if t = ''Cancel'' \<and> sure then
            do { c \<leftarrow> file_cancelled_by_me (d_peer_id d) p c;
                 on_dialog (setTransferStatus CANCELLED) p c }
          else Some c }"

text \<open>The user closes a window: Qt deletes it if it has been told to, else it is only hidden.\<close>

definition close_dialog :: "nat \<Rightarrow> ftc \<Rightarrow> ftc option" where
  "close_dialog p c =
     do { d \<leftarrow> dialogs c p;
          Some (if d_delete_on_close d then c\<lparr>dialogs := (dialogs c)(p := None)\<rparr> else c) }"

section \<open>Signals\<close>

fun slot_calls :: "nat \<Rightarrow> (ftc \<Rightarrow> ftc option) \<Rightarrow> ftc \<Rightarrow> ftc option" where
  "slot_calls 0 f c = Some c"
| "slot_calls (Suc n) f c = do { c \<leftarrow> f c; slot_calls n f c }"

definition ftc_signal :: "signal \<Rightarrow> ftc \<Rightarrow> ftc option" where
  "ftc_signal x c =
     (case x of
        IncomingFileRequestReceived i fsize name \<Rightarrow> file_request i fsize name c
      | FileProgress i b_sent b_received \<Rightarrow> ftc_progress i b_sent b_received c
      | OutgoingFileRequestAccepted i \<Rightarrow> file_accepted_by_peer i c
      | OutgoingFileRequestDenied i \<Rightarrow> file_denied_by_peer i c
      | c2cClosed i \<Rightarrow> file_peer_disconnected i c
      | OutgoingFilePaused i \<Rightarrow> slot_calls (out_connected c) (file_paused_outgoing i) c
      | OutgoingFileResumed i \<Rightarrow> slot_calls (out_connected c) (file_resumed_outgoing i) c
      | OutgoingFileCancelled i \<Rightarrow> slot_calls (out_connected c) (file_cancelled_outgoing i) c
      | OutgoingFileIoError i \<Rightarrow> slot_calls (out_connected c) (file_ioerror_outgoing i) c
      | OutgoingFileFinished i \<Rightarrow> slot_calls (out_connected c) (file_finished_outgoing i) c
      | IncomingFilePaused i \<Rightarrow> slot_calls (in_connected c) (file_paused_incoming i) c
      | IncomingFileResumed i \<Rightarrow> slot_calls (in_connected c) (file_resumed_incoming i) c
      | IncomingFileCancelled i \<Rightarrow> slot_calls (in_connected c) (file_cancelled_incoming i) c
      | IncomingFileIoError i \<Rightarrow> slot_calls (in_connected c) (file_ioerror_incoming i) c
      | IncomingFileFinished i \<Rightarrow> slot_calls (in_connected c) (file_finished_incoming i) c
      | _ \<Rightarrow> Some c)"

section \<open>Connections that pile up\<close>

text \<open>The slots for the end of a transfer are connected again with every transfer that is accepted. From
  the second one on, a transfer that the peer cancels is looked up twice, and the
  first time removes it.\<close>

lemma out_dialog_conn: "on_out f i c = Some c' \<Longrightarrow> out_connected c' = out_connected c"
  by (auto simp: on_out_def on_dialog_def)

lemma send_file_conn: "send_file sel i c = Some c' \<Longrightarrow> out_connected c' = out_connected c"
  by (auto simp: send_file_def call_sky_def add_dialog_def Let_def split: if_splits option.splits)

lemma finished_conn: "slot_calls n (file_finished_outgoing i) c = Some c' \<Longrightarrow> out_connected c' = out_connected c"
  by (induction n arbitrary: c) (auto simp: file_finished_outgoing_def remove_out_def split: if_splits)

lemma cancelled_twice: "n \<ge> 2 \<Longrightarrow> slot_calls n (file_cancelled_outgoing i) c = None"
proof -
  assume "n \<ge> 2"
  then obtain m where m: "n = Suc (Suc m)" by (metis Suc_le_D numeral_2_eq_2 Suc_le_mono)
  have "file_cancelled_outgoing i c = Some c1 \<Longrightarrow> file_cancelled_outgoing i c1 = None" for c1
    by (auto simp: file_cancelled_outgoing_def on_out_def remove_out_def)
  then show ?thesis unfolding m by (cases "file_cancelled_outgoing i c") auto
qed

lemma second_transfer_cancel_faults:
  assumes "send_file sel i c = Some c1" "ftc_signal (OutgoingFileRequestAccepted i) c1 = Some c2"
    and "ftc_signal (OutgoingFileFinished i) c2 = Some c3"
    and "send_file sel' i c3 = Some c4" "ftc_signal (OutgoingFileRequestAccepted i) c4 = Some c5"
  shows "ftc_signal (OutgoingFileCancelled i) c5 = None"
proof -
  have "out_connected c5 = Suc (Suc (out_connected c))"
    using assms by (auto simp: ftc_signal_def file_accepted_by_peer_def dest!: send_file_conn out_dialog_conn finished_conn)
  then show ?thesis by (simp add: ftc_signal_def cancelled_twice del: slot_calls.simps)
qed

section \<open>Dialogs that were deleted\<close>

lemma dangling_out:
  assumes "ftdialogs_out c i = Some p" "dialogs c p = None"
  shows "file_peer_disconnected i c = None"
proof -
  have "on_out f i c' = None" if "ftdialogs_out c' i = Some p" "dialogs c' p = None" for f c'
    using that by (simp add: on_out_def on_dialog_def)
  moreover have "ftdialogs_out c' i = Some p \<and> dialogs c' p = None" if "on_in f i c = Some c'" for f c'
    using that assms by (auto simp: on_in_def on_dialog_def)
  ultimately show ?thesis using assms
    by (cases "on_in peerDisconnected i c") (auto simp: file_peer_disconnected_def remove_in_def on_out_def on_dialog_def)
qed

section \<open>Properties\<close>

text \<open>C35. A denied file leaves a dangling dialog. When a contact denies a file, its dialog stays in
  the table of outgoing transfers: no other file can be offered to this contact, and when the user
  closes the dialog and the contact disconnects afterwards, the controller calls a
  method of the deleted dialog.\<close>

theorem denied_dialog_dangles:
  assumes "send_file sel i c = Some c1" "ftdialogs_out c i = None" "ftdialogs_out c1 i = Some p"
    and "ftc_signal (OutgoingFileRequestDenied i) c1 = Some c2"
  shows "send_file sel' i c2 = Some (c2\<lparr>fc_notes := Suc (fc_notes c2)\<rparr>) \<and>
    (\<exists>c3. close_dialog p c2 = Some c3 \<and> ftdialogs_out c3 i = Some p \<and> dialogs c3 p = None \<and>
      ftc_signal (c2cClosed i) c3 = None)"
proof -
  obtain d where d: "dialogs c1 p = Some d" "c2 = c1\<lparr>dialogs := (dialogs c1)(p \<mapsto> setTransferStatus DENIED d)\<rparr>"
    using assms(3,4) by (auto simp: ftc_signal_def file_denied_by_peer_def on_out_def on_dialog_def)
  have 1: "send_file sel' i c2 = Some (c2\<lparr>fc_notes := Suc (fc_notes c2)\<rparr>)"
    using d(2) assms(3) by (simp add: send_file_def)
  let ?c3 = "c2\<lparr>dialogs := (dialogs c2)(p := None)\<rparr>"
  have 2: "close_dialog p c2 = Some ?c3"
    using d(2) by (simp add: close_dialog_def setTransferStatus_def isTerminalState_def)
  have "ftc_signal (c2cClosed i) ?c3 = None"
    using dangling_out [of ?c3 i p] assms(3) d(2) by (simp add: ftc_signal_def)
  then show ?thesis using 1 2 d(2) assms(3) by simp
qed

definition demo_ftc :: ftc where
  "demo_ftc = \<lparr>fc_sky = demo_sky, dialogs = (\<lambda>_. None), next_dialog = 0, ftdialogs_in = (\<lambda>_. None), ftdialogs_out = (\<lambda>_. None),
     fnames = (\<lambda>_. None), in_connected = 0, out_connected = 0, fc_notes = 0\<rparr>"

theorem denied_dialog_dangles_witness:
  "\<exists>c1 c2 c3. send_file (Some ([47, 97], Some ([97], 5))) demo_id demo_ftc = Some c1 \<and>
     ftc_signal (OutgoingFileRequestDenied demo_id) c1 = Some c2 \<and> close_dialog 0 c2 = Some c3 \<and>
     ftc_signal (c2cClosed demo_id) c3 = None"
proof -
  obtain c1 where c1: "send_file (Some ([47, 97], Some ([97], 5))) demo_id demo_ftc = Some c1" "ftdialogs_out c1 demo_id = Some 0"
      "dialogs c1 0 \<noteq> None"
    by (simp add: send_file_def demo_ftc_def call_sky_def SendFile_def find_active_chan_def sky_new_c2c_def demo_sky_eval
        qm_contains_def add_dialog_def Let_def)
  then obtain c2 where c2: "ftc_signal (OutgoingFileRequestDenied demo_id) c1 = Some c2"
    by (auto simp: ftc_signal_def file_denied_by_peer_def on_out_def on_dialog_def)
  from denied_dialog_dangles [OF c1(1) _ c1(2) c2] c1(1) c2 show ?thesis by (auto simp: demo_ftc_def)
qed

end
