(* ===== verification/Spec2Isabelle.thy ===== *)
theory Spec2Isabelle
  imports NodeSafety NodeLife NodeRelay Netconf ClientAuth ClientFaults ClientLife ClientSwitch Login NodeList NodeJoin FileUi
begin

text \<open>
  \<^bold>\<open>Pica Pica\<close> is a decentralised messenger. Nodes (\<open>pica-node\<close>, \<open>PICA_node.c\<close>) form a
  network; a user is connected to one node over TLS by the client library
  (\<open>PICA_client.c\<close>), which the graphical client uses. A call to another user is passed
  from node to node until the callee is found; then both ends open a second connection to
  their nodes, the nodes relay its bytes, and a TLS session from end to end runs over the
  relay. The ends may later switch to a direct connection. This development models the node,
  the client library and the part of the graphical client that has state of its own, and
  proves what makes them correct; where the code does not do what it means to do, a theorem
  shows the behaviour it has.

  \<^bold>\<open>Conventions\<close> (\<open>Pica_Base\<close>). A C function becomes a function with the same name. Pointers are
  natural numbers and objects live in one heap per type; a freed object is not in its heap.
  A result of type \<open>option\<close> is \<open>None\<close> where C has no defined result: access to \<open>NULL\<close>, to
  freed memory or outside of a buffer, a double free, a call of \<open>exit\<close>, or a loop that does
  not return. Unsigned integers are words of their width, so that wrap-around is that of the
  code. What the program cannot control is an input: allocation, random bytes and the clock
  in the record \<open>env\<close>; results of TLS, sockets, files, signatures and resolution as arguments
  or as functions in the record \<open>ext\<close> (client) and in the arguments of the event handlers
  (node). The host is little-endian. Logging has no effect on the state and is left out.

  \<^bold>\<open>Shared parts.\<close>
  \<^item> \<open>Pica_Proto\<close>: the constants of \<open>PICA_proto.h\<close> and the layout of packets.
  \<^item> \<open>Msgproc\<close> (\<open>PICA_msgproc.c\<close>): size of a message, dispatch by a table, and the loop
    that cuts the read buffer into messages. The locale \<open>msg_table\<close> states what a table of
    handlers promises (a handler looks at its own packet only); from it follow that every
    complete packet reaches its handler once and in order and that the way the network cuts
    the stream does not matter. It is interpreted on the tables of the node and of the client.
    The locale \<open>safe_table\<close> adds that handlers keep an invariant, and gives that no stream breaks
    it; \<open>NodeSafety\<close> interprets it on the tables for connected clients.
  \<^item> \<open>Wbuf\<close>: the growing write buffers of both programs. \<open>pending\<close> is the queue of bytes a
    buffer stands for. The locale \<open>packet_queue\<close> is the contract of the four push functions.

  \<^bold>\<open>The node\<close> (\<open>PICA_node.c\<close>).
  \<^item> \<open>NodeTypes\<close>: the structures and the state of the process, record \<open>node\<close>.
  \<^item> \<open>ClientTree\<close>: the search tree of clients, on its pointers, proved against the tree it
    stands for.
  \<^item> \<open>NodeCclink\<close>, \<open>NodeConn\<close>: links between two clients, clients, accepted connections, links
    to other nodes. \<open>NodeHandlers\<close>: all handlers \<open>procmsg_*\<close> and the four tables.
    \<open>NodeEvents\<close>: the handlers of libevent, \<open>process_*\<close>.
  \<^item> \<open>NodeAddr\<close> (\<open>PICA_nodeaddrlist.c\<close>): the database of addresses. \<open>NodeWait\<close> (\<open>PICA_nodewait.c\<close>,
    \<open>process_nodewait\<close>, \<open>PICA_node_joinskynet\<close>, \<open>process_timeouts\<close>): joining the network with
    its threads. \<open>Netconf\<close> (\<open>PICA_netconf.c\<close>): reserved addresses, the address to listen on.
  \<^item> \<open>NodeInv\<close>, \<open>NodeSafety\<close>: the invariant (lists hold exactly the live objects, counters
    count them, links refer to live ends, the tree is a search tree) and that no bytes a
    client sends make the node fault. \<open>NodeLife\<close>: deleting clients and nodes, timeouts.
    \<open>NodeRelay\<close>: what the relay does with bytes. \<open>NodeJoin\<close>: the threads and the main loop,
    interleaved.

  \<^bold>\<open>The client library\<close> (\<open>PICA_client.c\<close>).
  \<^item> \<open>ClientTypes\<close>: the structures, the callbacks as a trace of what the application was told,
    record \<open>lib\<close>. \<open>ClientChan\<close>: messages and files on a channel. \<open>ClientDirect\<close>: direct
    connections and the listener, certificate checks. \<open>ClientConn\<close>: opening and closing,
    reading and writing. \<open>ClientNode\<close>: the connection to a node. \<open>ClientLoop\<close>: one round of
    \<open>PICA_event_loop\<close>.
  \<^item> \<open>ClientAuth\<close>: in every reachable state a channel past its handshake belongs to a peer whose
    certificate hashes to its identifier and was approved. \<open>ClientXfer\<close>: messages and files
    arrive exactly. \<open>ClientSwitch\<close>: switching to a direct connection loses no byte.
    \<open>ClientLife\<close>: closing frees everything, silent channels time out. \<open>ClientFaults\<close>: inputs
    that make the library fault.

  \<^bold>\<open>The graphical client\<close> (\<open>pica-client/\<close>).
  \<^item> \<open>ClientStore\<close>: the tables of nodes, contacts, history, accounts and settings (\<open>nodes.cpp\<close>,
    \<open>contacts.cpp\<close>, \<open>history.cpp\<close>, \<open>accounts.cpp\<close>, \<open>settings.cpp\<close>); the history refines a queue of
    unacknowledged messages. The locale \<open>list_map\<close> is what is used of \<open>QMap\<close>.
  \<^item> \<open>SkyNet\<close> (\<open>skynet.cpp\<close>): connecting to nodes, queues, timers, callbacks, on the library as modelled
    above. \<open>SkyProps\<close>: queued messages are handed over in order, certificates are pinned,
    delays are bounded, and how the client goes offline by accident.
  \<^item> \<open>MsgRouter\<close> (\<open>msguirouter.cpp\<close> and the history part of \<open>chatwindow.cpp\<close>): what is not acknowledged
    is sent again after the next start. \<open>FileUi\<close> (\<open>filetransfercontroller.cpp\<close>,
    \<open>filetransferdialog.cpp\<close>): dialogs as objects and the slots connected to them.

  \<^bold>\<open>Both together.\<close> \<open>Login\<close>: the announcement of a login travels from one device over the node to
  the others. \<open>NodeList\<close>: the list of nodes from the node to the application.

  \<^bold>\<open>Bounds and fuel.\<close> Loops over lists are structural. Loops that need not end are partial
  functions into \<open>option\<close>, and results about them say that they return. \<open>send_rounds\<close> of
  \<open>ClientXfer\<close> repeats rounds of the event loop; five rounds per octet of the file are enough
  because each round writes at least one octet of what is queued or sends a fragment. Joining
  the network takes at most four steps per address. No other bound is used.

  \<^bold>\<open>Not modelled.\<close> A callback of the library is an entry of a trace and does not call the library
  again before the library returns. The start of the node (options, configuration, sockets,
  certificates, the Windows service), the opening of accounts, \<open>PICA_id.c\<close> and
  \<open>PICA_signverify.c\<close> are sequences of calls of OpenSSL, libevent and the C library without
  state of their own; their results are inputs above. UPnP only calls miniupnpc. The vendored
  \<open>iniparser\<close>, logging and tests are left out. Of the graphical client, windows, layout, the
  first start with its database migrations, and running the \<open>openssl\<close> tool are left out, and so
  are the search by keyword (\<open>like\<close> of SQLite) and reactions to database errors. The round
  of the event loop that \<open>SkyNet\<close> runs, with its callbacks, is an argument of \<open>timerEvent\<close>.
\<close>

end
